theory Spec2Isabelle
  imports Complex_Main "HOL-Library.Sublist"
begin

section \<open>Python values shared by the modelled modules\<close>

text \<open>
  The modelled code is Python. Its floats are modelled as exact reals (every random draw
  is an explicit input of the model, so no statement depends on a rounding error of the
  floating-point unit); its unbounded integers are \<open>int\<close>; its exceptions are values.
\<close>

datatype py_error =
  OverflowError | ValueError | TypeError | IndexError | ZeroDivisionError | AttributeError

definition then_do :: "py_error + 'a \<Rightarrow> ('a \<Rightarrow> py_error + 'b) \<Rightarrow> py_error + 'b" where
  \<comment> \<open>sequencing: an exception of the first step ends the computation\<close>
  "then_do m f = (case m of Inl e \<Rightarrow> Inl e | Inr x \<Rightarrow> f x)"

subsection \<open>Naive datetimes\<close>

text \<open>
  A naive \<open>datetime\<close> is modelled as the number of microseconds since midnight of the
  day with proleptic Gregorian ordinal 0, so that \<open>date.toordinal()\<close> is a division and
  comparison of datetimes is comparison of integers. Python only represents the days with
  ordinal 1 (0001-01-01) to 3652059 (9999-12-31); arithmetic that leaves this range raises
  \<open>OverflowError\<close>.
\<close>

type_synonym datetime = int
type_synonym timedelta = int

definition DAY_US :: int where
  "DAY_US = 86400000000"

definition HOUR_US :: int where
  "HOUR_US = 3600000000"

definition MINUTE_US :: int where
  "MINUTE_US = 60000000"

definition SECOND_US :: int where
  "SECOND_US = 1000000"

definition MAXORDINAL :: int where
  "MAXORDINAL = 3652059"

definition toordinal :: "datetime \<Rightarrow> int" where
  "toordinal t = t div DAY_US"

definition valid_datetime :: "datetime \<Rightarrow> bool" where
  "valid_datetime t \<longleftrightarrow> 1 \<le> toordinal t \<and> toordinal t \<le> MAXORDINAL"

definition weekday :: "datetime \<Rightarrow> int" where
  \<comment> \<open>Monday is 0, Sunday is 6; ordinal 1 is a Monday.\<close>
  "weekday t = (toordinal t + 6) mod 7"

definition hour_of :: "datetime \<Rightarrow> int" where
  "hour_of t = (t mod DAY_US) div HOUR_US"

definition microsecond_of :: "datetime \<Rightarrow> int" where
  "microsecond_of t = t mod SECOND_US"

definition is_leap :: "int \<Rightarrow> bool" where
  "is_leap y \<longleftrightarrow> y mod 4 = 0 \<and> (y mod 100 \<noteq> 0 \<or> y mod 400 = 0)"

definition days_before_year :: "int \<Rightarrow> int" where
  "days_before_year y = (y - 1) * 365 + (y - 1) div 4 - (y - 1) div 100 + (y - 1) div 400"

definition days_before_month :: "int \<Rightarrow> int \<Rightarrow> int" where
  "days_before_month y m =
     [0, 31, 59, 90, 120, 151, 181, 212, 243, 273, 304, 334] ! nat (m - 1)
       + (if m > 2 \<and> is_leap y then 1 else 0)"

definition ymd2ord :: "int \<Rightarrow> int \<Rightarrow> int \<Rightarrow> int" where
  "ymd2ord y m d = days_before_year y + days_before_month y m + d"

definition mk_datetime :: "int \<Rightarrow> int \<Rightarrow> int \<Rightarrow> int \<Rightarrow> int \<Rightarrow> int \<Rightarrow> datetime" where
  \<comment> \<open>\<open>datetime(y, m, d, hh, mm, ss)\<close> for a valid calendar date and time; microsecond 0.\<close>
  "mk_datetime y m d hh mm ss =
     ymd2ord y m d * DAY_US + hh * HOUR_US + mm * MINUTE_US + ss * SECOND_US"

definition dt_add :: "datetime \<Rightarrow> timedelta \<Rightarrow> py_error + datetime" where
  \<comment> \<open>\<open>datetime + timedelta\<close>\<close>
  "dt_add t d = (if valid_datetime (t + d) then Inr (t + d) else Inl OverflowError)"

definition td_days :: "timedelta \<Rightarrow> int" where
  \<comment> \<open>\<open>timedelta.days\<close>: a timedelta is normalised with \<open>0 \<le> seconds < 86400\<close>, so
      the days are rounded towards minus infinity.\<close>
  "td_days d = d div DAY_US"

definition td_total_seconds :: "timedelta \<Rightarrow> real" where
  "td_total_seconds d = real_of_int d / 1000000"

definition py_round :: "real \<Rightarrow> int" where
  \<comment> \<open>Python's \<open>round(x)\<close>: to the nearest integer, a tie to the even one.\<close>
  "py_round x =
     (let f = \<lfloor>x\<rfloor>; r = x - of_int f
      in if r < 1 / 2 then f else if 1 / 2 < r then f + 1 else if even f then f else f + 1)"

definition td_hours :: "real \<Rightarrow> timedelta" where
  \<comment> \<open>\<open>timedelta(hours=h)\<close>: rounded to whole microseconds.\<close>
  "td_hours h = py_round (h * 3600000000)"

section \<open>Completion probability (\<open>TemporalGenerator._get_completion_probability\<close>)\<close>

definition base_rates :: "string \<Rightarrow> real option" where
  "base_rates = map_of
     [(''engineering'', 65 / 100), (''product'', 70 / 100), (''marketing'', 75 / 100),
      (''sales'', 60 / 100), (''operations'', 72 / 100)]"

definition completion_project_adjustments :: "string \<Rightarrow> real option" where
  "completion_project_adjustments = map_of
     [(''sprint'', 15 / 100), (''bug_tracking'', 5 / 100), (''feature_development'', 0),
      (''campaign'', 10 / 100), (''research'', - (20 / 100))]"

definition dict_get :: "('k \<Rightarrow> 'v option) \<Rightarrow> 'k \<Rightarrow> 'v \<Rightarrow> 'v" where
  \<comment> \<open>\<open>d.get(k, default)\<close>\<close>
  "dict_get d k dflt = (case d k of None \<Rightarrow> dflt | Some v \<Rightarrow> v)"

definition get_completion_probability ::
  "string \<Rightarrow> string \<Rightarrow> datetime \<Rightarrow> datetime option \<Rightarrow> real" where
  "get_completion_probability department project_type created_at due_date =
     (let base_rate = dict_get base_rates department (68 / 100);
          adjustment = dict_get completion_project_adjustments project_type 0;
          rate = base_rate + adjustment;
          rate = (case due_date of
                    None \<Rightarrow> rate
                  | Some due \<Rightarrow>
                      (let days_until_due = td_days (due - created_at)
                       in if days_until_due \<le> 0 then rate * (5 / 10)
                          else if days_until_due \<le> 3 then rate * (12 / 10)
                          else if days_until_due \<le> 7 then rate * (11 / 10)
                          else if days_until_due > 30 then rate * (9 / 10)
                          else rate));
          rate = (if weekday created_at = 4 then rate * (85 / 100)
                  else if weekday created_at = 5 \<or> weekday created_at = 6 then rate * (7 / 10)
                  else rate)
      in max (1 / 10) (min (95 / 100) rate))"






section \<open>Validation statuses (\<open>DataValidator\<close>)\<close>

text \<open>The value of the entry \<open>status\<close> of a validation result.\<close>

datatype status = Success | Failure | Error

section \<open>Business calendar (\<open>TemporalGenerator\<close>, business-day arithmetic)\<close>

text \<open>
  The holiday calendar is the object of the \<open>holidays\<close> library held by the generator;
  only its membership test is used. It is a parameter of the model: a predicate on the
  ordinal of a date. The loops step one calendar day at a time; a step out of the
  representable range raises \<open>OverflowError\<close>, so every loop ends.
\<close>

type_synonym holiday_calendar = "int \<Rightarrow> bool"

definition is_business_day :: "holiday_calendar \<Rightarrow> int \<Rightarrow> bool" where
  "is_business_day holiday_calendar date_obj =
     (if (date_obj + 6) mod 7 \<ge> 5 then False else \<not> holiday_calendar date_obj)"

function offset_loop :: "holiday_calendar \<Rightarrow> bool \<Rightarrow> datetime \<Rightarrow> nat \<Rightarrow> py_error + datetime" where
  "offset_loop cal forward current_date remaining_days =
     (if remaining_days > 0
      then (case dt_add current_date ((if forward then 1 else - 1) * DAY_US) of
              Inl e \<Rightarrow> Inl e
            | Inr c \<Rightarrow>
                offset_loop cal forward c
                  (if is_business_day cal (toordinal c) then remaining_days - 1
                   else remaining_days))
      else Inr current_date)"
  by pat_completeness auto
termination
proof (relation "measure (\<lambda>(cal, forward, t, k).
         if forward then nat (MAXORDINAL + 1 - toordinal t) else nat (toordinal t))")
  show "wf (measure (\<lambda>(cal, forward, t, k).
         if forward then nat (MAXORDINAL + 1 - toordinal t) else nat (toordinal t)))"
    by simp
next
  fix cal :: holiday_calendar and forward :: bool and current_date :: datetime
    and remaining_days :: nat and c :: datetime
  assume "0 < remaining_days"
    and a: "dt_add current_date ((if forward then 1 else - 1) * DAY_US) = Inr c"
  have v: "valid_datetime c" and c: "c = current_date + (if forward then 1 else - 1) * DAY_US"
    using a by (auto simp: dt_add_def split: if_splits)
  have "toordinal c = toordinal current_date + (if forward then 1 else - 1)"
    unfolding c toordinal_def DAY_US_def by simp
  with v show "((cal, forward, c,
          if is_business_day cal (toordinal c) then remaining_days - 1 else remaining_days),
         cal, forward, current_date, remaining_days)
        \<in> measure (\<lambda>(cal, forward, t, k).
         if forward then nat (MAXORDINAL + 1 - toordinal t) else nat (toordinal t))"
    by (auto simp: valid_datetime_def)
qed

declare offset_loop.simps [simp del]

definition get_business_day_offset ::
  "holiday_calendar \<Rightarrow> datetime \<Rightarrow> int \<Rightarrow> py_error + datetime" where
  "get_business_day_offset cal base_date offset_days =
     (if offset_days = 0 then Inr base_date
      else offset_loop cal (offset_days > 0) base_date (nat \<bar>offset_days\<bar>))"

function next_business_loop :: "holiday_calendar \<Rightarrow> datetime \<Rightarrow> py_error + datetime" where
  "next_business_loop cal current_date =
     (if \<not> is_business_day cal (toordinal current_date)
      then (case dt_add current_date DAY_US of
              Inl e \<Rightarrow> Inl e
            | Inr c \<Rightarrow> next_business_loop cal c)
      else Inr current_date)"
  by pat_completeness auto
termination
proof (relation "measure (\<lambda>(cal, t). nat (MAXORDINAL + 1 - toordinal t))")
  show "wf (measure (\<lambda>(cal :: holiday_calendar, t). nat (MAXORDINAL + 1 - toordinal t)))"
    by simp
next
  fix cal :: holiday_calendar and current_date c :: datetime
  assume "\<not> is_business_day cal (toordinal current_date)"
    and a: "dt_add current_date DAY_US = Inr c"
  have v: "valid_datetime c" and c: "c = current_date + DAY_US"
    using a by (auto simp: dt_add_def split: if_splits)
  have "toordinal c = toordinal current_date + 1"
    unfolding c toordinal_def DAY_US_def by simp
  with v show "((cal, c), cal, current_date)
        \<in> measure (\<lambda>(cal, t). nat (MAXORDINAL + 1 - toordinal t))"
    by (auto simp: valid_datetime_def)
qed

declare next_business_loop.simps [simp del]

definition get_next_business_day :: "holiday_calendar \<Rightarrow> datetime \<Rightarrow> py_error + datetime" where
  "get_next_business_day cal start_date =
     (case dt_add start_date DAY_US of
        Inl e \<Rightarrow> Inl e
      | Inr c \<Rightarrow> next_business_loop cal c)"

function previous_business_loop :: "holiday_calendar \<Rightarrow> datetime \<Rightarrow> py_error + datetime" where
  "previous_business_loop cal current_date =
     (if \<not> is_business_day cal (toordinal current_date)
      then (case dt_add current_date (- DAY_US) of
              Inl e \<Rightarrow> Inl e
            | Inr c \<Rightarrow> previous_business_loop cal c)
      else Inr current_date)"
  by pat_completeness auto
termination
proof (relation "measure (\<lambda>(cal, t). nat (toordinal t))")
  show "wf (measure (\<lambda>(cal :: holiday_calendar, t). nat (toordinal t)))"
    by simp
next
  fix cal :: holiday_calendar and current_date c :: datetime
  assume "\<not> is_business_day cal (toordinal current_date)"
    and a: "dt_add current_date (- DAY_US) = Inr c"
  have v: "valid_datetime c" and c: "c = current_date - DAY_US"
    using a by (auto simp: dt_add_def split: if_splits)
  have "toordinal c = toordinal current_date - 1"
    unfolding c toordinal_def DAY_US_def by simp
  with v show "((cal, c), cal, current_date) \<in> measure (\<lambda>(cal, t). nat (toordinal t))"
    by (auto simp: valid_datetime_def)
qed

declare previous_business_loop.simps [simp del]

definition get_previous_business_day :: "holiday_calendar \<Rightarrow> datetime \<Rightarrow> py_error + datetime" where
  "get_previous_business_day cal start_date =
     (case dt_add start_date (- DAY_US) of
        Inl e \<Rightarrow> Inl e
      | Inr c \<Rightarrow> previous_business_loop cal c)"

text \<open>
  The number of business days among the dates with ordinals \<open>lo\<close> to \<open>hi\<close>, used to say
  that enough business days remain inside the representable range.
\<close>

definition business_days_in :: "holiday_calendar \<Rightarrow> int \<Rightarrow> int \<Rightarrow> nat" where
  "business_days_in cal lo hi = length (filter (is_business_day cal) [lo..hi])"

text \<open>
  The holidays of the US calendar in January 2026 (New Year's Day and Martin Luther King
  Jr. Day): the part of the calendar that the concrete evaluations below visit.
\<close>

definition holidays_january_2026 :: holiday_calendar where
  "holidays_january_2026 d \<longleftrightarrow> d = ymd2ord 2026 1 1 \<or> d = ymd2ord 2026 1 19"

section \<open>Strings and dictionaries\<close>

text \<open>
  Strings are byte strings; \<open>lower\<close> is \<open>str.lower()\<close> on ASCII text. A dictionary whose
  order of insertion matters is an association list with distinct keys.
\<close>

definition lower_char :: "char \<Rightarrow> char" where
  "lower_char c =
     dict_get (map_of (zip ''ABCDEFGHIJKLMNOPQRSTUVWXYZ'' ''abcdefghijklmnopqrstuvwxyz'')) c c"

definition lower :: "string \<Rightarrow> string" where
  \<comment> \<open>\<open>str.lower()\<close> on ASCII text\<close>
  "lower s = map lower_char s"

definition contains :: "string \<Rightarrow> string \<Rightarrow> bool" where
  \<comment> \<open>\<open>needle in haystack\<close> on strings\<close>
  "contains needle haystack = sublist needle haystack"

type_synonym 'v pydict = "(string \<times> 'v) list"

fun dict_set :: "('k \<times> 'v) list \<Rightarrow> 'k \<Rightarrow> 'v \<Rightarrow> ('k \<times> 'v) list" where
  "dict_set [] k v = [(k, v)]"
| "dict_set ((k', v') # kvs) k v = (if k' = k then (k, v) # kvs else (k', v') # dict_set kvs k v)"

section \<open>Distribution validation (\<open>DataValidator\<close>)\<close>

subsection \<open>KL divergence (\<open>_calculate_kl_divergence\<close>)\<close>

text \<open>
  The buckets are the keys of either dictionary. Both vectors are smoothed by \<open>1e-10\<close> and
  normalised. A division by a zero sum or by a zero \<open>q\<close> raises \<open>ZeroDivisionError\<close>.
  The sum over the buckets does not depend on their order in the reals. For a
  non-positive argument \<open>np.log\<close> yields \<open>nan\<close> or \<open>-inf\<close>, which \<open>ln\<close> does not model;
  smoothed non-negative entries are positive, and the statements below are about those.
\<close>

definition epsilon :: real where
  "epsilon = 1 / 10 ^ 10"

definition all_buckets :: "real pydict \<Rightarrow> real pydict \<Rightarrow> string list" where
  "all_buckets dist1 dist2 = remdups (map fst dist1 @ map fst dist2)"

definition smoothed :: "real pydict \<Rightarrow> string \<Rightarrow> real" where
  "smoothed distr bucket = dict_get (map_of distr) bucket 0 + epsilon"

definition calculate_kl_divergence :: "real pydict \<Rightarrow> real pydict \<Rightarrow> py_error + real" where
  "calculate_kl_divergence dist1 dist2 =
     (let buckets = all_buckets dist1 dist2;
          sum1 = sum_list (map (smoothed dist1) buckets);
          sum2 = sum_list (map (smoothed dist2) buckets)
      in if buckets \<noteq> [] \<and> (sum1 = 0 \<or> sum2 = 0) then Inl ZeroDivisionError
         else if \<exists>bucket \<in> set buckets. smoothed dist2 bucket / sum2 = 0 then Inl ZeroDivisionError
         else Inr (sum_list (map (\<lambda>bucket.
                 let p = smoothed dist1 bucket / sum1; q = smoothed dist2 bucket / sum2
                 in p * ln (p / q)) buckets)))"

definition sprint_tasks :: "real pydict" where
  "sprint_tasks = [(''0-1_days'', 15 / 100), (''2-3_days'', 25 / 100), (''4-7_days'', 30 / 100),
     (''8-14_days'', 20 / 100), (''15+_days'', 10 / 100)]"

definition campaign_tasks :: "real pydict" where
  "campaign_tasks = [(''0-1_days'', 5 / 100), (''2-3_days'', 10 / 100), (''4-7_days'', 25 / 100),
     (''8-14_days'', 35 / 100), (''15+_days'', 25 / 100)]"

subsection \<open>Due-date distributions (\<open>_validate_due_date_distributions\<close>)\<close>

text \<open>
  The rows are grouped by department and project type, in the order of first appearance.
  Every group is scored against the benchmark of its project type; the parameter
  \<open>similarity_threshold\<close> is the validator's \<open>distribution_similarity_threshold\<close>.
\<close>

record segment_result =
  sr_department :: string
  sr_project_type :: string
  sr_kl_divergence :: real
  sr_threshold :: real
  sr_status :: status
  sr_observed_distribution :: "real pydict"
  sr_benchmark_distribution :: "real pydict"
  sr_sample_size :: int

type_synonym due_date_row = "string \<times> string \<times> string \<times> int"

definition group_due_date_data :: "due_date_row list \<Rightarrow> ((string \<times> string) \<times> int pydict) list" where
  "group_due_date_data due_date_data =
     foldl (\<lambda>grouped (dept, proj_type, bucket, count).
              let key = (dept, proj_type);
                  grouped = (if map_of grouped key = None then dict_set grouped key [] else grouped)
              in dict_set grouped key (dict_set (the (map_of grouped key)) bucket count))
       [] due_date_data"

definition benchmark_for :: "string \<Rightarrow> real pydict" where
  "benchmark_for proj_type =
     (if contains ''sprint'' (lower proj_type) then sprint_tasks else campaign_tasks)"

definition observed_of :: "int pydict \<Rightarrow> real pydict" where
  "observed_of bucket_counts =
     map (\<lambda>(bucket, count).
            (bucket, real_of_int count / real_of_int (sum_list (map snd bucket_counts))))
       bucket_counts"

definition validate_segment ::
  "real \<Rightarrow> (string \<times> string) \<times> int pydict \<Rightarrow> py_error + segment_result option" where
  "validate_segment similarity_threshold seg =
     (case seg of ((dept, proj_type), bucket_counts) \<Rightarrow>
        let total_tasks = sum_list (map snd bucket_counts);
            benchmark_dist = benchmark_for proj_type
        in if benchmark_dist = [] then Inr None
           else if bucket_counts \<noteq> [] \<and> total_tasks = 0 then Inl ZeroDivisionError
           else let observed_dist = observed_of bucket_counts
                in (case calculate_kl_divergence observed_dist benchmark_dist of
                      Inl e \<Rightarrow> Inl e
                    | Inr kl \<Rightarrow>
                        Inr (Some \<lparr>sr_department = dept, sr_project_type = proj_type,
                                   sr_kl_divergence = kl, sr_threshold = similarity_threshold,
                                   sr_status = (if kl \<le> similarity_threshold then Success
                                                 else Failure),
                                   sr_observed_distribution = observed_dist,
                                   sr_benchmark_distribution = benchmark_dist,
                                   sr_sample_size = total_tasks\<rparr>)))"

fun validate_segments ::
  "real \<Rightarrow> ((string \<times> string) \<times> int pydict) list \<Rightarrow> py_error + segment_result list" where
  "validate_segments thr [] = Inr []"
| "validate_segments thr (seg # segs) =
     (case validate_segment thr seg of
        Inl e \<Rightarrow> Inl e
      | Inr res \<Rightarrow>
          (case validate_segments thr segs of
             Inl e \<Rightarrow> Inl e
           | Inr results \<Rightarrow> Inr ((case res of None \<Rightarrow> [] | Some r \<Rightarrow> [r]) @ results)))"

record due_date_validation =
  dd_status :: status
  dd_failure_rate :: real
  dd_details :: "segment_result list"
  dd_threshold :: real

definition validate_due_date_distributions ::
  "real \<Rightarrow> due_date_row list \<Rightarrow> py_error + due_date_validation" where
  "validate_due_date_distributions similarity_threshold due_date_data =
     (case validate_segments similarity_threshold (group_due_date_data due_date_data) of
        Inl e \<Rightarrow> Inl e
      | Inr results \<Rightarrow>
          let failures = length (filter (\<lambda>r. sr_status r = Failure) results)
          in Inr \<lparr>dd_status = (if failures > 0 then Failure else Success),
                  dd_failure_rate = (if results \<noteq> [] then real failures / real (length results)
                                     else 0),
                  dd_details = results,
                  dd_threshold = similarity_threshold\<rparr>)"

subsection \<open>The queries of \<open>_validate_distributions\<close>\<close>

text \<open>
  The joined rows of \<open>tasks\<close> and \<open>projects\<close> are the input: department, project type,
  completion flag, and the difference \<open>julianday(due_date) - julianday(created_at)\<close> in days
  (\<open>None\<close> for a task without due date). The first query keeps the groups with
  \<open>COUNT(t.id) >= 10\<close>; the second has no \<open>HAVING\<close> clause. The groups are listed in the
  order of appearance (SQL leaves the order open; no statement below depends on it).
\<close>

record task_row =
  tr_department :: string
  tr_project_type :: string
  tr_completed :: bool
  tr_due_days :: "real option"

definition due_date_bucket :: "real \<Rightarrow> string" where
  "due_date_bucket days =
     (if days \<le> 1 then ''0-1_days''
      else if days \<le> 3 then ''2-3_days''
      else if days \<le> 7 then ''4-7_days''
      else if days \<le> 14 then ''8-14_days''
      else ''15+_days'')"

type_synonym completion_rate_row = "string \<times> string \<times> int \<times> int \<times> real"

definition completion_rates_query :: "task_row list \<Rightarrow> completion_rate_row list" where
  "completion_rates_query tasks =
     (let groups = remdups (map (\<lambda>t. (tr_department t, tr_project_type t)) tasks);
          row = (\<lambda>(dept, proj_type).
            let members = filter (\<lambda>t. tr_department t = dept \<and> tr_project_type t = proj_type) tasks;
                total_tasks = int (length members);
                completed_tasks = int (length (filter tr_completed members))
            in (dept, proj_type, total_tasks, completed_tasks,
                real_of_int completed_tasks / real_of_int total_tasks))
      in filter (\<lambda>(dept, proj_type, total_tasks, completed_tasks, rate). total_tasks \<ge> 10)
           (map row groups))"

definition due_date_distributions_query :: "task_row list \<Rightarrow> due_date_row list" where
  "due_date_distributions_query tasks =
     (let dated = filter (\<lambda>t. tr_due_days t \<noteq> None) tasks;
          key = (\<lambda>t. (tr_department t, tr_project_type t, due_date_bucket (the (tr_due_days t))));
          groups = remdups (map key dated)
      in map (\<lambda>(dept, proj_type, bucket).
                (dept, proj_type, bucket,
                 int (length (filter (\<lambda>t. key t = (dept, proj_type, bucket)) dated))))
           groups)"

subsection \<open>Completion rates (\<open>_validate_completion_rates\<close>)\<close>

definition completion_rate_thresholds :: "string \<Rightarrow> (real \<times> real) option" where
  "completion_rate_thresholds = map_of
     [(''sprint'', (65 / 100, 90 / 100)), (''bug_tracking'', (55 / 100, 75 / 100)),
      (''feature_development'', (45 / 100, 70 / 100)), (''research'', (25 / 100, 50 / 100)),
      (''campaign'', (60 / 100, 85 / 100)), (''default'', (45 / 100, 75 / 100))]"

definition task_completion_rates :: "string \<Rightarrow> real option" where
  "task_completion_rates = map_of
     [(''engineering_sprint'', 75 / 100), (''marketing_campaign'', 70 / 100),
      (''product_roadmap'', 55 / 100), (''sales_pipeline'', 45 / 100),
      (''operations_process'', 65 / 100)]"

record rate_result =
  rr_department :: string
  rr_project_type :: string
  rr_completion_rate :: real
  rr_benchmark_rate :: real
  rr_min_acceptable :: real
  rr_max_acceptable :: real
  rr_status :: status
  rr_sample_size :: int

definition validate_rate :: "completion_rate_row \<Rightarrow> rate_result" where
  "validate_rate r =
     (case r of (dept, proj_type, total_tasks, completed_tasks, rate) \<Rightarrow>
        let benchmark = dict_get task_completion_rates (dept @ ''_'' @ proj_type)
                          (dict_get task_completion_rates (dept @ ''_default'') (65 / 100));
            thresholds = dict_get completion_rate_thresholds proj_type
                           (the (completion_rate_thresholds ''default''));
            min_acceptable = fst thresholds;
            max_acceptable = snd thresholds
        in \<lparr>rr_department = dept, rr_project_type = proj_type, rr_completion_rate = rate,
            rr_benchmark_rate = benchmark, rr_min_acceptable = min_acceptable,
            rr_max_acceptable = max_acceptable,
            rr_status = (if rate < min_acceptable \<or> rate > max_acceptable then Failure
                         else Success),
            rr_sample_size = total_tasks\<rparr>)"

record completion_rate_validation =
  cr_status :: status
  cr_failure_rate :: real
  cr_details :: "rate_result list"
  cr_threshold :: real

definition validate_completion_rates ::
  "real \<Rightarrow> completion_rate_row list \<Rightarrow> completion_rate_validation" where
  "validate_completion_rates similarity_threshold completion_rates =
     (let results = map validate_rate completion_rates;
          failures = length (filter (\<lambda>r. rr_status r = Failure) results)
      in \<lparr>cr_status = (if failures > 0 then Failure else Success),
          cr_failure_rate = (if results \<noteq> [] then real failures / real (length results) else 0),
          cr_details = results,
          cr_threshold = similarity_threshold\<rparr>)"

section \<open>Overall verdict (\<open>DataValidator.validate_database_integrity\<close>)\<close>

text \<open>
  \<open>_validate_distributions\<close> runs its four queries inside \<open>try\<close>; an \<open>sqlite3.Error\<close> there
  is caught and gives the status \<open>error\<close>. The input \<open>query_rows\<close> is \<open>None\<close> in that case,
  and otherwise the joined rows of \<open>tasks\<close> and \<open>projects\<close> that the queries read. When the
  queries succeed the dictionary of the four checks is built in order: the completion
  rates, the due-date distributions, and then \<open>self._validate_assignment_patterns\<close>, a
  method that the class does not define (nor \<open>_validate_day_of_week_patterns\<close>): the
  attribute lookup raises \<open>AttributeError\<close>, which no handler of the module catches.
\<close>

definition validate_distributions :: "real \<Rightarrow> task_row list option \<Rightarrow> py_error + status option" where
  "validate_distributions similarity_threshold query_rows =
     (case query_rows of
        None \<Rightarrow> Inr (Some Error)
      | Some tasks \<Rightarrow>
          (let completion_rates =
                 validate_completion_rates similarity_threshold (completion_rates_query tasks)
           in then_do (validate_due_date_distributions similarity_threshold
                         (due_date_distributions_query tasks))
                (\<lambda>due_date_distributions. Inl AttributeError)))"

text \<open>
  The other five validators catch \<open>sqlite3.Error\<close> themselves and return a dictionary;
  only its entry \<open>status\<close> is read here (\<open>result.get('status')\<close>, \<open>None\<close> when the key is
  absent). Their statuses are inputs of the model. The dictionary literal calls the six
  validators in the order in which it lists them, so an exception of
  \<open>_validate_distributions\<close> ends the call before any verdict.
\<close>

definition categories :: "string list" where
  "categories = [''schema_validation'', ''temporal_consistency'', ''referential_integrity'',
     ''distribution_validation'', ''business_rules'', ''data_quality'']"

record integrity_report =
  overall_status :: status
  failed_categories :: "string list option"

definition validate_database_integrity ::
  "real \<Rightarrow> status option \<Rightarrow> status option \<Rightarrow> status option \<Rightarrow> task_row list option
     \<Rightarrow> status option \<Rightarrow> status option \<Rightarrow> py_error + integrity_report" where
  "validate_database_integrity similarity_threshold schema temporal referential query_rows
       business quality =
     then_do (validate_distributions similarity_threshold query_rows) (\<lambda>distribution.
       let results = zip categories [schema, temporal, referential, distribution, business, quality];
           failed = map fst (filter (\<lambda>(category, st). st = Some Failure) results)
       in if failed \<noteq> []
          then Inr \<lparr>overall_status = Failure, failed_categories = Some failed\<rparr>
          else Inr \<lparr>overall_status = Success, failed_categories = None\<rparr>)"

text \<open>
  The joined rows of the test database that the module builds under \<open>__main__\<close>: three
  tasks of the engineering sprint project and one of the marketing campaign project, with
  their completion flags and the days from creation to due date. Its schema lacks most of
  the required tables, so the schema validation reports \<open>failure\<close>, and the temporal and
  referential validations meet missing tables and report \<open>error\<close>.
\<close>

definition test_database_rows :: "task_row list" where
  "test_database_rows =
     [\<lparr>tr_department = ''engineering'', tr_project_type = ''sprint'', tr_completed = True,
        tr_due_days = Some 5\<rparr>,
      \<lparr>tr_department = ''engineering'', tr_project_type = ''sprint'', tr_completed = False,
        tr_due_days = Some 12\<rparr>,
      \<lparr>tr_department = ''engineering'', tr_project_type = ''sprint'', tr_completed = True,
        tr_due_days = Some 2\<rparr>,
      \<lparr>tr_department = ''marketing'', tr_project_type = ''campaign'', tr_completed = False,
        tr_due_days = Some 7\<rparr>]"

section \<open>Custom field values (\<open>CustomFieldGenerator\<close>)\<close>

subsection \<open>The table of field value patterns\<close>

text \<open>
  A number is a Python \<open>int\<close> or \<open>float\<close>; the difference matters where \<open>range\<close> is built
  from the bounds. The entry \<open>distribution\<close> of a number pattern is a name or a list of
  weights. Every key of a number pattern is read with \<open>dict.get\<close> and may be absent.
\<close>

datatype pynum = PyInt int | PyFloat real

fun num_val :: "pynum \<Rightarrow> real" where
  "num_val (PyInt i) = real_of_int i"
| "num_val (PyFloat x) = x"

datatype dist_kind = KindName string | KindWeights "real list"

record number_pattern =
  np_min :: "pynum option"
  np_max :: "pynum option"
  np_distribution :: "dist_kind option"
  np_mean :: "real option"
  np_std :: "real option"

text \<open>
  \<open>self.field_value_patterns\<close> as \<open>__init__\<close> builds it: by field type, then by department,
  then (but for \<open>text\<close>) by field name, in the order of the source. A date pattern is its
  pair \<open>offset_days\<close>.
\<close>

definition text_patterns_init :: "string list pydict" where
  "text_patterns_init =
     [(''engineering'',
        [''API endpoint'', ''database schema'', ''microservice'', ''container image'',
         ''CI/CD pipeline'', ''test coverage'', ''performance metric'', ''security scan'',
         ''code review'', ''documentation update'', ''refactoring target'', ''tech debt item'']),
      (''product'',
        [''user story'', ''acceptance criteria'', ''feature flag'', ''A/B test'',
         ''user persona'', ''journey map'', ''wireframe'', ''prototype'', ''user feedback'',
         ''market research'', ''competitive analysis'', ''success metric'']),
      (''marketing'',
        [''campaign name'', ''target audience'', ''channel strategy'', ''creative asset'',
         ''landing page'', ''email template'', ''social media post'', ''blog article'',
         ''SEO keyword'', ''conversion rate'', ''engagement metric'', ''brand guideline'']),
      (''sales'',
        [''deal size'', ''sales stage'', ''probability'', ''close date'', ''account tier'',
         ''territory'', ''product line'', ''competitive landscape'', ''customer pain point'',
         ''ROI analysis'', ''implementation timeline'', ''stakeholder map'']),
      (''operations'',
        [''process step'', ''approval workflow'', ''budget category'', ''resource allocation'',
         ''compliance requirement'', ''risk level'', ''vendor contract'', ''SLA metric'',
         ''cost center'', ''headcount plan'', ''training requirement'', ''policy document''])]"

definition number_patterns_init :: "number_pattern pydict pydict" where
  "number_patterns_init =
     [(''engineering'',
        [(''story_points'',
           \<lparr>np_min = Some (PyInt 1), np_max = Some (PyInt 13),
             np_distribution = Some (KindWeights
               [1 / 10, 2 / 10, 3 / 10, 2 / 10, 1 / 10, 5 / 100, 5 / 100]),
             np_mean = None, np_std = None\<rparr>),
         (''priority'',
           \<lparr>np_min = Some (PyInt 1), np_max = Some (PyInt 5),
             np_distribution = Some (KindWeights
               [5 / 100, 15 / 100, 4 / 10, 3 / 10, 1 / 10]),
             np_mean = None, np_std = None\<rparr>),
         (''risk_level'',
           \<lparr>np_min = Some (PyInt 1), np_max = Some (PyInt 10),
             np_distribution = Some (KindWeights
               [1 / 10, 1 / 10, 2 / 10, 2 / 10, 15 / 100, 1 / 10, 5 / 100, 5 / 100, 3 / 100,
                 2 / 100]),
             np_mean = None, np_std = None\<rparr>)]),
      (''product'',
        [(''ice_score'',
           \<lparr>np_min = Some (PyInt 1), np_max = Some (PyInt 100),
             np_distribution = Some (KindName ''normal''),
             np_mean = Some 50, np_std = Some 20\<rparr>),
         (''effort_level'',
           \<lparr>np_min = Some (PyInt 1), np_max = Some (PyInt 10),
             np_distribution = Some (KindWeights
               [5 / 100, 1 / 10, 15 / 100, 2 / 10, 2 / 10, 15 / 100, 1 / 10, 3 / 100, 1 / 100,
                 1 / 100]),
             np_mean = None, np_std = None\<rparr>),
         (''impact_score'',
           \<lparr>np_min = Some (PyInt 1), np_max = Some (PyInt 10),
             np_distribution = Some (KindWeights
               [2 / 100, 3 / 100, 5 / 100, 1 / 10, 2 / 10, 3 / 10, 2 / 10, 7 / 100, 2 / 100,
                 1 / 100]),
             np_mean = None, np_std = None\<rparr>)]),
      (''marketing'',
        [(''budget_usd'',
           \<lparr>np_min = Some (PyInt 100), np_max = Some (PyInt 50000),
             np_distribution = Some (KindName ''lognormal''),
             np_mean = Some 2500, np_std = Some (15 / 10)\<rparr>),
         (''target_ctr'',
           \<lparr>np_min = Some (PyFloat (1 / 10)), np_max = Some (PyFloat (10)),
             np_distribution = Some (KindName ''normal''),
             np_mean = Some (25 / 10), np_std = Some 1\<rparr>),
         (''creative_assets'',
           \<lparr>np_min = Some (PyInt 1), np_max = Some (PyInt 20),
             np_distribution = Some (KindWeights
               [1 / 10, 2 / 10, 3 / 10, 2 / 10, 1 / 10, 5 / 100, 3 / 100, 1 / 100, 5 / 1000,
                 5 / 1000]),
             np_mean = None, np_std = None\<rparr>)]),
      (''sales'',
        [(''deal_size'',
           \<lparr>np_min = Some (PyInt 1000), np_max = Some (PyInt 1000000),
             np_distribution = Some (KindName ''lognormal''),
             np_mean = Some 50000, np_std = Some 2\<rparr>),
         (''probability'',
           \<lparr>np_min = Some (PyInt 1), np_max = Some (PyInt 100),
             np_distribution = Some (KindWeights
               [5 / 100, 5 / 100, 1 / 10, 15 / 100, 2 / 10, 2 / 10, 15 / 100, 5 / 100, 3 / 100,
                 2 / 100]),
             np_mean = None, np_std = None\<rparr>),
         (''timeline_weeks'',
           \<lparr>np_min = Some (PyInt 1), np_max = Some (PyInt 26),
             np_distribution = Some (KindName ''normal''),
             np_mean = Some 8, np_std = Some 4\<rparr>)]),
      (''operations'',
        [(''budget_impact'',
           \<lparr>np_min = Some (PyInt (- 10000)), np_max = Some (PyInt 10000),
             np_distribution = Some (KindName ''normal''),
             np_mean = Some 0, np_std = Some 3000\<rparr>),
         (''risk_score'',
           \<lparr>np_min = Some (PyInt 1), np_max = Some (PyInt 10),
             np_distribution = Some (KindWeights
               [5 / 100, 5 / 100, 1 / 10, 15 / 100, 2 / 10, 2 / 10, 15 / 100, 7 / 100, 2 / 100,
                 1 / 100]),
             np_mean = None, np_std = None\<rparr>),
         (''resource_hours'',
           \<lparr>np_min = Some (PyInt 1), np_max = Some (PyInt 160),
             np_distribution = Some (KindName ''normal''),
             np_mean = Some 40, np_std = Some 30\<rparr>)])]"

definition date_patterns_init :: "(int \<times> int) pydict pydict" where
  "date_patterns_init =
     [(''engineering'',
        [(''sprint_start'', (- 30, 0)), (''sprint_end'', (1, 14)), (''release_date'', (7, 90))]),
      (''marketing'',
        [(''campaign_start'', (- 7, 7)), (''campaign_end'', (7, 60)),
         (''content_publish'', (1, 30))]),
      (''product'',
        [(''research_deadline'', (3, 21)), (''design_review'', (2, 14)),
         (''launch_date'', (30, 180))]),
      (''sales'',
        [(''proposal_due'', (1, 7)), (''demo_date'', (2, 14)), (''close_date'', (14, 90))]),
      (''operations'',
        [(''approval_deadline'', (1, 14)), (''implementation_date'', (7, 60)),
         (''review_date'', (30, 120))])]"

definition enum_patterns_init :: "string list pydict pydict" where
  "enum_patterns_init =
     [(''engineering'',
        [(''priority'',
           [''Critical'', ''High'', ''Medium'', ''Low'']),
         (''component'',
           [''Frontend'', ''Backend'', ''Database'', ''API'', ''Infrastructure'', ''Security'']),
         (''bug_severity'',
           [''Blocker'', ''Critical'', ''Major'', ''Minor'', ''Trivial'']),
         (''environment'',
           [''Production'', ''Staging'', ''Development'', ''QA''])]),
      (''product'',
        [(''impact'',
           [''High'', ''Medium'', ''Low'']),
         (''effort'',
           [''High'', ''Medium'', ''Low'']),
         (''strategic_theme'',
           [''Growth'', ''Engagement'', ''Retention'', ''Monetization'', ''Efficiency'']),
         (''customer_type'',
           [''Enterprise'', ''Mid-Market'', ''SMB'', ''Freemium''])]),
      (''marketing'',
        [(''campaign_type'',
           [''Product Launch'', ''Brand Awareness'', ''Lead Generation'',
            ''Customer Retention'', ''Event Promotion'']),
         (''target_audience'',
           [''Enterprise'', ''Mid-Market'', ''SMB'', ''Developers'', ''End Users'']),
         (''platform'',
           [''Social Media'', ''Email'', ''Web'', ''Print'', ''Video'', ''Paid Search'']),
         (''content_type'',
           [''Blog Post'', ''Whitepaper'', ''Case Study'', ''Video'', ''Infographic'',
            ''Webinar''])]),
      (''sales'',
        [(''sales_stage'',
           [''Prospecting'', ''Qualification'', ''Proposal'', ''Negotiation'', ''Closed Won'',
            ''Closed Lost'']),
         (''account_tier'',
           [''Enterprise'', ''Mid-Market'', ''SMB'', ''Strategic Partner'']),
         (''deal_type'',
           [''New Business'', ''Expansion'', ''Renewal'', ''Cross-sell'', ''Up-sell'']),
         (''probability'',
           [''10%'', ''25%'', ''50%'', ''75%'', ''90%''])]),
      (''operations'',
        [(''priority'',
           [''Critical'', ''High'', ''Medium'', ''Low'']),
         (''risk_level'',
           [''High'', ''Medium'', ''Low'']),
         (''deadline_type'',
           [''Hard Deadline'', ''Soft Deadline'', ''Milestone'', ''Nice to Have'']),
         (''resource_type'',
           [''People'', ''Budget'', ''Time'', ''Tools'', ''External Services''])])]"

definition boolean_patterns_init :: "real list pydict pydict" where
  "boolean_patterns_init =
     [(''engineering'',
        [(''tech_debt'', [3 / 10, 7 / 10]), (''security_review'', [2 / 10, 8 / 10]),
         (''performance_critical'', [4 / 10, 6 / 10]), (''customer_facing'', [5 / 10, 5 / 10])]),
      (''product'',
        [(''customer_request'', [6 / 10, 4 / 10]),
         (''regulatory_requirement'', [15 / 100, 85 / 100]),
         (''competitive_gap'', [25 / 100, 75 / 100]),
         (''revenue_impact'', [45 / 100, 55 / 100])]),
      (''marketing'',
        [(''approved'', [8 / 10, 2 / 10]), (''published'', [7 / 10, 3 / 10]),
         (''requires_legal_review'', [2 / 10, 8 / 10]), (''a_b_test'', [3 / 10, 7 / 10])]),
      (''sales'',
        [(''executive_sponsor'', [4 / 10, 6 / 10]),
         (''competitive_deal'', [35 / 100, 65 / 100]), (''renewal'', [25 / 100, 75 / 100]),
         (''requires_discount'', [3 / 10, 7 / 10])]),
      (''operations'',
        [(''compliance_required'', [25 / 100, 75 / 100]),
         (''budget_approved'', [6 / 10, 4 / 10]),
         (''stakeholder_alignment'', [55 / 100, 45 / 100]),
         (''vendor_involved'', [35 / 100, 65 / 100])])]"

record field_value_patterns =
  text_patterns :: "string list pydict"
  number_patterns :: "number_pattern pydict pydict"
  date_patterns :: "(int \<times> int) pydict pydict"
  enum_patterns :: "string list pydict pydict"
  boolean_patterns :: "real list pydict pydict"

definition field_value_patterns_init :: field_value_patterns where
  "field_value_patterns_init =
     \<lparr>text_patterns = text_patterns_init, number_patterns = number_patterns_init,
      date_patterns = date_patterns_init, enum_patterns = enum_patterns_init,
      boolean_patterns = boolean_patterns_init\<rparr>"

subsection \<open>Resolution (\<open>_get_field_value_distribution\<close>)\<close>

datatype distribution =
    EnumOptions "string list"
  | NumberPattern number_pattern
  | DateOffsets "int \<times> int"
  | BooleanWeights "real list"
  | TextValues "string list"

definition dept_patterns_of :: "'p pydict pydict \<Rightarrow> string \<Rightarrow> 'p pydict" where
  \<comment> \<open>\<open>self.field_value_patterns.get(field_type, {}).get(department, {})\<close>\<close>
  "dept_patterns_of by_department department = dict_get (map_of by_department) department []"

definition resolve :: "'p pydict \<Rightarrow> string \<Rightarrow> 'p \<Rightarrow> 'p" where
  \<comment> \<open>the field's own entry, else the first entry whose key occurs in the field name,
      else the fallback\<close>
  "resolve dept_patterns field_name fallback =
     (case map_of dept_patterns field_name of
        Some pattern \<Rightarrow> pattern
      | None \<Rightarrow>
          (case find (\<lambda>(category, pattern). contains category field_name) dept_patterns of
             Some (category, pattern) \<Rightarrow> pattern
           | None \<Rightarrow> fallback))"

definition generic_number_pattern :: number_pattern where
  "generic_number_pattern =
     \<lparr>np_min = Some (PyInt 1), np_max = Some (PyInt 100),
      np_distribution = Some (KindName ''uniform''), np_mean = None, np_std = None\<rparr>"

definition get_field_value_distribution ::
  "field_value_patterns \<Rightarrow> string \<Rightarrow> string \<Rightarrow> string \<Rightarrow> string \<Rightarrow> distribution option" where
  "get_field_value_distribution patterns field_type name department project_type =
     (let field_name = lower name
      in if field_type = ''enum''
         then Some (EnumOptions (resolve (dept_patterns_of (enum_patterns patterns) department)
                      field_name [''High'', ''Medium'', ''Low'']))
         else if field_type = ''number''
         then Some (NumberPattern (resolve (dept_patterns_of (number_patterns patterns) department)
                      field_name generic_number_pattern))
         else if field_type = ''date''
         then Some (DateOffsets (resolve (dept_patterns_of (date_patterns patterns) department)
                      field_name (0, 30)))
         else if field_type = ''boolean''
         then Some (BooleanWeights (resolve (dept_patterns_of (boolean_patterns patterns) department)
                      field_name [5 / 10, 5 / 10]))
         else if field_type = ''text''
         then (let dept_patterns = dict_get (map_of (text_patterns patterns)) department []
               in Some (TextValues (if dept_patterns \<noteq> [] then dept_patterns
                                    else [''value1'', ''value2'', ''value3''])))
         else None)"

subsection \<open>Number values (\<open>_generate_field_value\<close>, field type \<open>number\<close>)\<close>

text \<open>
  The random source is an input: \<open>uniform_draw\<close> and \<open>choices_draw\<close> are results of
  \<open>random.random()\<close> (in \<open>[0, 1)\<close>), \<open>normal_draw\<close> and \<open>lognormal_draw\<close> are the values that
  \<open>np.random.normal\<close> and \<open>np.random.lognormal\<close> return, \<open>randint_draw\<close> is the value of
  \<open>random.randint(1, 100)\<close>.
\<close>

record number_draws =
  uniform_draw :: real
  normal_draw :: real
  lognormal_draw :: real
  choices_draw :: real
  randint_draw :: int

fun accumulate_from :: "real \<Rightarrow> real list \<Rightarrow> real list" where
  "accumulate_from acc [] = []"
| "accumulate_from acc (w # ws) = (acc + w) # accumulate_from (acc + w) ws"

function bisect_right :: "real list \<Rightarrow> real \<Rightarrow> nat \<Rightarrow> nat \<Rightarrow> nat" where
  "bisect_right a x lo hi =
     (if lo < hi
      then (let mid = (lo + hi) div 2
            in if x < a ! mid then bisect_right a x lo mid else bisect_right a x (mid + 1) hi)
      else lo)"
  by pat_completeness auto
termination
  by (relation "measure (\<lambda>(a, x, lo, hi). hi - lo)") auto

declare bisect_right.simps [simp del]

definition choices :: "'a list \<Rightarrow> real list \<Rightarrow> real \<Rightarrow> py_error + 'a" where
  \<comment> \<open>\<open>random.choices(population, weights=weights)[0]\<close>, with \<open>u\<close> the value of
      \<open>random()\<close>\<close>
  "choices population weights u =
     (let n = length population; cum_weights = accumulate_from 0 weights
      in if length cum_weights \<noteq> n then Inl ValueError
         else if cum_weights = [] then Inl IndexError
         else if last cum_weights \<le> 0 then Inl ValueError
         else Inr (population ! bisect_right cum_weights (u * last cum_weights) 0 (n - 1)))"

definition round_to :: "int \<Rightarrow> real \<Rightarrow> real" where
  \<comment> \<open>\<open>round(value, -k)\<close> for the unit \<open>10 ^ k\<close>\<close>
  "round_to unit value = real_of_int (unit * py_round (value / real_of_int unit))"

definition round_tenths :: "real \<Rightarrow> real" where
  \<comment> \<open>\<open>round(value, 1)\<close>\<close>
  "round_tenths value = real_of_int (py_round (value * 10)) / 10"

definition opt_get :: "'a option \<Rightarrow> 'a \<Rightarrow> 'a" where
  \<comment> \<open>\<open>distribution.get(key, default)\<close> on a pattern\<close>
  "opt_get entry dflt = (case entry of None \<Rightarrow> dflt | Some v \<Rightarrow> v)"

definition empty_pattern :: number_pattern where
  "empty_pattern = \<lparr>np_min = None, np_max = None, np_distribution = None, np_mean = None,
     np_std = None\<rparr>"

definition uniform_value :: "number_pattern \<Rightarrow> number_draws \<Rightarrow> real" where
  "uniform_value distribution draws =
     (let min_val = num_val (opt_get (np_min distribution) (PyInt 1));
          max_val = num_val (opt_get (np_max distribution) (PyInt 100))
      in min_val + (max_val - min_val) * uniform_draw draws)"

definition normal_value :: "number_pattern \<Rightarrow> number_draws \<Rightarrow> py_error + real" where
  "normal_value distribution draws =
     (let mean = opt_get (np_mean distribution) 50;
          std = opt_get (np_std distribution) 15;
          min_val = num_val (opt_get (np_min distribution) (PyInt 0));
          max_val = num_val (opt_get (np_max distribution) (PyInt 100))
      in if std < 0 then Inl ValueError
         else let value = max min_val (min max_val (normal_draw draws))
              in if max_val > 1000 then Inr (round_to 100 value)
                 else if max_val > 100 then Inr (round_to 10 value)
                 else Inr (round_tenths value))"

definition lognormal_value :: "number_pattern \<Rightarrow> number_draws \<Rightarrow> py_error + real" where
  "lognormal_value distribution draws =
     (let mean = opt_get (np_mean distribution) 3;
          std = opt_get (np_std distribution) 1;
          min_val = num_val (opt_get (np_min distribution) (PyInt 1));
          max_val = num_val (opt_get (np_max distribution) (PyInt 1000))
      in if std < 0 then Inl ValueError
         else let value = max min_val (min max_val (lognormal_draw draws))
              in Inr (real_of_int (py_round value)))"

definition discrete_value :: "number_pattern \<Rightarrow> real list \<Rightarrow> number_draws \<Rightarrow> py_error + real" where
  "discrete_value distribution dist_type draws =
     (case (opt_get (np_min distribution) (PyInt 1), opt_get (np_max distribution) (PyInt 10)) of
        (PyInt lo, PyInt hi) \<Rightarrow>
          (case choices [lo..hi] dist_type (choices_draw draws) of
             Inl e \<Rightarrow> Inl e
           | Inr v \<Rightarrow> Inr (real_of_int v))
      | _ \<Rightarrow> Inl TypeError)"

definition generate_number_value :: "number_pattern \<Rightarrow> number_draws \<Rightarrow> py_error + real option" where
  "generate_number_value distribution draws =
     (if distribution = empty_pattern then Inr None
      else (case opt_get (np_distribution distribution) (KindName ''uniform'') of
              KindName dist_type \<Rightarrow>
                if dist_type = ''uniform'' then Inr (Some (uniform_value distribution draws))
                else if dist_type = ''normal''
                then map_sum id Some (normal_value distribution draws)
                else if dist_type = ''lognormal''
                then map_sum id Some (lognormal_value distribution draws)
                else Inr (Some (real_of_int (randint_draw draws)))
            | KindWeights dist_type \<Rightarrow>
                map_sum id Some (discrete_value distribution dist_type draws)))"

definition generate_number_field ::
  "field_value_patterns \<Rightarrow> string \<Rightarrow> string \<Rightarrow> string \<Rightarrow> number_draws \<Rightarrow> py_error + real option" where
  "generate_number_field patterns name department project_type draws =
     (case get_field_value_distribution patterns ''number'' name department project_type of
        Some (NumberPattern distribution) \<Rightarrow> generate_number_value distribution draws
      | _ \<Rightarrow> Inr None)"

subsection \<open>Comment offsets (\<open>CommentGenerator._get_realistic_comment_timestamp\<close>, the bounded draw)\<close>

text \<open>
  The offset in hours is drawn from a normal distribution up to 10 times, until a draw lies
  within the bounds of the timing pattern; \<open>draws i\<close> is the value of the draw number \<open>i\<close>.
  When no draw is accepted, the \<open>else\<close> of the loop takes the mean.
\<close>

record timing_config =
  tc_mean :: real
  tc_std :: real
  tc_min :: real
  tc_max :: real

fun offset_attempts :: "timing_config \<Rightarrow> (nat \<Rightarrow> real) \<Rightarrow> nat \<Rightarrow> nat \<Rightarrow> real" where
  "offset_attempts timing draws i 0 = tc_mean timing"
| "offset_attempts timing draws i (Suc remaining) =
     (let offset_hours = draws i
      in if tc_min timing \<le> offset_hours \<and> offset_hours \<le> tc_max timing then offset_hours
         else offset_attempts timing draws (Suc i) remaining)"

definition draw_offset_hours :: "timing_config \<Rightarrow> (nat \<Rightarrow> real) \<Rightarrow> real" where
  "draw_offset_hours timing draws = offset_attempts timing draws 0 10"

subsection \<open>Notions used to state the properties of the number values\<close>

text \<open>
  The draw clamped into the bounds; the rounding that the \<open>normal\<close> kind applies (to
  hundreds when the maximum exceeds 1000, to tens when it exceeds 100, else to tenths); the
  bounds that lie on the grid of that rounding.
\<close>

definition rounding_unit :: "real \<Rightarrow> real" where
  "rounding_unit max_val = (if max_val > 1000 then 100 else if max_val > 100 then 10 else 1 / 10)"

definition multiple_of :: "real \<Rightarrow> real \<Rightarrow> bool" where
  "multiple_of unit x \<longleftrightarrow> x / unit = real_of_int \<lfloor>x / unit\<rfloor>"

definition round_for :: "real \<Rightarrow> real \<Rightarrow> real" where
  "round_for max_val value =
     (if max_val > 1000 then round_to 100 value
      else if max_val > 100 then round_to 10 value
      else round_tenths value)"

definition clamp :: "real \<Rightarrow> real \<Rightarrow> real \<Rightarrow> real" where
  "clamp min_val max_val value = max min_val (min max_val value)"

text \<open>
  The pattern that the table resolves for a field of a department, draws for the concrete
  evaluations, a pattern with a kind that the generator does not know, a timing pattern
  whose window excludes its mean, and a table with an entry of its own for \<open>bug_priority\<close>
  after the category \<open>priority\<close>.
\<close>

definition number_pattern_of :: "string \<Rightarrow> string \<Rightarrow> number_pattern" where
  "number_pattern_of department field_name =
     resolve (dept_patterns_of number_patterns_init department) field_name generic_number_pattern"

definition example_draws :: number_draws where
  "example_draws = \<lparr>uniform_draw = 1 / 2, normal_draw = 826 / 100, lognormal_draw = 500004 / 10,
     choices_draw = 1 / 2, randint_draw = 50\<rparr>"

definition exotic_pattern :: number_pattern where
  "exotic_pattern = \<lparr>np_min = Some (PyInt 200), np_max = Some (PyInt 300),
     np_distribution = Some (KindName ''exponential''), np_mean = None, np_std = None\<rparr>"

definition slow_timing :: timing_config where
  "slow_timing = \<lparr>tc_mean = 2, tc_std = 1, tc_min = 10, tc_max = 20\<rparr>"

definition priority_options :: "string list pydict" where
  "priority_options = [(''priority'', [''Critical'', ''High'', ''Medium'', ''Low'']),
     (''bug_priority'', [''P0'', ''P1'', ''P2''])]"

section \<open>Task lifecycle (\<open>TemporalGenerator.generate_task_lifecycle\<close>)\<close>

text \<open>
  The random source is an input. \<open>completion_u\<close> and \<open>reanchor_u\<close> are results of
  \<open>random.random()\<close>; \<open>hour_u\<close> and \<open>minute_range_u\<close> are the results of \<open>random()\<close> inside
  the two calls of \<open>random.choices\<close>; \<open>base_hours_draw\<close> and \<open>hours_until_start_draw\<close> are the
  values that \<open>np.random.lognormal\<close> returns; the other draws are the values that
  \<open>random.randint\<close> returns for the minute and the second of the completion and of the
  start.
\<close>

record lifecycle_draws =
  completion_u :: real
  base_hours_draw :: real
  reanchor_u :: real
  hour_u :: real
  minute_range_u :: real
  completion_minute :: int
  completion_second :: int
  hours_until_start_draw :: real
  start_minute :: int
  start_second :: int

record lifecycle =
  lc_created_at :: datetime
  lc_started_at :: "datetime option"
  lc_completed_at :: "datetime option"
  lc_cycle_time_days :: "real option"
  lc_lead_time_days :: "real option"

definition replace_hms :: "datetime \<Rightarrow> int \<Rightarrow> int \<Rightarrow> int \<Rightarrow> datetime" where
  \<comment> \<open>\<open>t.replace(hour=h, minute=m, second=s)\<close>: the date and the microsecond stay\<close>
  "replace_hms t h m s =
     toordinal t * DAY_US + h * HOUR_US + m * MINUTE_US + s * SECOND_US + microsecond_of t"

definition hour_weights :: "string \<Rightarrow> real list option" where
  "hour_weights = map_of
     [(''task_creation'',
        replicate 9 (1 / 100) @ replicate 4 (5 / 100) @ replicate 3 (8 / 100)
          @ replicate 3 (3 / 100) @ replicate 5 (1 / 100)),
      (''task_completion'',
        replicate 9 (1 / 100) @ replicate 4 (3 / 100) @ replicate 2 (12 / 100)
          @ replicate 3 (6 / 100) @ replicate 6 (2 / 100)),
      (''meeting_scheduling'',
        replicate 9 (1 / 100) @ replicate 2 (8 / 100) @ [15 / 100] @ replicate 2 (8 / 100)
          @ replicate 4 (5 / 100) @ replicate 6 (1 / 100)),
      (''email_activity'',
        replicate 7 (2 / 100) @ replicate 2 (8 / 100) @ replicate 2 (12 / 100)
          @ replicate 2 (6 / 100) @ replicate 3 (4 / 100) @ replicate 8 (2 / 100))]"

definition minute_weights :: "real list" where
  "minute_weights = [4 / 10, 1 / 10, 1 / 10, 1 / 10, 1 / 10, 1 / 10, 1 / 10]"

definition minute_ranges :: "(int \<times> int) list" where
  "minute_ranges = [(0, 1), (1, 15), (15, 30), (30, 45), (45, 60)]"

definition get_random_time_in_work_hours ::
  "datetime \<Rightarrow> string \<Rightarrow> lifecycle_draws \<Rightarrow> py_error + datetime" where
  "get_random_time_in_work_hours base_date activity_type draws =
     (let weights = dict_get hour_weights activity_type (the (hour_weights ''task_creation''));
          total_weight = sum_list weights;
          normalized_weights = (if total_weight > 0 then map (\<lambda>w. w / total_weight) weights
                                else replicate 24 (1 / 24))
      in then_do (choices [0..23] normalized_weights (hour_u draws)) (\<lambda>hour.
         then_do (choices [0 ..< length minute_weights] minute_weights (minute_range_u draws))
           (\<lambda>range_idx.
              if range_idx < length minute_ranges
              then Inr (toordinal base_date * DAY_US + hour * HOUR_US
                          + completion_minute draws * MINUTE_US
                          + completion_second draws * SECOND_US)
              else Inl IndexError)))"

definition completion_acceleration :: "string \<Rightarrow> real option" where
  "completion_acceleration = map_of
     [(''sprint'', 13 / 10), (''bug_tracking'', 11 / 10), (''feature_development'', 12 / 10),
      (''campaign'', 14 / 10), (''research'', 1)]"

definition dept_multipliers :: "string \<Rightarrow> real option" where
  "dept_multipliers = map_of
     [(''engineering'', 12 / 10), (''product'', 1), (''marketing'', 8 / 10), (''sales'', 6 / 10),
      (''operations'', 11 / 10)]"

definition generate_completion_timestamp ::
  "holiday_calendar \<Rightarrow> datetime \<Rightarrow> datetime option \<Rightarrow> string \<Rightarrow> string \<Rightarrow> lifecycle_draws
     \<Rightarrow> py_error + datetime" where
  "generate_completion_timestamp cal created_at due_date department project_type draws =
     (let acceleration_of_type = dict_get completion_acceleration project_type (13 / 10);
          base_hours = max 1 (min (base_hours_draw draws) 336);
          multiplier = dict_get dept_multipliers department 1;
          duration_hours = base_hours * multiplier;
          duration_hours =
            (case due_date of
               None \<Rightarrow> duration_hours
             | Some due \<Rightarrow>
                 (let days_until_due = td_days (due - created_at)
                  in if days_until_due > 0
                     then duration_hours
                            / (1 + (acceleration_of_type - 1)
                                     * (1 - min 1 (real_of_int days_until_due / 30)))
                     else duration_hours))
      in then_do (dt_add created_at (td_hours duration_hours)) (\<lambda>completion_timestamp.
         then_do
           (case due_date of
              None \<Rightarrow> Inr completion_timestamp
            | Some due \<Rightarrow>
                if completion_timestamp > due
                then then_do (dt_add created_at HOUR_US) (\<lambda>earliest.
                     then_do (dt_add due (- (3 * DAY_US))) (\<lambda>three_days_before.
                       let max_completion = due;
                           min_completion = max earliest three_days_before
                       in if min_completion < max_completion
                          then dt_add min_completion
                                 (py_round (real_of_int (max_completion - min_completion)
                                              * reanchor_u draws))
                          else Inr completion_timestamp))
                else Inr completion_timestamp)
           (\<lambda>completion_timestamp.
              if is_business_day cal (toordinal completion_timestamp)
              then get_random_time_in_work_hours completion_timestamp ''task_completion'' draws
              else Inr (replace_hms completion_timestamp
                          (min (max (hour_of completion_timestamp) 9) 20)
                          (completion_minute draws) (completion_second draws)))))"

definition start_dept_adjustments :: "string \<Rightarrow> real option" where
  "start_dept_adjustments = map_of
     [(''engineering'', 1), (''product'', 8 / 10), (''marketing'', 12 / 10), (''sales'', 7 / 10),
      (''operations'', 11 / 10)]"

definition start_project_adjustments :: "string \<Rightarrow> real option" where
  "start_project_adjustments = map_of
     [(''sprint'', 6 / 10), (''bug_tracking'', 4 / 10), (''campaign'', 15 / 10),
      (''research'', 2)]"

definition generate_started_timestamp ::
  "holiday_calendar \<Rightarrow> datetime \<Rightarrow> datetime \<Rightarrow> string \<Rightarrow> string \<Rightarrow> lifecycle_draws
     \<Rightarrow> py_error + datetime" where
  "generate_started_timestamp cal created_at completed_at department project_type draws =
     (let hours_until_start = max (5 / 10) (min (hours_until_start_draw draws) 168);
          factor = dict_get start_dept_adjustments department 1
                     * dict_get start_project_adjustments project_type 1;
          hours_until_start = hours_until_start * factor
      in then_do (dt_add created_at (td_hours hours_until_start)) (\<lambda>start_timestamp.
         then_do (dt_add completed_at (- (30 * MINUTE_US))) (\<lambda>max_start_time.
         let start_timestamp = (if start_timestamp > max_start_time then max_start_time
                                else start_timestamp)
         in then_do (dt_add created_at (5 * MINUTE_US)) (\<lambda>min_start_time.
            let start_timestamp = (if start_timestamp < min_start_time then min_start_time
                                   else start_timestamp)
            in if is_business_day cal (toordinal start_timestamp)
               then Inr (replace_hms start_timestamp
                           (min (max (hour_of start_timestamp) 9) (18 - 1))
                           (start_minute draws) (start_second draws))
               else Inr start_timestamp))))"

definition generate_task_lifecycle ::
  "holiday_calendar \<Rightarrow> datetime \<Rightarrow> datetime option \<Rightarrow> string \<Rightarrow> string \<Rightarrow> lifecycle_draws
     \<Rightarrow> py_error + lifecycle" where
  "generate_task_lifecycle cal created_at due_date department project_type draws =
     (let completion_probability =
            get_completion_probability department project_type created_at due_date
      in if completion_u draws < completion_probability
         then then_do (generate_completion_timestamp cal created_at due_date department
                         project_type draws) (\<lambda>completed_at.
              then_do (generate_started_timestamp cal created_at completed_at department
                         project_type draws) (\<lambda>started_at.
                Inr \<lparr>lc_created_at = created_at, lc_started_at = Some started_at,
                     lc_completed_at = Some completed_at,
                     lc_cycle_time_days = Some (td_total_seconds (completed_at - started_at) / 86400),
                     lc_lead_time_days = Some (td_total_seconds (completed_at - created_at) / 86400)\<rparr>))
         else Inr \<lparr>lc_created_at = created_at, lc_started_at = None, lc_completed_at = None,
                   lc_cycle_time_days = None, lc_lead_time_days = None\<rparr>)"

text \<open>
  Draws for the concrete evaluations: a task that is completed after one base hour, with
  the hour 23 chosen for the completion, the first range of minutes, and a start after one
  drawn hour.
\<close>

definition monday_evening_draws :: lifecycle_draws where
  "monday_evening_draws =
     \<lparr>completion_u = 0, base_hours_draw = 1, reanchor_u = 0, hour_u = 99 / 100,
      minute_range_u = 0, completion_minute = 0, completion_second = 0,
      hours_until_start_draw = 1, start_minute = 0, start_second = 0\<rparr>"

text \<open>
  Draws for a task created on a Saturday morning: a completion after one base hour, with
  minute and second 0 drawn for the weekend completion, and a start after one drawn hour.
\<close>

definition saturday_morning_draws :: lifecycle_draws where
  "saturday_morning_draws =
     \<lparr>completion_u = 0, base_hours_draw = 1, reanchor_u = 0, hour_u = 0,
      minute_range_u = 0, completion_minute = 0, completion_second = 0,
      hours_until_start_draw = 1, start_minute = 0, start_second = 0\<rparr>"

text \<open>
  Draws for a task with a due date: 19.35 base hours, the hour 23 chosen for the completion,
  the first range of minutes, and a start after one drawn hour, at minute 36.
\<close>

definition due_tuesday_draws :: lifecycle_draws where
  "due_tuesday_draws =
     \<lparr>completion_u = 0, base_hours_draw = 1935 / 100, reanchor_u = 0, hour_u = 99 / 100,
      minute_range_u = 0, completion_minute = 0, completion_second = 0,
      hours_until_start_draw = 1, start_minute = 36, start_second = 0\<rparr>"

section \<open>Properties\<close>

subsection \<open>Calendar facts used below\<close>

lemmas dt_defs = toordinal_def mk_datetime_def ymd2ord_def days_before_year_def
  days_before_month_def DAY_US_def HOUR_US_def MINUTE_US_def SECOND_US_def









subsection \<open>Completion probability\<close>













subsection \<open>Business calendar\<close>

lemma toordinal_shift: "toordinal (t + m * DAY_US) = toordinal t + m"
  unfolding toordinal_def DAY_US_def by simp

lemma toordinal_next: "toordinal (t + DAY_US) = toordinal t + 1"
  using toordinal_shift [of t 1] by simp

lemma toordinal_prev: "toordinal (t - DAY_US) = toordinal t - 1"
  using toordinal_shift [of t "- 1"] by simp

lemma dt_add_Inr: "dt_add t d = Inr c \<longleftrightarrow> c = t + d \<and> valid_datetime (t + d)"
  by (auto simp: dt_add_def)

lemma dt_add_Inl: "dt_add t d = Inl e \<longleftrightarrow> e = OverflowError \<and> \<not> valid_datetime (t + d)"
  by (auto simp: dt_add_def)

lemma business_days_in_empty: "hi < lo \<Longrightarrow> business_days_in cal lo hi = 0"
  by (simp add: business_days_in_def)

lemma business_days_in_first:
  "lo \<le> hi \<Longrightarrow> business_days_in cal lo hi =
     (if is_business_day cal lo then 1 else 0) + business_days_in cal (lo + 1) hi"
  by (simp add: business_days_in_def upto_rec1 [of lo hi])

lemma business_days_in_last:
  "lo \<le> hi \<Longrightarrow> business_days_in cal lo hi =
     business_days_in cal lo (hi - 1) + (if is_business_day cal hi then 1 else 0)"
  by (simp add: business_days_in_def upto_rec2 [of lo hi])

lemma offset_loop_business:
  "offset_loop cal forward t k = Inr r \<Longrightarrow> 0 < k \<Longrightarrow> is_business_day cal (toordinal r)"
proof (induction cal forward t k rule: offset_loop.induct)
  case (1 cal forward t k)
  from "1.prems" obtain c where c: "dt_add t ((if forward then 1 else - 1) * DAY_US) = Inr c"
    and r: "offset_loop cal forward c
              (if is_business_day cal (toordinal c) then k - 1 else k) = Inr r"
    by (subst (asm) offset_loop.simps) (auto split: sum.splits)
  show ?case
  proof (cases "(if is_business_day cal (toordinal c) then k - 1 else k) = 0")
    case True
    then have "is_business_day cal (toordinal c)" using "1.prems" by (auto split: if_splits)
    moreover have "r = c" using r True by (subst (asm) offset_loop.simps) simp
    ultimately show ?thesis by simp
  next
    case False
    then show ?thesis using "1.IH" [OF "1.prems"(2) c r] by simp
  qed
qed

lemma offset_loop_error: "offset_loop cal forward t k = Inl e \<Longrightarrow> e = OverflowError"
proof (induction cal forward t k rule: offset_loop.induct)
  case (1 cal forward t k)
  show ?case
  proof (cases "0 < k")
    case False
    then show ?thesis using "1.prems" by (subst (asm) offset_loop.simps) simp
  next
    case True
    show ?thesis
    proof (cases "dt_add t ((if forward then 1 else - 1) * DAY_US)")
      case (Inl e')
      then have "e' = OverflowError" by (simp add: dt_add_Inl)
      moreover have "e = e'" using "1.prems" True Inl by (subst (asm) offset_loop.simps) simp
      ultimately show ?thesis by simp
    next
      case (Inr c)
      then have "offset_loop cal forward c
              (if is_business_day cal (toordinal c) then k - 1 else k) = Inl e"
        using "1.prems" True by (subst (asm) offset_loop.simps) simp
      then show ?thesis using "1.IH" [OF True Inr] by simp
    qed
  qed
qed

lemma offset_loop_time:
  "offset_loop cal forward t k = Inr r \<Longrightarrow> r mod DAY_US = t mod DAY_US"
proof (induction cal forward t k rule: offset_loop.induct)
  case (1 cal forward t k)
  show ?case
  proof (cases "0 < k")
    case False
    then show ?thesis using "1.prems" by (subst (asm) offset_loop.simps) simp
  next
    case True
    from "1.prems" True obtain c where c: "dt_add t ((if forward then 1 else - 1) * DAY_US) = Inr c"
      and r: "offset_loop cal forward c
              (if is_business_day cal (toordinal c) then k - 1 else k) = Inr r"
      by (subst (asm) offset_loop.simps) (auto split: sum.splits)
    have "c mod DAY_US = t mod DAY_US" using c by (auto simp: dt_add_Inr)
    with "1.IH" [OF True c r] show ?thesis by simp
  qed
qed

lemma offset_loop_forward_returns:
  "0 \<le> toordinal t \<Longrightarrow> hi \<le> MAXORDINAL \<Longrightarrow> k \<le> business_days_in cal (toordinal t + 1) hi
     \<Longrightarrow> \<exists>r. offset_loop cal True t k = Inr r"
proof (induction cal True t k rule: offset_loop.induct)
  case (1 cal t k)
  show ?case
  proof (cases "0 < k")
    case False
    then show ?thesis by (subst offset_loop.simps) simp
  next
    case True
    then have le: "toordinal t + 1 \<le> hi"
      using "1.prems"(3) business_days_in_empty [of hi "toordinal t + 1" cal] by (cases "toordinal t + 1 \<le> hi") auto
    then have v: "dt_add t ((if True then 1 else - 1) * DAY_US) = Inr (t + DAY_US)"
      using "1.prems"(1,2) by (simp add: dt_add_def valid_datetime_def toordinal_next)
    have "(if is_business_day cal (toordinal (t + DAY_US)) then k - 1 else k)
            \<le> business_days_in cal (toordinal (t + DAY_US) + 1) hi"
      using "1.prems"(3) business_days_in_first [OF le, of cal] by (auto simp: toordinal_next)
    moreover have "0 \<le> toordinal (t + DAY_US)" using "1.prems"(1) by (simp add: toordinal_next)
    ultimately obtain r where "offset_loop cal True (t + DAY_US)
        (if is_business_day cal (toordinal (t + DAY_US)) then k - 1 else k) = Inr r"
      using "1.hyps" [OF True v _ "1.prems"(2)] by blast
    then show ?thesis using True v by (subst offset_loop.simps) simp
  qed
qed

lemma offset_loop_backward_returns:
  "toordinal t \<le> MAXORDINAL + 1 \<Longrightarrow> 1 \<le> lo \<Longrightarrow> k \<le> business_days_in cal lo (toordinal t - 1)
     \<Longrightarrow> \<exists>r. offset_loop cal False t k = Inr r"
proof (induction cal False t k rule: offset_loop.induct)
  case (1 cal t k)
  show ?case
  proof (cases "0 < k")
    case False
    then show ?thesis by (subst offset_loop.simps) simp
  next
    case True
    then have le: "lo \<le> toordinal t - 1"
      using "1.prems"(3) business_days_in_empty [of "toordinal t - 1" lo cal] by (cases "lo \<le> toordinal t - 1") auto
    then have v: "dt_add t ((if False then 1 else - 1) * DAY_US) = Inr (t - DAY_US)"
      using "1.prems"(1,2) by (simp add: dt_add_def valid_datetime_def toordinal_prev)
    have "(if is_business_day cal (toordinal (t - DAY_US)) then k - 1 else k)
            \<le> business_days_in cal lo (toordinal (t - DAY_US) - 1)"
      using "1.prems"(3) business_days_in_last [OF le, of cal] by (auto simp: toordinal_prev)
    moreover have "toordinal (t - DAY_US) \<le> MAXORDINAL + 1" using "1.prems"(1) by (simp add: toordinal_prev)
    ultimately obtain r where "offset_loop cal False (t - DAY_US)
        (if is_business_day cal (toordinal (t - DAY_US)) then k - 1 else k) = Inr r"
      using "1.hyps" [OF True v _ "1.prems"(2)] by blast
    then show ?thesis using True v by (subst offset_loop.simps) simp
  qed
qed


lemma business_days_in_pos:
  "is_business_day cal lo \<Longrightarrow> lo \<le> hi \<Longrightarrow> 0 < business_days_in cal lo hi"
  by (simp add: business_days_in_first)

lemma business_days_in_single:
  "business_days_in cal d d = (if is_business_day cal d then 1 else 0)"
  by (simp add: business_days_in_def)

lemma offset_loop_forward_count:
  "offset_loop cal True t k = Inr r \<Longrightarrow> 0 < k \<Longrightarrow>
     \<exists>m. r = t + int (Suc m) * DAY_US \<and> toordinal r \<le> MAXORDINAL
          \<and> business_days_in cal (toordinal t + 1) (toordinal r) = k"
proof (induction cal True t k arbitrary: r rule: offset_loop.induct)
  case (1 cal t k)
  from "1.prems" obtain c where c: "dt_add t ((if True then 1 else - 1) * DAY_US) = Inr c"
    and r: "offset_loop cal True c
              (if is_business_day cal (toordinal c) then k - 1 else k) = Inr r"
    by (subst (asm) offset_loop.simps) (auto split: sum.splits)
  have ceq: "c = t + DAY_US" and cv: "valid_datetime c" using c by (auto simp: dt_add_Inr)
  have oc: "toordinal c = toordinal t + 1" by (simp add: ceq toordinal_next)
  show ?case
  proof (cases "(if is_business_day cal (toordinal c) then k - 1 else k) = 0")
    case True
    then have b: "is_business_day cal (toordinal c)" and k1: "k = 1"
      using "1.prems" by (auto split: if_splits)
    have "r = c" using r True by (subst (asm) offset_loop.simps) simp
    then have "r = t + int (Suc 0) * DAY_US \<and> toordinal r \<le> MAXORDINAL
          \<and> business_days_in cal (toordinal t + 1) (toordinal r) = k"
      using ceq cv b k1 oc by (simp add: valid_datetime_def business_days_in_single)
    then show ?thesis by blast
  next
    case False
    then have pos: "0 < (if is_business_day cal (toordinal c) then k - 1 else k)" by simp
    from "1.hyps" [OF "1.prems"(2) c r pos]
    obtain m where m: "r = c + int (Suc m) * DAY_US" "toordinal r \<le> MAXORDINAL"
      "business_days_in cal (toordinal c + 1) (toordinal r)
        = (if is_business_day cal (toordinal c) then k - 1 else k)"
      by blast
    have le: "toordinal c \<le> toordinal r" using m(1) toordinal_shift [of c "int (Suc m)"] by simp
    have "business_days_in cal (toordinal t + 1) (toordinal r) = k"
      using business_days_in_first [OF le, of cal] m(3) "1.prems"(2) oc by (auto split: if_splits)
    moreover have "r = t + int (Suc (Suc m)) * DAY_US" using m(1) ceq by (simp add: algebra_simps)
    ultimately show ?thesis using m(2) by blast
  qed
qed

lemma offset_loop_backward_reaches:
  "is_business_day cal (toordinal t - int (Suc n)) \<Longrightarrow> 1 \<le> toordinal t - int (Suc n)
     \<Longrightarrow> toordinal t \<le> MAXORDINAL + 1
     \<Longrightarrow> business_days_in cal (toordinal t - int (Suc n)) (toordinal t - 1) = k
     \<Longrightarrow> offset_loop cal False t k = Inr (t - int (Suc n) * DAY_US)"
proof (induction n arbitrary: t k)
  case 0
  then have k: "k = 1" by (simp add: business_days_in_single)
  have v: "dt_add t ((if False then 1 else - 1) * DAY_US) = Inr (t - DAY_US)"
    using 0 by (simp add: dt_add_def valid_datetime_def toordinal_prev)
  have b: "is_business_day cal (toordinal (t - DAY_US))" using 0 by (simp add: toordinal_prev)
  have "offset_loop cal False (t - DAY_US) 0 = Inr (t - DAY_US)"
    by (subst offset_loop.simps) simp
  then show ?case using k v b by (subst offset_loop.simps) simp
next
  case (Suc n)
  let ?c = "t - DAY_US"
  have oc: "toordinal ?c = toordinal t - 1" by (simp add: toordinal_prev)
  have tgt: "toordinal ?c - int (Suc n) = toordinal t - int (Suc (Suc n))" using oc by simp
  have v: "dt_add t ((if False then 1 else - 1) * DAY_US) = Inr ?c"
    using Suc.prems by (simp add: dt_add_def valid_datetime_def toordinal_prev)
  have le: "toordinal t - int (Suc (Suc n)) \<le> toordinal t - 1" by simp
  have le': "toordinal t - int (Suc (Suc n)) \<le> toordinal ?c - 1" using oc by simp
  have inner: "0 < business_days_in cal (toordinal t - int (Suc (Suc n))) (toordinal ?c - 1)"
    using business_days_in_pos [OF Suc.prems(1) le'] .
  have split: "k = business_days_in cal (toordinal t - int (Suc (Suc n))) (toordinal ?c - 1)
                 + (if is_business_day cal (toordinal ?c) then 1 else 0)"
    using business_days_in_last [OF le, of cal] Suc.prems(4) oc by simp
  then have kpos: "0 < k" using inner by simp
  have k': "business_days_in cal (toordinal ?c - int (Suc n)) (toordinal ?c - 1)
              = (if is_business_day cal (toordinal ?c) then k - 1 else k)"
    using split unfolding tgt by simp
  have "offset_loop cal False ?c (if is_business_day cal (toordinal ?c) then k - 1 else k)
          = Inr (?c - int (Suc n) * DAY_US)"
  proof (rule Suc.IH)
    show "is_business_day cal (toordinal ?c - int (Suc n))" using Suc.prems(1) unfolding tgt .
    show "1 \<le> toordinal ?c - int (Suc n)" using Suc.prems(2) unfolding tgt .
    show "toordinal ?c \<le> MAXORDINAL + 1" using Suc.prems(3) oc by simp
    show "business_days_in cal (toordinal ?c - int (Suc n)) (toordinal ?c - 1)
            = (if is_business_day cal (toordinal ?c) then k - 1 else k)" by (rule k')
  qed
  moreover have "?c - int (Suc n) * DAY_US = t - int (Suc (Suc n)) * DAY_US"
    by (simp add: algebra_simps)
  ultimately show ?case using kpos v by (subst offset_loop.simps) simp
qed

lemma round_trip_core:
  assumes v: "valid_datetime d" and b: "is_business_day cal (toordinal d)"
    and k: "0 < k" and f: "offset_loop cal True d k = Inr r"
  shows "offset_loop cal False r k = Inr d"
proof -
  from offset_loop_forward_count [OF f k]
  obtain m where m: "r = d + int (Suc m) * DAY_US" "toordinal r \<le> MAXORDINAL"
    "business_days_in cal (toordinal d + 1) (toordinal r) = k"
    by blast
  have br: "is_business_day cal (toordinal r)" using offset_loop_business [OF f k] .
  have od: "toordinal d = toordinal r - int (Suc m)"
    using m(1) toordinal_shift [of d "int (Suc m)"] by simp
  have le: "toordinal d \<le> toordinal r" using od by simp
  have "business_days_in cal (toordinal d) (toordinal r) = Suc k"
    using business_days_in_first [OF le, of cal] b m(3) by simp
  then have cnt: "business_days_in cal (toordinal d) (toordinal r - 1) = k"
    using business_days_in_last [OF le, of cal] br by simp
  have "offset_loop cal False r k = Inr (r - int (Suc m) * DAY_US)"
  proof (rule offset_loop_backward_reaches)
    show "is_business_day cal (toordinal r - int (Suc m))" using b od by simp
    show "1 \<le> toordinal r - int (Suc m)" using v od by (simp add: valid_datetime_def)
    show "toordinal r \<le> MAXORDINAL + 1" using m(2) by simp
    show "business_days_in cal (toordinal r - int (Suc m)) (toordinal r - 1) = k"
      using cnt od by simp
  qed
  moreover have "r - int (Suc m) * DAY_US = d" using m(1) by simp
  ultimately show ?thesis by simp
qed

lemma next_business_loop_business:
  "next_business_loop cal t = Inr r \<Longrightarrow> is_business_day cal (toordinal r)"
proof (induction cal t rule: next_business_loop.induct)
  case (1 cal t)
  show ?case
  proof (cases "is_business_day cal (toordinal t)")
    case True
    then show ?thesis using "1.prems" by (subst (asm) next_business_loop.simps) simp
  next
    case False
    with "1.prems" obtain c where c: "dt_add t DAY_US = Inr c" and r: "next_business_loop cal c = Inr r"
      by (subst (asm) next_business_loop.simps) (auto split: sum.splits)
    show ?thesis using "1.IH" [OF False c r] .
  qed
qed

lemma next_business_loop_returns:
  "1 \<le> toordinal t \<Longrightarrow> hi \<le> MAXORDINAL \<Longrightarrow> 0 < business_days_in cal (toordinal t) hi
     \<Longrightarrow> \<exists>r. next_business_loop cal t = Inr r"
proof (induction cal t rule: next_business_loop.induct)
  case (1 cal t)
  show ?case
  proof (cases "is_business_day cal (toordinal t)")
    case True
    then show ?thesis by (subst next_business_loop.simps) simp
  next
    case False
    have le: "toordinal t \<le> hi"
      using "1.prems"(3) business_days_in_empty [of hi "toordinal t" cal] by (cases "toordinal t \<le> hi") auto
    have cnt: "0 < business_days_in cal (toordinal t + 1) hi"
      using "1.prems"(3) business_days_in_first [OF le, of cal] False by simp
    then have le': "toordinal t + 1 \<le> hi"
      using business_days_in_empty [of hi "toordinal t + 1" cal] by (cases "toordinal t + 1 \<le> hi") auto
    have v: "dt_add t DAY_US = Inr (t + DAY_US)"
      using "1.prems"(1,2) le' by (simp add: dt_add_def valid_datetime_def toordinal_next)
    have "\<exists>r. next_business_loop cal (t + DAY_US) = Inr r"
      using "1.IH" [OF False v _ "1.prems"(2)] "1.prems"(1) cnt by (simp add: toordinal_next)
    then show ?thesis using False v by (subst next_business_loop.simps) simp
  qed
qed

lemma previous_business_loop_business:
  "previous_business_loop cal t = Inr r \<Longrightarrow> is_business_day cal (toordinal r)"
proof (induction cal t rule: previous_business_loop.induct)
  case (1 cal t)
  show ?case
  proof (cases "is_business_day cal (toordinal t)")
    case True
    then show ?thesis using "1.prems" by (subst (asm) previous_business_loop.simps) simp
  next
    case False
    with "1.prems" obtain c where c: "dt_add t (- DAY_US) = Inr c"
      and r: "previous_business_loop cal c = Inr r"
      by (subst (asm) previous_business_loop.simps) (auto split: sum.splits)
    show ?thesis using "1.IH" [OF False c r] .
  qed
qed

lemma previous_business_loop_returns:
  "toordinal t \<le> MAXORDINAL \<Longrightarrow> 1 \<le> lo \<Longrightarrow> 0 < business_days_in cal lo (toordinal t)
     \<Longrightarrow> \<exists>r. previous_business_loop cal t = Inr r"
proof (induction cal t rule: previous_business_loop.induct)
  case (1 cal t)
  show ?case
  proof (cases "is_business_day cal (toordinal t)")
    case True
    then show ?thesis by (subst previous_business_loop.simps) simp
  next
    case False
    have le: "lo \<le> toordinal t"
      using "1.prems"(3) business_days_in_empty [of "toordinal t" lo cal] by (cases "lo \<le> toordinal t") auto
    have cnt: "0 < business_days_in cal lo (toordinal t - 1)"
      using "1.prems"(3) business_days_in_last [OF le, of cal] False by simp
    then have le': "lo \<le> toordinal t - 1"
      using business_days_in_empty [of "toordinal t - 1" lo cal] by (cases "lo \<le> toordinal t - 1") auto
    have v: "dt_add t (- DAY_US) = Inr (t - DAY_US)"
      using "1.prems"(1,2) le' by (simp add: dt_add_def valid_datetime_def toordinal_prev)
    have "\<exists>r. previous_business_loop cal (t - DAY_US) = Inr r"
      using "1.IH" [OF False v _ "1.prems"(2)] "1.prems"(1) cnt by (simp add: toordinal_prev)
    then show ?thesis using False v by (subst previous_business_loop.simps) simp
  qed
qed

lemma dt_2026_01_03_1030: "mk_datetime 2026 1 3 10 30 0 = 63903119400000000"
  by (simp add: dt_defs)
lemma dt_2026_01_05_1030: "mk_datetime 2026 1 5 10 30 0 = 63903292200000000"
  by (simp add: dt_defs)
lemma dt_2026_01_02_1030: "mk_datetime 2026 1 2 10 30 0 = 63903033000000000"
  by (simp add: dt_defs)

lemma holidays_january_2026_ordinals: "holidays_january_2026 d \<longleftrightarrow> d = 739617 \<or> d = 739635"
  by (simp add: holidays_january_2026_def ymd2ord_def days_before_year_def days_before_month_def)

lemma offset_from_saturday: "get_business_day_offset holidays_january_2026 (mk_datetime 2026 1 3 10 30 0) 1
  = Inr (mk_datetime 2026 1 5 10 30 0)"
  unfolding dt_2026_01_03_1030 dt_2026_01_05_1030
  by (simp add: get_business_day_offset_def offset_loop.simps dt_add_def valid_datetime_def
      toordinal_def is_business_day_def holidays_january_2026_ordinals DAY_US_def MAXORDINAL_def)

lemma offset_back_from_monday: "get_business_day_offset holidays_january_2026 (mk_datetime 2026 1 5 10 30 0) (- 1)
  = Inr (mk_datetime 2026 1 2 10 30 0)"
  unfolding dt_2026_01_02_1030 dt_2026_01_05_1030
  by (simp add: get_business_day_offset_def offset_loop.simps dt_add_def valid_datetime_def
      toordinal_def is_business_day_def holidays_january_2026_ordinals DAY_US_def MAXORDINAL_def)

lemma dt_9999_12_31: "mk_datetime 9999 12 31 0 0 0 = 315537897600000000"
  by (simp add: dt_defs is_leap_def)

lemma offset_from_last_day: "get_business_day_offset holidays_january_2026 (mk_datetime 9999 12 31 0 0 0) 1
  = Inl OverflowError"
  unfolding dt_9999_12_31
  by (simp add: get_business_day_offset_def offset_loop.simps dt_add_def valid_datetime_def
      toordinal_def DAY_US_def MAXORDINAL_def)

lemma valid_sat: "valid_datetime (mk_datetime 2026 1 3 10 30 0)"
  unfolding dt_2026_01_03_1030 by (simp add: valid_datetime_def toordinal_def DAY_US_def MAXORDINAL_def)

lemma valid_fri: "valid_datetime (mk_datetime 2026 1 2 10 30 0)"
  unfolding dt_2026_01_02_1030 by (simp add: valid_datetime_def toordinal_def DAY_US_def MAXORDINAL_def)

lemma ord_sat: "toordinal (mk_datetime 2026 1 3 10 30 0) = 739619"
  unfolding dt_2026_01_03_1030 by (simp add: toordinal_def DAY_US_def)

lemma ord_fri: "toordinal (mk_datetime 2026 1 2 10 30 0) = 739618"
  unfolding dt_2026_01_02_1030 by (simp add: toordinal_def DAY_US_def)

lemma get_business_day_offset_zero: "get_business_day_offset cal base 0 = Inr base"
  by (simp add: get_business_day_offset_def)

lemma get_business_day_offset_forward:
  assumes "valid_datetime base" and "0 < n" and "hi \<le> MAXORDINAL"
    and "nat n \<le> business_days_in cal (toordinal base + 1) hi"
  shows "\<exists>r. get_business_day_offset cal base n = Inr r
           \<and> is_business_day cal (toordinal r) \<and> r mod DAY_US = base mod DAY_US"
proof -
  have "0 \<le> toordinal base" using assms(1) by (simp add: valid_datetime_def)
  from offset_loop_forward_returns [OF this assms(3,4)]
  obtain r where r: "offset_loop cal True base (nat n) = Inr r" by blast
  have "0 < nat n" using assms(2) by simp
  from offset_loop_business [OF r this] offset_loop_time [OF r] r assms(2)
  show ?thesis by (simp add: get_business_day_offset_def)
qed

lemma get_business_day_offset_backward:
  assumes "valid_datetime base" and "m < 0" and "1 \<le> lo"
    and "nat (- m) \<le> business_days_in cal lo (toordinal base - 1)"
  shows "\<exists>r. get_business_day_offset cal base m = Inr r
           \<and> is_business_day cal (toordinal r) \<and> r mod DAY_US = base mod DAY_US"
proof -
  have "toordinal base \<le> MAXORDINAL + 1" using assms(1) by (simp add: valid_datetime_def)
  from offset_loop_backward_returns [OF this assms(3,4)]
  obtain r where r: "offset_loop cal False base (nat (- m)) = Inr r" by blast
  have "0 < nat (- m)" using assms(2) by simp
  from offset_loop_business [OF r this] offset_loop_time [OF r] r assms(2)
  show ?thesis by (simp add: get_business_day_offset_def)
qed

lemma get_next_business_day_returns:
  assumes "valid_datetime base" and "hi \<le> MAXORDINAL"
    and "0 < business_days_in cal (toordinal base + 1) hi"
  shows "\<exists>r. get_next_business_day cal base = Inr r \<and> is_business_day cal (toordinal r)"
proof -
  have le: "toordinal base + 1 \<le> hi"
    using assms(3) business_days_in_empty [of hi "toordinal base + 1" cal]
    by (cases "toordinal base + 1 \<le> hi") auto
  have v: "dt_add base DAY_US = Inr (base + DAY_US)"
    using assms(1,2) le by (simp add: dt_add_def valid_datetime_def toordinal_next)
  have "1 \<le> toordinal (base + DAY_US)" using assms(1) by (simp add: valid_datetime_def toordinal_next)
  from next_business_loop_returns [OF this assms(2)] assms(3)
  obtain r where r: "next_business_loop cal (base + DAY_US) = Inr r"
    by (auto simp: toordinal_next)
  from next_business_loop_business [OF r] r v show ?thesis
    by (simp add: get_next_business_day_def)
qed

lemma get_previous_business_day_returns:
  assumes "valid_datetime base" and "1 \<le> lo"
    and "0 < business_days_in cal lo (toordinal base - 1)"
  shows "\<exists>r. get_previous_business_day cal base = Inr r \<and> is_business_day cal (toordinal r)"
proof -
  have le: "lo \<le> toordinal base - 1"
    using assms(3) business_days_in_empty [of "toordinal base - 1" lo cal]
    by (cases "lo \<le> toordinal base - 1") auto
  have v: "dt_add base (- DAY_US) = Inr (base - DAY_US)"
    using assms(1,2) le by (simp add: dt_add_def valid_datetime_def toordinal_prev)
  have "toordinal (base - DAY_US) \<le> MAXORDINAL"
    using assms(1) by (simp add: valid_datetime_def toordinal_prev)
  from previous_business_loop_returns [OF this assms(2)] assms(3)
  obtain r where r: "previous_business_loop cal (base - DAY_US) = Inr r"
    by (auto simp: toordinal_prev)
  from previous_business_loop_business [OF r] r v show ?thesis
    by (simp add: get_previous_business_day_def)
qed

lemma business_days_in_mono_hi:
  "hi \<le> hi' \<Longrightarrow> business_days_in cal lo hi \<le> business_days_in cal lo hi'"
proof (cases "lo \<le> hi")
  case False
  then show ?thesis by (simp add: business_days_in_def)
next
  case True
  assume "hi \<le> hi'"
  then have "[lo..hi'] = [lo..hi] @ [hi + 1..hi']" by (rule upto_split2 [OF True])
  then show ?thesis by (simp add: business_days_in_def)
qed

lemma business_days_in_mono_lo:
  "lo' \<le> lo \<Longrightarrow> business_days_in cal lo hi \<le> business_days_in cal lo' hi"
proof (cases "lo \<le> hi")
  case False
  then show ?thesis by (simp add: business_days_in_def)
next
  case True
  assume l: "lo' \<le> lo"
  show ?thesis
  proof (cases "lo' = lo")
    case True
    then show ?thesis by simp
  next
    case False
    then have "lo' \<le> lo - 1" using l by simp
    then have "[lo'..hi] = [lo'..lo - 1] @ [lo - 1 + 1..hi]" using True
      by (intro upto_split2) simp_all
    then show ?thesis by (simp add: business_days_in_def)
  qed
qed

lemma offset_loop_forward_raises:
  "business_days_in cal (toordinal t + 1) MAXORDINAL < k
     \<Longrightarrow> offset_loop cal True t k = Inl OverflowError"
proof (induction cal True t k rule: offset_loop.induct)
  case (1 cal t k)
  have pos: "0 < k" using "1.prems" by simp
  show ?case
  proof (cases "dt_add t ((if True then 1 else - 1) * DAY_US)")
    case (Inl e)
    then have "e = OverflowError" by (simp add: dt_add_Inl)
    then show ?thesis using pos Inl by (subst offset_loop.simps) simp
  next
    case (Inr c)
    then have ceq: "c = t + DAY_US" and cv: "valid_datetime c" by (auto simp: dt_add_Inr)
    have oc: "toordinal c = toordinal t + 1" by (simp add: ceq toordinal_next)
    have le: "toordinal t + 1 \<le> MAXORDINAL" using cv oc by (simp add: valid_datetime_def)
    have "business_days_in cal (toordinal c + 1) MAXORDINAL
            < (if is_business_day cal (toordinal c) then k - 1 else k)"
      using "1.prems" business_days_in_first [OF le, of cal] oc by (auto split: if_splits)
    then have "offset_loop cal True c (if is_business_day cal (toordinal c) then k - 1 else k)
                 = Inl OverflowError"
      by (rule "1.hyps" [OF pos Inr])
    then show ?thesis using pos Inr by (subst offset_loop.simps) simp
  qed
qed

lemma offset_loop_backward_raises:
  "business_days_in cal 1 (toordinal t - 1) < k
     \<Longrightarrow> offset_loop cal False t k = Inl OverflowError"
proof (induction cal False t k rule: offset_loop.induct)
  case (1 cal t k)
  have pos: "0 < k" using "1.prems" by simp
  show ?case
  proof (cases "dt_add t ((if False then 1 else - 1) * DAY_US)")
    case (Inl e)
    then have "e = OverflowError" by (simp add: dt_add_Inl)
    then show ?thesis using pos Inl by (subst offset_loop.simps) simp
  next
    case (Inr c)
    then have ceq: "c = t - DAY_US" and cv: "valid_datetime c" by (auto simp: dt_add_Inr)
    have oc: "toordinal c = toordinal t - 1" by (simp add: ceq toordinal_prev)
    have le: "1 \<le> toordinal t - 1" using cv oc by (simp add: valid_datetime_def)
    have "business_days_in cal 1 (toordinal c - 1)
            < (if is_business_day cal (toordinal c) then k - 1 else k)"
      using "1.prems" business_days_in_last [OF le, of cal] oc by (auto split: if_splits)
    then have "offset_loop cal False c (if is_business_day cal (toordinal c) then k - 1 else k)
                 = Inl OverflowError"
      by (rule "1.hyps" [OF pos Inr])
    then show ?thesis using pos Inr by (subst offset_loop.simps) simp
  qed
qed

lemma next_business_loop_raises:
  "toordinal t \<le> MAXORDINAL \<Longrightarrow> business_days_in cal (toordinal t) MAXORDINAL = 0
     \<Longrightarrow> next_business_loop cal t = Inl OverflowError"
proof (induction cal t rule: next_business_loop.induct)
  case (1 cal t)
  have nb: "\<not> is_business_day cal (toordinal t)"
    using business_days_in_pos [of cal "toordinal t" MAXORDINAL] "1.prems" by auto
  have rest: "business_days_in cal (toordinal t + 1) MAXORDINAL = 0"
    using business_days_in_first [OF "1.prems"(1), of cal] "1.prems"(2) by simp
  show ?case
  proof (cases "dt_add t DAY_US")
    case (Inl e)
    then have "e = OverflowError" by (simp add: dt_add_Inl)
    then show ?thesis using nb Inl by (subst next_business_loop.simps) simp
  next
    case (Inr c)
    then have ceq: "c = t + DAY_US" and cv: "valid_datetime c" by (auto simp: dt_add_Inr)
    have oc: "toordinal c = toordinal t + 1" by (simp add: ceq toordinal_next)
    have "next_business_loop cal c = Inl OverflowError"
      using "1.IH" [OF nb Inr] cv rest oc by (simp add: valid_datetime_def)
    then show ?thesis using nb Inr by (subst next_business_loop.simps) simp
  qed
qed

lemma previous_business_loop_raises:
  "1 \<le> toordinal t \<Longrightarrow> business_days_in cal 1 (toordinal t) = 0
     \<Longrightarrow> previous_business_loop cal t = Inl OverflowError"
proof (induction cal t rule: previous_business_loop.induct)
  case (1 cal t)
  have nb: "\<not> is_business_day cal (toordinal t)"
    using business_days_in_last [OF "1.prems"(1), of cal] "1.prems"(2) by (auto split: if_splits)
  have rest: "business_days_in cal 1 (toordinal t - 1) = 0"
    using business_days_in_last [OF "1.prems"(1), of cal] "1.prems"(2) by simp
  show ?case
  proof (cases "dt_add t (- DAY_US)")
    case (Inl e)
    then have "e = OverflowError" by (simp add: dt_add_Inl)
    then show ?thesis using nb Inl by (subst previous_business_loop.simps) simp
  next
    case (Inr c)
    then have ceq: "c = t - DAY_US" and cv: "valid_datetime c" by (auto simp: dt_add_Inr)
    have oc: "toordinal c = toordinal t - 1" by (simp add: ceq toordinal_prev)
    have "previous_business_loop cal c = Inl OverflowError"
      using "1.IH" [OF nb Inr] cv rest oc by (simp add: valid_datetime_def)
    then show ?thesis using nb Inr by (subst previous_business_loop.simps) simp
  qed
qed

lemma get_business_day_offset_forward_raises:
  assumes "0 < n" and "\<not> nat n \<le> business_days_in cal (toordinal base + 1) MAXORDINAL"
  shows "get_business_day_offset cal base n = Inl OverflowError"
  using assms offset_loop_forward_raises [of cal base "nat n"]
  by (simp add: get_business_day_offset_def)

lemma get_business_day_offset_backward_raises:
  assumes "m < 0" and "\<not> nat (- m) \<le> business_days_in cal 1 (toordinal base - 1)"
  shows "get_business_day_offset cal base m = Inl OverflowError"
  using assms offset_loop_backward_raises [of cal base "nat (- m)"]
  by (simp add: get_business_day_offset_def)

lemma get_next_business_day_raises:
  assumes "\<not> 0 < business_days_in cal (toordinal base + 1) MAXORDINAL"
  shows "get_next_business_day cal base = Inl OverflowError"
proof (cases "dt_add base DAY_US")
  case (Inl e)
  then have "e = OverflowError" by (simp add: dt_add_Inl)
  then show ?thesis using Inl by (simp add: get_next_business_day_def)
next
  case (Inr c)
  then have ceq: "c = base + DAY_US" and cv: "valid_datetime c" by (auto simp: dt_add_Inr)
  have "next_business_loop cal c = Inl OverflowError"
    using next_business_loop_raises [of c cal] cv assms
    by (simp add: ceq toordinal_next valid_datetime_def)
  then show ?thesis using Inr by (simp add: get_next_business_day_def)
qed

lemma get_previous_business_day_raises:
  assumes "\<not> 0 < business_days_in cal 1 (toordinal base - 1)"
  shows "get_previous_business_day cal base = Inl OverflowError"
proof (cases "dt_add base (- DAY_US)")
  case (Inl e)
  then have "e = OverflowError" by (simp add: dt_add_Inl)
  then show ?thesis using Inl by (simp add: get_previous_business_day_def)
next
  case (Inr c)
  then have ceq: "c = base - DAY_US" and cv: "valid_datetime c" by (auto simp: dt_add_Inr)
  have "previous_business_loop cal c = Inl OverflowError"
    using previous_business_loop_raises [of c cal] cv assms
    by (simp add: ceq toordinal_prev valid_datetime_def)
  then show ?thesis using Inr by (simp add: get_previous_business_day_def)
qed

lemma count_after_sat: "business_days_in holidays_january_2026 (739619 + 1) 739621 = 1"
  by (simp add: business_days_in_def is_business_day_def holidays_january_2026_ordinals upto_rec1)

lemma count_before_sat: "business_days_in holidays_january_2026 739618 (739619 - 1) = 1"
  by (simp add: business_days_in_def is_business_day_def holidays_january_2026_ordinals upto_rec1)

text \<open>
  Claim C10, as amended. An offset of 0 returns the base unchanged, business day or not. For
  an offset \<open>n > 0\<close>: if at least \<open>n\<close> business days lie after the day of the base in the
  representable range (up to 9999-12-31), the function returns a datetime whose date is a
  business day, at the time of day of the base, also when the base itself is a weekend day or
  a holiday; otherwise it raises \<open>OverflowError\<close>. For \<open>m < 0\<close> the same holds with the
  business days before the day of the base (down to 0001-01-01). \<open>get_next_business_day\<close>
  returns a business day if one lies after the day of the base in the range and raises
  \<open>OverflowError\<close> otherwise; \<open>get_previous_business_day\<close> likewise with the days before.
\<close>

theorem business_day_offset_returns_or_raises:
  "valid_datetime base \<Longrightarrow>
     get_business_day_offset cal base 0 = Inr base
     \<and> (0 < n \<longrightarrow>
          (if nat n \<le> business_days_in cal (toordinal base + 1) MAXORDINAL
           then \<exists>r. get_business_day_offset cal base n = Inr r
                   \<and> is_business_day cal (toordinal r) \<and> r mod DAY_US = base mod DAY_US
           else get_business_day_offset cal base n = Inl OverflowError))
     \<and> (m < 0 \<longrightarrow>
          (if nat (- m) \<le> business_days_in cal 1 (toordinal base - 1)
           then \<exists>r. get_business_day_offset cal base m = Inr r
                   \<and> is_business_day cal (toordinal r) \<and> r mod DAY_US = base mod DAY_US
           else get_business_day_offset cal base m = Inl OverflowError))
     \<and> (if 0 < business_days_in cal (toordinal base + 1) MAXORDINAL
         then \<exists>r. get_next_business_day cal base = Inr r \<and> is_business_day cal (toordinal r)
         else get_next_business_day cal base = Inl OverflowError)
     \<and> (if 0 < business_days_in cal 1 (toordinal base - 1)
         then \<exists>r. get_previous_business_day cal base = Inr r \<and> is_business_day cal (toordinal r)
         else get_previous_business_day cal base = Inl OverflowError)"
proof -
  assume v: "valid_datetime base"
  have one: "(1 :: int) \<le> 1" and mx: "MAXORDINAL \<le> MAXORDINAL" by simp_all
  show ?thesis
    using get_business_day_offset_zero [of cal base]
      get_business_day_offset_forward [OF v _ mx, of n cal]
      get_business_day_offset_forward_raises [of n cal base]
      get_business_day_offset_backward [OF v _ one, of m cal]
      get_business_day_offset_backward_raises [of m cal base]
      get_next_business_day_returns [OF v mx, of cal]
      get_next_business_day_raises [of cal base]
      get_previous_business_day_returns [OF v one, of cal]
      get_previous_business_day_raises [of cal base]
    by (simp split: if_splits)
qed


lemma count_after_sat_in_range:
  "nat 1 \<le> business_days_in holidays_january_2026
              (toordinal (mk_datetime 2026 1 3 10 30 0) + 1) MAXORDINAL"
proof -
  have "739621 \<le> MAXORDINAL" by (simp add: MAXORDINAL_def)
  from business_days_in_mono_hi [OF this, of holidays_january_2026 "739619 + 1"]
  show ?thesis unfolding ord_sat count_after_sat by simp
qed

lemma count_before_sat_in_range:
  "nat (- (- 1)) \<le> business_days_in holidays_january_2026 1
              (toordinal (mk_datetime 2026 1 3 10 30 0) - 1)"
proof -
  have "(1 :: int) \<le> 739618" by simp
  from business_days_in_mono_lo [OF this, of holidays_january_2026 "739619 - 1"]
  show ?thesis unfolding ord_sat count_before_sat by simp
qed

lemma valid_last_day: "valid_datetime (mk_datetime 9999 12 31 0 0 0)"
  unfolding dt_9999_12_31 by (simp add: valid_datetime_def toordinal_def DAY_US_def MAXORDINAL_def)

lemma count_after_last_day:
  "business_days_in holidays_january_2026 (toordinal (mk_datetime 9999 12 31 0 0 0) + 1) MAXORDINAL
     = 0"
  unfolding dt_9999_12_31
  by (simp add: business_days_in_def toordinal_def DAY_US_def MAXORDINAL_def)

lemma dt_0001_01_01: "mk_datetime 1 1 1 0 0 0 = 86400000000"
  by (simp add: dt_defs is_leap_def)

lemma valid_first_day: "valid_datetime (mk_datetime 1 1 1 0 0 0)"
  unfolding dt_0001_01_01 by (simp add: valid_datetime_def toordinal_def DAY_US_def MAXORDINAL_def)

lemma count_before_first_day:
  "business_days_in holidays_january_2026 1 (toordinal (mk_datetime 1 1 1 0 0 0) - 1) = 0"
  unfolding dt_0001_01_01
  by (simp add: business_days_in_def toordinal_def DAY_US_def)

theorem business_day_offset_witness:
  "valid_datetime (mk_datetime 2026 1 3 10 30 0)
   \<and> \<not> is_business_day holidays_january_2026 (toordinal (mk_datetime 2026 1 3 10 30 0))
   \<and> (0 :: int) < 1
   \<and> nat 1 \<le> business_days_in holidays_january_2026
                 (toordinal (mk_datetime 2026 1 3 10 30 0) + 1) MAXORDINAL
   \<and> (- 1 :: int) < 0
   \<and> nat (- (- 1)) \<le> business_days_in holidays_january_2026 1
                 (toordinal (mk_datetime 2026 1 3 10 30 0) - 1)
   \<and> (\<exists>r. get_business_day_offset holidays_january_2026 (mk_datetime 2026 1 3 10 30 0) 1 = Inr r
          \<and> is_business_day holidays_january_2026 (toordinal r)
          \<and> r mod DAY_US = mk_datetime 2026 1 3 10 30 0 mod DAY_US)
   \<and> (\<exists>r. get_business_day_offset holidays_january_2026 (mk_datetime 2026 1 3 10 30 0) (- 1) = Inr r
          \<and> is_business_day holidays_january_2026 (toordinal r)
          \<and> r mod DAY_US = mk_datetime 2026 1 3 10 30 0 mod DAY_US)
   \<and> (\<exists>r. get_next_business_day holidays_january_2026 (mk_datetime 2026 1 3 10 30 0) = Inr r
          \<and> is_business_day holidays_january_2026 (toordinal r))
   \<and> (\<exists>r. get_previous_business_day holidays_january_2026 (mk_datetime 2026 1 3 10 30 0) = Inr r
          \<and> is_business_day holidays_january_2026 (toordinal r))
   \<and> get_business_day_offset holidays_january_2026 (mk_datetime 2026 1 3 10 30 0) 0
        = Inr (mk_datetime 2026 1 3 10 30 0)
   \<and> valid_datetime (mk_datetime 9999 12 31 0 0 0)
   \<and> business_days_in holidays_january_2026
        (toordinal (mk_datetime 9999 12 31 0 0 0) + 1) MAXORDINAL = 0
   \<and> get_business_day_offset holidays_january_2026 (mk_datetime 9999 12 31 0 0 0) 1
        = Inl OverflowError
   \<and> get_next_business_day holidays_january_2026 (mk_datetime 9999 12 31 0 0 0)
        = Inl OverflowError
   \<and> valid_datetime (mk_datetime 1 1 1 0 0 0)
   \<and> business_days_in holidays_january_2026 1
        (toordinal (mk_datetime 1 1 1 0 0 0) - 1) = 0
   \<and> get_business_day_offset holidays_january_2026 (mk_datetime 1 1 1 0 0 0) (- 1)
        = Inl OverflowError
   \<and> get_previous_business_day holidays_january_2026 (mk_datetime 1 1 1 0 0 0)
        = Inl OverflowError"
proof -
  have nb: "\<not> is_business_day holidays_january_2026 (toordinal (mk_datetime 2026 1 3 10 30 0))"
    unfolding ord_sat by (simp add: is_business_day_def)
  have p1: "(0 :: int) < 1" and m1: "(- 1 :: int) < 0" by simp_all
  have after_pos: "0 < business_days_in holidays_january_2026
                 (toordinal (mk_datetime 2026 1 3 10 30 0) + 1) MAXORDINAL"
    using count_after_sat_in_range by simp
  have before_pos: "0 < business_days_in holidays_january_2026 1
                 (toordinal (mk_datetime 2026 1 3 10 30 0) - 1)"
    using count_before_sat_in_range by simp
  note sat = business_day_offset_returns_or_raises
         [OF valid_sat, where cal = holidays_january_2026 and n = 1 and m = "- 1"]
  have s0: "get_business_day_offset holidays_january_2026 (mk_datetime 2026 1 3 10 30 0) 0
        = Inr (mk_datetime 2026 1 3 10 30 0)"
    using sat by (rule conjunct1)
  have s1: "\<exists>r. get_business_day_offset holidays_january_2026 (mk_datetime 2026 1 3 10 30 0) 1 = Inr r
          \<and> is_business_day holidays_january_2026 (toordinal r)
          \<and> r mod DAY_US = mk_datetime 2026 1 3 10 30 0 mod DAY_US"
    using sat [THEN conjunct2, THEN conjunct1] p1 count_after_sat_in_range
    by (simp only: if_True simp_thms)
  have s2: "\<exists>r. get_business_day_offset holidays_january_2026 (mk_datetime 2026 1 3 10 30 0) (- 1) = Inr r
          \<and> is_business_day holidays_january_2026 (toordinal r)
          \<and> r mod DAY_US = mk_datetime 2026 1 3 10 30 0 mod DAY_US"
    using sat [THEN conjunct2, THEN conjunct2, THEN conjunct1] m1 count_before_sat_in_range
    by (simp only: if_True simp_thms)
  have s3: "\<exists>r. get_next_business_day holidays_january_2026 (mk_datetime 2026 1 3 10 30 0) = Inr r
          \<and> is_business_day holidays_january_2026 (toordinal r)"
    using sat [THEN conjunct2, THEN conjunct2, THEN conjunct2, THEN conjunct1] after_pos
    by (simp only: if_True simp_thms)
  have s4: "\<exists>r. get_previous_business_day holidays_january_2026 (mk_datetime 2026 1 3 10 30 0) = Inr r
          \<and> is_business_day holidays_january_2026 (toordinal r)"
    using sat [THEN conjunct2, THEN conjunct2, THEN conjunct2, THEN conjunct2] before_pos
    by (simp only: if_True simp_thms)
  note last = business_day_offset_returns_or_raises
         [OF valid_last_day, where cal = holidays_january_2026 and n = 1 and m = "- 1"]
  have l1: "get_business_day_offset holidays_january_2026 (mk_datetime 9999 12 31 0 0 0) 1
        = Inl OverflowError"
    using last [THEN conjunct2, THEN conjunct1] unfolding count_after_last_day by simp
  have l2: "get_next_business_day holidays_january_2026 (mk_datetime 9999 12 31 0 0 0)
        = Inl OverflowError"
    using last [THEN conjunct2, THEN conjunct2, THEN conjunct2, THEN conjunct1]
    unfolding count_after_last_day by simp
  note first = business_day_offset_returns_or_raises
         [OF valid_first_day, where cal = holidays_january_2026 and n = 1 and m = "- 1"]
  have f1: "get_business_day_offset holidays_january_2026 (mk_datetime 1 1 1 0 0 0) (- 1)
        = Inl OverflowError"
    using first [THEN conjunct2, THEN conjunct2, THEN conjunct1]
    unfolding count_before_first_day by simp
  have f2: "get_previous_business_day holidays_january_2026 (mk_datetime 1 1 1 0 0 0)
        = Inl OverflowError"
    using first [THEN conjunct2, THEN conjunct2, THEN conjunct2, THEN conjunct2]
    unfolding count_before_first_day by simp
  from valid_sat nb p1 count_after_sat_in_range m1 count_before_sat_in_range s1 s2 s3 s4 s0
    valid_last_day count_after_last_day l1 l2 valid_first_day count_before_first_day f1 f2
  show ?thesis by (intro conjI) (simp_all only: simp_thms)
qed

text \<open>
  The claim as stated, for every base: from 9999-12-31, the last representable day, the
  first step raises \<open>OverflowError\<close> and no business day is returned.
\<close>

theorem business_day_offset_counterexample:
  "valid_datetime (mk_datetime 9999 12 31 0 0 0)
   \<and> get_business_day_offset holidays_january_2026 (mk_datetime 9999 12 31 0 0 0) 1
        = Inl OverflowError"
  using offset_from_last_day unfolding dt_9999_12_31
  by (simp add: valid_datetime_def toordinal_def DAY_US_def MAXORDINAL_def)

text \<open>
  Claim C6, as amended. For every datetime \<open>d\<close> and \<open>n \<ge> 0\<close> such that \<open>n = 0\<close> or \<open>d\<close>
  is itself a business day, and such that \<open>n\<close> business days remain after \<open>d\<close> in the
  representable range, the offset by \<open>n\<close> returns some \<open>r\<close>, and the offset of \<open>r\<close> by
  \<open>-n\<close> returns \<open>d\<close>.
\<close>

theorem business_day_round_trip:
  "valid_datetime d \<Longrightarrow> 0 \<le> n \<Longrightarrow> n = 0 \<or> is_business_day cal (toordinal d)
     \<Longrightarrow> hi \<le> MAXORDINAL \<Longrightarrow> nat n \<le> business_days_in cal (toordinal d + 1) hi
     \<Longrightarrow> \<exists>r. get_business_day_offset cal d n = Inr r
            \<and> get_business_day_offset cal r (- n) = Inr d"
proof (cases "n = 0")
  case True
  then show ?thesis by (simp add: get_business_day_offset_def)
next
  case False
  assume v: "valid_datetime d" and n: "0 \<le> n" and b: "n = 0 \<or> is_business_day cal (toordinal d)"
    and hi: "hi \<le> MAXORDINAL" and c: "nat n \<le> business_days_in cal (toordinal d + 1) hi"
  have pos: "0 < nat n" using n False by simp
  have "0 \<le> toordinal d" using v by (simp add: valid_datetime_def)
  from offset_loop_forward_returns [OF this hi c]
  obtain r where r: "offset_loop cal True d (nat n) = Inr r" by blast
  have bd: "is_business_day cal (toordinal d)" using b False by simp
  have "offset_loop cal False r (nat n) = Inr d" using round_trip_core [OF v bd pos r] .
  then show ?thesis using r n False by (simp add: get_business_day_offset_def)
qed

lemma count_after_fri: "business_days_in holidays_january_2026 (739618 + 1) 739622 = 2"
  by (simp add: business_days_in_def is_business_day_def holidays_january_2026_ordinals upto_rec1)

theorem business_day_round_trip_witness:
  "valid_datetime (mk_datetime 2026 1 2 10 30 0) \<and> (0 :: int) \<le> 2
   \<and> is_business_day holidays_january_2026 (toordinal (mk_datetime 2026 1 2 10 30 0))
   \<and> 739622 \<le> MAXORDINAL
   \<and> nat 2 \<le> business_days_in holidays_january_2026
                 (toordinal (mk_datetime 2026 1 2 10 30 0) + 1) 739622
   \<and> (\<exists>r. get_business_day_offset holidays_january_2026 (mk_datetime 2026 1 2 10 30 0) 2 = Inr r
          \<and> get_business_day_offset holidays_january_2026 r (- 2)
               = Inr (mk_datetime 2026 1 2 10 30 0))"
proof -
  have b: "is_business_day holidays_january_2026 (toordinal (mk_datetime 2026 1 2 10 30 0))"
    unfolding ord_fri by (simp add: is_business_day_def holidays_january_2026_ordinals)
  have hi: "739622 \<le> MAXORDINAL" by (simp add: MAXORDINAL_def)
  have c: "nat 2 \<le> business_days_in holidays_january_2026
                 (toordinal (mk_datetime 2026 1 2 10 30 0) + 1) 739622"
    unfolding ord_fri count_after_fri by simp
  have n: "(0 :: int) \<le> 2" by simp
  from business_day_round_trip [OF valid_fri n disjI2 [OF b] hi c] valid_fri b hi c
  show ?thesis by simp
qed

text \<open>
  The claim as stated, for every \<open>d\<close>: from Saturday 2026-01-03 one business day forward
  is Monday 2026-01-05, and one business day back from there is Friday 2026-01-02, not the
  Saturday; neither boundary day is a holiday.
\<close>

theorem business_day_round_trip_counterexample:
  "valid_datetime (mk_datetime 2026 1 3 10 30 0)
   \<and> \<not> holidays_january_2026 (toordinal (mk_datetime 2026 1 5 10 30 0))
   \<and> \<not> holidays_january_2026 (toordinal (mk_datetime 2026 1 2 10 30 0))
   \<and> get_business_day_offset holidays_january_2026 (mk_datetime 2026 1 3 10 30 0) 1
        = Inr (mk_datetime 2026 1 5 10 30 0)
   \<and> get_business_day_offset holidays_january_2026 (mk_datetime 2026 1 5 10 30 0) (- 1)
        = Inr (mk_datetime 2026 1 2 10 30 0)
   \<and> mk_datetime 2026 1 2 10 30 0 \<noteq> mk_datetime 2026 1 3 10 30 0"
proof -
  have "\<not> holidays_january_2026 (toordinal (mk_datetime 2026 1 5 10 30 0))"
    unfolding dt_2026_01_05_1030 by (simp add: holidays_january_2026_ordinals toordinal_def DAY_US_def)
  moreover have "\<not> holidays_january_2026 (toordinal (mk_datetime 2026 1 2 10 30 0))"
    unfolding ord_fri by (simp add: holidays_january_2026_ordinals)
  moreover have "mk_datetime 2026 1 2 10 30 0 \<noteq> mk_datetime 2026 1 3 10 30 0"
    unfolding dt_2026_01_02_1030 dt_2026_01_03_1030 by simp
  ultimately show ?thesis using valid_sat offset_from_saturday offset_back_from_monday by blast
qed

subsection \<open>KL divergence and distribution validation\<close>

lemma smoothed_pos:
  "list_all (\<lambda>(b, v). 0 \<le> v) d \<Longrightarrow> 0 < smoothed d bucket"
proof -
  assume a: "list_all (\<lambda>(b, v). 0 \<le> v) d"
  show ?thesis
  proof (cases "map_of d bucket")
    case None
    then show ?thesis by (simp add: smoothed_def dict_get_def epsilon_def)
  next
    case (Some v)
    then have "(bucket, v) \<in> set d" by (rule map_of_SomeD)
    then have "0 \<le> v" using a by (auto simp: list_all_iff)
    then show ?thesis using Some by (simp add: smoothed_def dict_get_def epsilon_def)
  qed
qed

lemma sum_list_map_pos:
  fixes f :: "'a \<Rightarrow> real"
  shows "xs \<noteq> [] \<Longrightarrow> (\<And>x. 0 < f x) \<Longrightarrow> 0 < sum_list (map f xs)"
proof (induction xs)
  case Nil
  then show ?case by simp
next
  case (Cons x xs)
  have "0 \<le> sum_list (map f xs)"
    by (rule sum_list_nonneg) (auto simp: less_imp_le Cons.prems(2))
  moreover have "0 < f x" by (rule Cons.prems(2))
  ultimately show ?case by simp
qed

lemma kl_identical:
  assumes eq: "map_of d1 = map_of d2" and nn: "list_all (\<lambda>(b, v). 0 \<le> v) d2"
  shows "calculate_kl_divergence d1 d2 = Inr 0"
proof -
  have sm: "smoothed d1 = smoothed d2" by (rule ext) (simp add: smoothed_def eq)
  have pos: "0 < smoothed d2 b" for b using smoothed_pos [OF nn] .
  let ?bs = "all_buckets d1 d2"
  let ?s = "sum_list (map (smoothed d2) ?bs)"
  have spos: "?bs \<noteq> [] \<Longrightarrow> 0 < ?s" using sum_list_map_pos [of ?bs "smoothed d2"] pos by simp
  have q: "b \<in> set ?bs \<Longrightarrow> smoothed d2 b / ?s \<noteq> 0" for b
  proof -
    assume "b \<in> set ?bs"
    then have "?bs \<noteq> []" by auto
    then show ?thesis using spos pos [of b] by simp
  qed
  have ne: "smoothed d2 b \<noteq> 0" for b using pos [of b] by simp
  show ?thesis
    unfolding calculate_kl_divergence_def Let_def sm
    using spos q by (auto simp: ne)
qed


lemma benchmark_nonneg: "list_all (\<lambda>(b, v). 0 \<le> v) (benchmark_for proj_type)"
  by (simp add: benchmark_for_def sprint_tasks_def campaign_tasks_def)

lemma benchmark_nonempty: "benchmark_for proj_type \<noteq> []"
  by (simp add: benchmark_for_def sprint_tasks_def campaign_tasks_def)

text \<open>
  Claim C7. If the observed and the benchmark distribution are identical as dictionaries
  (the same buckets with the same probabilities, none negative), the KL divergence after
  smoothing by \<open>1e-10\<close> and normalising is 0; hence, for a threshold that is not negative,
  a segment whose observed distribution equals its benchmark gets the status \<open>success\<close>.
\<close>

theorem kl_divergence_identical_distributions:
  "(map_of dist1 = map_of dist2 \<and> list_all (\<lambda>(b, v). 0 \<le> v) dist2
      \<longrightarrow> calculate_kl_divergence dist1 dist2 = Inr 0)
   \<and> (0 \<le> similarity_threshold \<and> 0 < sum_list (map snd bucket_counts)
        \<and> map_of (observed_of bucket_counts) = map_of (benchmark_for proj_type)
      \<longrightarrow> (\<exists>r. validate_segment similarity_threshold ((dept, proj_type), bucket_counts)
                    = Inr (Some r)
               \<and> sr_kl_divergence r = 0 \<and> sr_status r = Success))"
proof (intro conjI impI)
  assume "map_of dist1 = map_of dist2 \<and> list_all (\<lambda>(b, v). 0 \<le> v) dist2"
  then show "calculate_kl_divergence dist1 dist2 = Inr 0" by (simp add: kl_identical)
next
  assume a: "0 \<le> similarity_threshold \<and> 0 < sum_list (map snd bucket_counts)
        \<and> map_of (observed_of bucket_counts) = map_of (benchmark_for proj_type)"
  then have "calculate_kl_divergence (observed_of bucket_counts) (benchmark_for proj_type) = Inr 0"
    using kl_identical [OF _ benchmark_nonneg] by blast
  then show "\<exists>r. validate_segment similarity_threshold ((dept, proj_type), bucket_counts)
                    = Inr (Some r)
               \<and> sr_kl_divergence r = 0 \<and> sr_status r = Success"
    using a benchmark_nonempty [of proj_type] by (simp add: validate_segment_def Let_def)
qed

lemma observed_sprint_20:
  "observed_of [(''0-1_days'', 3), (''2-3_days'', 5), (''4-7_days'', 6), (''8-14_days'', 4),
      (''15+_days'', 2)] = benchmark_for ''sprint''"
  by (simp add: observed_of_def benchmark_for_def sprint_tasks_def lower_def lower_char_def
      dict_get_def contains_def)

theorem kl_divergence_identical_witness:
  "map_of sprint_tasks = map_of sprint_tasks \<and> list_all (\<lambda>(b, v). 0 \<le> v) sprint_tasks
   \<and> calculate_kl_divergence sprint_tasks sprint_tasks = Inr 0
   \<and> (0 :: real) \<le> 5 / 100
   \<and> 0 < sum_list (map snd [(''0-1_days'', 3 :: int), (''2-3_days'', 5), (''4-7_days'', 6),
             (''8-14_days'', 4), (''15+_days'', 2)])
   \<and> map_of (observed_of [(''0-1_days'', 3), (''2-3_days'', 5), (''4-7_days'', 6),
             (''8-14_days'', 4), (''15+_days'', 2)]) = map_of (benchmark_for ''sprint'')
   \<and> (\<exists>r. validate_segment (5 / 100) ((''engineering'', ''sprint''),
             [(''0-1_days'', 3), (''2-3_days'', 5), (''4-7_days'', 6), (''8-14_days'', 4),
              (''15+_days'', 2)]) = Inr (Some r)
          \<and> sr_kl_divergence r = 0 \<and> sr_status r = Success)"
proof -
  have h1: "map_of sprint_tasks = map_of sprint_tasks
      \<and> list_all (\<lambda>(b, v). 0 \<le> v) sprint_tasks"
    by (simp add: sprint_tasks_def)
  have h2: "(0 :: real) \<le> 5 / 100
   \<and> 0 < sum_list (map snd [(''0-1_days'', 3 :: int), (''2-3_days'', 5), (''4-7_days'', 6),
             (''8-14_days'', 4), (''15+_days'', 2)])
   \<and> map_of (observed_of [(''0-1_days'', 3), (''2-3_days'', 5), (''4-7_days'', 6),
             (''8-14_days'', 4), (''15+_days'', 2)]) = map_of (benchmark_for ''sprint'')"
    unfolding observed_sprint_20 by simp
  from kl_divergence_identical_distributions
         [of sprint_tasks sprint_tasks "5 / 100"
             "[(''0-1_days'', 3), (''2-3_days'', 5), (''4-7_days'', 6), (''8-14_days'', 4),
               (''15+_days'', 2)]" "''sprint''" "''engineering''"] h1 h2
  show ?thesis by blast
qed

lemma ln_lower: "0 < x \<Longrightarrow> 1 - 1 / x \<le> ln (x :: real)"
proof -
  assume x: "0 < x"
  then have "ln (1 / x) \<le> 1 / x - 1" using ln_le_minus_one [of "1 / x"] by simp
  moreover have "ln (1 / x) = - ln x" using x by (simp add: ln_div)
  ultimately show ?thesis by simp
qed

lemma ln_ge_one: "3 \<le> x \<Longrightarrow> 1 \<le> ln (x :: real)"
proof -
  assume x: "3 \<le> x"
  have "exp 1 \<le> (3 :: real)" by (rule exp_le)
  then have "exp 1 \<le> x" using x by simp
  then show ?thesis using x by (simp add: ln_ge_iff)
qed

lemma kl_single_task:
  "calculate_kl_divergence [(''0-1_days'', 1)] sprint_tasks =
     Inr ((10000000001 * ln (10000000001 / 1500000001) + ln (1 / 2500000001)
           + ln (1 / 3000000001) + ln (1 / 2000000001) + ln (1 / 1000000001)) / 10000000005)"
  by (simp add: calculate_kl_divergence_def all_buckets_def smoothed_def epsilon_def Let_def
      sprint_tasks_def dict_get_def add_divide_distrib)

lemma kl_single_task_large:
  "5 / 100 < (10000000001 * ln (10000000001 / 1500000001 :: real) + ln (1 / 2500000001)
           + ln (1 / 3000000001) + ln (1 / 2000000001) + ln (1 / 1000000001)) / 10000000005"
proof -
  have "1 \<le> ln (10000000001 / 1500000001 :: real)" by (rule ln_ge_one) simp
  moreover have "1 - 1 / (1 / 2500000001) \<le> ln (1 / 2500000001 :: real)" by (rule ln_lower) simp
  moreover have "1 - 1 / (1 / 3000000001) \<le> ln (1 / 3000000001 :: real)" by (rule ln_lower) simp
  moreover have "1 - 1 / (1 / 2000000001) \<le> ln (1 / 2000000001 :: real)" by (rule ln_lower) simp
  moreover have "1 - 1 / (1 / 1000000001) \<le> ln (1 / 1000000001 :: real)" by (rule ln_lower) simp
  ultimately show ?thesis by simp
qed

lemma completion_rates_sample_size:
  "r \<in> set (cr_details (validate_completion_rates thr (completion_rates_query tasks)))
     \<Longrightarrow> 10 \<le> rr_sample_size r"
  by (auto simp: validate_completion_rates_def completion_rates_query_def validate_rate_def Let_def)

lemma single_task_queries:
  "completion_rates_query [\<lparr>tr_department = ''engineering'', tr_project_type = ''sprint'',
        tr_completed = False, tr_due_days = Some (1 / 2)\<rparr>] = []
   \<and> due_date_distributions_query [\<lparr>tr_department = ''engineering'', tr_project_type = ''sprint'',
        tr_completed = False, tr_due_days = Some (1 / 2)\<rparr>]
       = [(''engineering'', ''sprint'', ''0-1_days'', 1)]"
  by (auto simp: completion_rates_query_def due_date_distributions_query_def due_date_bucket_def
      Let_def intro: exI [of _ "1 / 2"])

lemma single_task_segment:
  "validate_segment (5 / 100) ((''engineering'', ''sprint''), [(''0-1_days'', 1)])
     = Inr (Some \<lparr>sr_department = ''engineering'', sr_project_type = ''sprint'',
          sr_kl_divergence = (10000000001 * ln (10000000001 / 1500000001) + ln (1 / 2500000001)
           + ln (1 / 3000000001) + ln (1 / 2000000001) + ln (1 / 1000000001)) / 10000000005,
          sr_threshold = 5 / 100, sr_status = Failure,
          sr_observed_distribution = [(''0-1_days'', 1)],
          sr_benchmark_distribution = sprint_tasks, sr_sample_size = 1\<rparr>)"
proof -
  have b: "benchmark_for ''sprint'' = sprint_tasks"
    by (simp add: benchmark_for_def lower_def lower_char_def dict_get_def contains_def)
  have o: "observed_of [(''0-1_days'', 1)] = [(''0-1_days'', 1)]"
    by (simp add: observed_of_def)
  have ne: "sprint_tasks \<noteq> []" by (simp add: sprint_tasks_def)
  show ?thesis
    using kl_single_task_large ne
    by (simp add: validate_segment_def Let_def b o kl_single_task)
qed

text \<open>
  Claim C8 at a segment with a single task (engineering, sprint, due half a day after its
  creation): the completion-rate query skips the segment (lemma
  \<open>completion_rates_sample_size\<close>: that check only sees segments of at least 10 tasks),
  but the due-date check scores it, with sample size 1, and reports \<open>failure\<close>.
\<close>

theorem small_segment_is_evaluated:
  "completion_rates_query [\<lparr>tr_department = ''engineering'', tr_project_type = ''sprint'',
        tr_completed = False, tr_due_days = Some (1 / 2)\<rparr>] = []
   \<and> (case validate_due_date_distributions (5 / 100)
              (due_date_distributions_query [\<lparr>tr_department = ''engineering'',
                 tr_project_type = ''sprint'', tr_completed = False,
                 tr_due_days = Some (1 / 2)\<rparr>]) of
         Inl e \<Rightarrow> False
       | Inr v \<Rightarrow> dd_status v = Failure \<and> map sr_sample_size (dd_details v) = [1]
                  \<and> map sr_status (dd_details v) = [Failure])"
proof -
  have g: "group_due_date_data [(''engineering'', ''sprint'', ''0-1_days'', 1)]
             = [((''engineering'', ''sprint''), [(''0-1_days'', 1)])]"
    by (simp add: group_due_date_data_def)
  show ?thesis
    unfolding single_task_queries [THEN conjunct2] validate_due_date_distributions_def g
      validate_segments.simps single_task_segment
    by (simp add: single_task_queries)
qed

subsection \<open>Resolution of field distributions\<close>

lemma resolve_exact:
  assumes "distinct (map fst dept_patterns)" and "(field_name, pattern) \<in> set dept_patterns"
  shows "resolve dept_patterns field_name fallback = pattern"
proof -
  have "map_of dept_patterns field_name = Some pattern" using assms by (rule map_of_is_SomeI)
  then show ?thesis by (simp add: resolve_def)
qed

lemma map_of_absent: "field_name \<notin> fst ` set dept_patterns \<Longrightarrow> map_of dept_patterns field_name = None"
  by (simp add: map_of_eq_None_iff)

lemma find_skip_prefix: "find P xs = None \<Longrightarrow> find P (xs @ ys) = find P ys"
  by (induction xs) (auto split: if_splits)

lemma resolve_substring:
  assumes "field_name \<notin> fst ` set dept_patterns"
    and "dept_patterns = before @ (category, pattern) # after"
    and "contains category field_name"
    and "\<forall>(c, p) \<in> set before. \<not> contains c field_name"
  shows "resolve dept_patterns field_name fallback = pattern"
proof -
  have "find (\<lambda>(c, p). contains c field_name) before = None"
    using assms(4) by (auto simp: find_None_iff)
  then have "find (\<lambda>(c, p). contains c field_name) dept_patterns = Some (category, pattern)"
    using assms(2,3) by (simp add: find_skip_prefix)
  then show ?thesis using map_of_absent [OF assms(1)] by (simp add: resolve_def)
qed

lemma resolve_fallback:
  assumes "field_name \<notin> fst ` set dept_patterns"
    and "\<forall>(c, p) \<in> set dept_patterns. \<not> contains c field_name"
  shows "resolve dept_patterns field_name fallback = fallback"
proof -
  have "find (\<lambda>(c, p). contains c field_name) dept_patterns = None"
    using assms(2) by (auto simp: find_None_iff)
  then show ?thesis using map_of_absent [OF assms(1)] by (simp add: resolve_def)
qed

lemma distribution_never_None:
  "field_type \<in> set [''enum'', ''number'', ''date'', ''boolean'', ''text'']
     \<Longrightarrow> get_field_value_distribution patterns field_type name department project_type \<noteq> None"
  by (auto simp: get_field_value_distribution_def Let_def)

lemma distribution_keyed:
  "get_field_value_distribution patterns ''enum'' name department project_type =
     Some (EnumOptions (resolve (dept_patterns_of (enum_patterns patterns) department)
             (lower name) [''High'', ''Medium'', ''Low'']))"
  "get_field_value_distribution patterns ''number'' name department project_type =
     Some (NumberPattern (resolve (dept_patterns_of (number_patterns patterns) department)
             (lower name) generic_number_pattern))"
  "get_field_value_distribution patterns ''date'' name department project_type =
     Some (DateOffsets (resolve (dept_patterns_of (date_patterns patterns) department)
             (lower name) (0, 30)))"
  "get_field_value_distribution patterns ''boolean'' name department project_type =
     Some (BooleanWeights (resolve (dept_patterns_of (boolean_patterns patterns) department)
             (lower name) [5 / 10, 5 / 10]))"
  by (simp_all add: get_field_value_distribution_def Let_def)

text \<open>
  Claim C4. Resolution never fails: for each of the five field types a distribution is
  returned. For the types \<open>enum\<close>, \<open>number\<close>, \<open>date\<close> and \<open>boolean\<close> it is the result of
  \<open>resolve\<close> on the patterns of the department, with the fallback of the type; and
  \<open>resolve\<close> returns the field's own entry when there is one (whatever other entries are
  substrings of the name); else the pattern of the first entry whose key is a substring
  of the field name; else the fallback.
\<close>

theorem field_distribution_resolution:
  "(field_type \<in> set [''enum'', ''number'', ''date'', ''boolean'', ''text'']
      \<longrightarrow> get_field_value_distribution patterns field_type name department project_type \<noteq> None)
   \<and> get_field_value_distribution patterns ''enum'' name department project_type =
       Some (EnumOptions (resolve (dept_patterns_of (enum_patterns patterns) department)
               (lower name) [''High'', ''Medium'', ''Low'']))
   \<and> get_field_value_distribution patterns ''number'' name department project_type =
       Some (NumberPattern (resolve (dept_patterns_of (number_patterns patterns) department)
               (lower name) generic_number_pattern))
   \<and> get_field_value_distribution patterns ''date'' name department project_type =
       Some (DateOffsets (resolve (dept_patterns_of (date_patterns patterns) department)
               (lower name) (0, 30)))
   \<and> get_field_value_distribution patterns ''boolean'' name department project_type =
       Some (BooleanWeights (resolve (dept_patterns_of (boolean_patterns patterns) department)
               (lower name) [5 / 10, 5 / 10]))
   \<and> (distinct (map fst dept_patterns) \<and> (field_name, pattern) \<in> set dept_patterns
        \<longrightarrow> resolve dept_patterns field_name fallback = pattern)
   \<and> (field_name \<notin> fst ` set dept_patterns
        \<and> dept_patterns = before @ (category, pattern) # after
        \<and> contains category field_name
        \<and> (\<forall>(c, p) \<in> set before. \<not> contains c field_name)
        \<longrightarrow> resolve dept_patterns field_name fallback = pattern)
   \<and> (field_name \<notin> fst ` set dept_patterns
        \<and> (\<forall>(c, p) \<in> set dept_patterns. \<not> contains c field_name)
        \<longrightarrow> resolve dept_patterns field_name fallback = fallback)"
  using distribution_never_None [of field_type patterns name department project_type]
    distribution_keyed [of patterns name department project_type]
    resolve_exact [of dept_patterns field_name pattern fallback]
    resolve_substring [of field_name dept_patterns before category pattern after fallback]
    resolve_fallback [of field_name dept_patterns fallback]
  by blast

lemma engineering_enums:
  "dept_patterns_of (enum_patterns field_value_patterns_init) ''engineering'' =
     [] @ (''priority'', [''Critical'', ''High'', ''Medium'', ''Low''])
        # [(''component'', [''Frontend'', ''Backend'', ''Database'', ''API'', ''Infrastructure'',
             ''Security'']),
           (''bug_severity'', [''Blocker'', ''Critical'', ''Major'', ''Minor'', ''Trivial'']),
           (''environment'', [''Production'', ''Staging'', ''Development'', ''QA''])]"
  by (simp add: dept_patterns_of_def field_value_patterns_init_def enum_patterns_init_def
      dict_get_def)

lemma contains_priority: "contains ''priority'' ''task_priority''"
  by (simp add: contains_def sublist_code)

lemma lower_Bug_Priority: "lower ''Bug_Priority'' = ''bug_priority''"
  by (simp add: lower_def lower_char_def dict_get_def)

lemma no_category_in_owner:
  "\<forall>(c, p) \<in> set (dept_patterns_of (enum_patterns field_value_patterns_init) ''engineering'').
      \<not> contains c ''owner''"
  unfolding engineering_enums by (simp add: contains_def sublist_code)

theorem field_distribution_resolution_witness:
  "''enum'' \<in> set [''enum'', ''number'', ''date'', ''boolean'', ''text'']
   \<and> get_field_value_distribution
         (field_value_patterns_init\<lparr>enum_patterns := [(''engineering'', priority_options)]\<rparr>)
         ''enum'' ''Bug_Priority'' ''engineering'' ''sprint'' = Some (EnumOptions [''P0'', ''P1'', ''P2''])
   \<and> distinct (map fst priority_options) \<and> (''bug_priority'', [''P0'', ''P1'', ''P2'']) \<in> set priority_options
   \<and> contains ''priority'' ''bug_priority''
   \<and> resolve priority_options ''bug_priority'' [''High'', ''Medium'', ''Low''] = [''P0'', ''P1'', ''P2'']
   \<and> ''task_priority'' \<notin> fst ` set (dept_patterns_of (enum_patterns field_value_patterns_init) ''engineering'')
   \<and> contains ''priority'' ''task_priority''
   \<and> resolve (dept_patterns_of (enum_patterns field_value_patterns_init) ''engineering'')
         ''task_priority'' [''High'', ''Medium'', ''Low''] = [''Critical'', ''High'', ''Medium'', ''Low'']
   \<and> ''owner'' \<notin> fst ` set (dept_patterns_of (enum_patterns field_value_patterns_init) ''engineering'')
   \<and> resolve (dept_patterns_of (enum_patterns field_value_patterns_init) ''engineering'')
         ''owner'' [''High'', ''Medium'', ''Low''] = [''High'', ''Medium'', ''Low'']"
proof -
  let ?reg = "field_value_patterns_init\<lparr>enum_patterns := [(''engineering'', priority_options)]\<rparr>"
  let ?eng = "dept_patterns_of (enum_patterns field_value_patterns_init) ''engineering''"
  have d: "distinct (map fst priority_options)
      \<and> (''bug_priority'', [''P0'', ''P1'', ''P2'']) \<in> set priority_options"
    by (simp add: priority_options_def)
  have c: "contains ''priority'' ''bug_priority''" by (simp add: contains_def sublist_code)
  note exact = field_distribution_resolution
      [where field_type = "''enum''" and patterns = ?reg and name = "''Bug_Priority''"
         and department = "''engineering''" and project_type = "''sprint''"
         and dept_patterns = priority_options and field_name = "''bug_priority''"
         and pattern = "[''P0'', ''P1'', ''P2'']" and fallback = "[''High'', ''Medium'', ''Low'']"
         and before = "[]" and category = "''priority''" and after = "[]"]
  have r1: "resolve priority_options ''bug_priority'' [''High'', ''Medium'', ''Low'']
              = [''P0'', ''P1'', ''P2'']"
    using exact [THEN conjunct2, THEN conjunct2, THEN conjunct2, THEN conjunct2, THEN conjunct2,
                 THEN conjunct1] d
    by (rule mp)
  have dp: "dept_patterns_of (enum_patterns ?reg) ''engineering'' = priority_options"
    by (simp add: dept_patterns_of_def dict_get_def)
  have g: "get_field_value_distribution ?reg ''enum'' ''Bug_Priority'' ''engineering'' ''sprint''
             = Some (EnumOptions [''P0'', ''P1'', ''P2''])"
    using exact [THEN conjunct2, THEN conjunct1]
    unfolding dp lower_Bug_Priority r1 .
  have a: "''task_priority'' \<notin> fst ` set ?eng" unfolding engineering_enums by simp
  note sub = field_distribution_resolution
      [where field_type = "''enum''" and patterns = ?reg and name = "''Bug_Priority''"
         and department = "''engineering''" and project_type = "''sprint''"
         and dept_patterns = ?eng and field_name = "''task_priority''"
         and pattern = "[''Critical'', ''High'', ''Medium'', ''Low'']"
         and fallback = "[''High'', ''Medium'', ''Low'']"
         and before = "[]" and category = "''priority''"
         and after = "[(''component'', [''Frontend'', ''Backend'', ''Database'', ''API'',
             ''Infrastructure'', ''Security'']),
           (''bug_severity'', [''Blocker'', ''Critical'', ''Major'', ''Minor'', ''Trivial'']),
           (''environment'', [''Production'', ''Staging'', ''Development'', ''QA''])]"]
  have h2: "''task_priority'' \<notin> fst ` set ?eng
        \<and> ?eng = [] @ (''priority'', [''Critical'', ''High'', ''Medium'', ''Low''])
            # [(''component'', [''Frontend'', ''Backend'', ''Database'', ''API'',
             ''Infrastructure'', ''Security'']),
           (''bug_severity'', [''Blocker'', ''Critical'', ''Major'', ''Minor'', ''Trivial'']),
           (''environment'', [''Production'', ''Staging'', ''Development'', ''QA''])]
        \<and> contains ''priority'' ''task_priority''
        \<and> (\<forall>(c, p) \<in> set []. \<not> contains c ''task_priority'')"
    using a contains_priority engineering_enums by simp
  have r2: "resolve ?eng ''task_priority'' [''High'', ''Medium'', ''Low'']
              = [''Critical'', ''High'', ''Medium'', ''Low'']"
    using sub [THEN conjunct2, THEN conjunct2, THEN conjunct2, THEN conjunct2, THEN conjunct2,
               THEN conjunct2, THEN conjunct1] h2
    by (rule mp)
  have b: "''owner'' \<notin> fst ` set ?eng" unfolding engineering_enums by simp
  note dflt = field_distribution_resolution
      [where field_type = "''enum''" and patterns = ?reg and name = "''Bug_Priority''"
         and department = "''engineering''" and project_type = "''sprint''"
         and dept_patterns = ?eng and field_name = "''owner''"
         and pattern = "[]" and fallback = "[''High'', ''Medium'', ''Low'']"
         and before = "[]" and category = "''priority''" and after = "[]"]
  have h3: "''owner'' \<notin> fst ` set ?eng \<and> (\<forall>(c, p) \<in> set ?eng. \<not> contains c ''owner'')"
    using b no_category_in_owner by (rule conjI)
  have r3: "resolve ?eng ''owner'' [''High'', ''Medium'', ''Low''] = [''High'', ''Medium'', ''Low'']"
    using dflt [THEN conjunct2, THEN conjunct2, THEN conjunct2, THEN conjunct2, THEN conjunct2,
                THEN conjunct2, THEN conjunct2] h3
    by (rule mp)
  have m: "''enum'' \<in> set [''enum'', ''number'', ''date'', ''boolean'', ''text'']" by simp
  from m g d c r1 a contains_priority r2 b r3
  show ?thesis by (intro conjI) (simp_all only: simp_thms)
qed

subsection \<open>Number values and the bounded draws\<close>

lemma py_round_bounds:
  assumes "real_of_int lo \<le> x" and "x \<le> real_of_int hi"
  shows "lo \<le> py_round x \<and> py_round x \<le> hi"
proof -
  have f1: "lo \<le> \<lfloor>x\<rfloor>" using assms(1) by (simp add: le_floor_iff)
  have f2: "\<lfloor>x\<rfloor> \<le> hi" using assms(2) by (simp add: floor_le_iff)
  have f3: "\<lfloor>x\<rfloor> = hi \<Longrightarrow> x - of_int \<lfloor>x\<rfloor> = 0"
  proof -
    assume e: "\<lfloor>x\<rfloor> = hi"
    have "of_int \<lfloor>x\<rfloor> \<le> x" by (rule of_int_floor_le)
    then show ?thesis using assms(2) e by simp
  qed
  show ?thesis
  proof (cases "\<lfloor>x\<rfloor> = hi")
    case True
    then show ?thesis using f1 f3 by (simp add: py_round_def Let_def)
  next
    case False
    then have "\<lfloor>x\<rfloor> + 1 \<le> hi" using f2 by simp
    then show ?thesis using f1 f2 by (simp add: py_round_def Let_def)
  qed
qed

lemma uniform_value_bounds:
  assumes "np_min p = Some lo" and "np_max p = Some hi" and "num_val lo \<le> num_val hi"
    and "0 \<le> uniform_draw d" and "uniform_draw d < 1"
  shows "num_val lo \<le> uniform_value p d \<and> uniform_value p d \<le> num_val hi"
proof -
  let ?w = "num_val hi - num_val lo"
  have w: "0 \<le> ?w" using assms(3) by simp
  have "0 \<le> ?w * uniform_draw d" using w assms(4) by simp
  moreover have "?w * uniform_draw d \<le> ?w * 1"
    using w assms(5) by (intro mult_left_mono) simp_all
  ultimately show ?thesis using assms(1,2) by (simp add: uniform_value_def opt_get_def Let_def)
qed

lemma lognormal_value_bounds:
  assumes "np_min p = Some (PyInt lo)" and "np_max p = Some (PyInt hi)" and "lo \<le> hi"
    and "0 \<le> opt_get (np_std p) 1"
  shows "\<exists>v. lognormal_value p d = Inr v \<and> real_of_int lo \<le> v \<and> v \<le> real_of_int hi"
proof -
  let ?c = "max (real_of_int lo) (min (real_of_int hi) (lognormal_draw d))"
  have "real_of_int lo \<le> ?c" by simp
  moreover have "?c \<le> real_of_int hi" using assms(3) by simp
  ultimately have "lo \<le> py_round ?c \<and> py_round ?c \<le> hi" by (rule py_round_bounds)
  then show ?thesis using assms(1,2,4) by (simp add: lognormal_value_def opt_get_def Let_def)
qed

lemma bisect_right_bounds: "lo \<le> hi \<Longrightarrow> lo \<le> bisect_right a x lo hi \<and> bisect_right a x lo hi \<le> hi"
proof (induction a x lo hi rule: bisect_right.induct)
  case (1 a x lo hi)
  show ?case
  proof (cases "lo < hi")
    case False
    then show ?thesis using "1.prems" by (subst bisect_right.simps, subst bisect_right.simps) simp
  next
    case True
    let ?mid = "(lo + hi) div 2"
    have m: "lo \<le> ?mid" "?mid < hi" using True by auto
    show ?thesis
    proof (cases "x < a ! ?mid")
      case l: True
      have "lo \<le> bisect_right a x lo ?mid \<and> bisect_right a x lo ?mid \<le> ?mid"
        using "1.IH"(1) [OF True refl l] m by simp
      then show ?thesis using True l m
        by (subst bisect_right.simps, subst (2) bisect_right.simps) (simp add: Let_def)
    next
      case r: False
      have "?mid + 1 \<le> bisect_right a x (?mid + 1) hi \<and> bisect_right a x (?mid + 1) hi \<le> hi"
        using "1.IH"(2) [OF True refl r] m by simp
      then show ?thesis using True r m
        by (subst bisect_right.simps, subst (2) bisect_right.simps) (simp add: Let_def)
    qed
  qed
qed

lemma accumulate_from_length: "length (accumulate_from acc ws) = length ws"
  by (induction ws arbitrary: acc) simp_all

lemma accumulate_from_last: "ws \<noteq> [] \<Longrightarrow> last (accumulate_from acc ws) = acc + sum_list ws"
proof (induction ws arbitrary: acc)
  case Nil
  then show ?case by simp
next
  case (Cons w ws)
  show ?case
  proof (cases "ws = []")
    case True
    then show ?thesis by simp
  next
    case False
    then have "accumulate_from (acc + w) ws \<noteq> []" by (cases ws) simp_all
    then show ?thesis using Cons.IH [OF False, of "acc + w"] by simp
  qed
qed

lemma choices_member:
  assumes "length weights = length population" and "population \<noteq> []" and "0 < sum_list weights"
  shows "\<exists>v. choices population weights u = Inr v \<and> v \<in> set population"
proof -
  let ?cum = "accumulate_from 0 weights"
  have ne: "weights \<noteq> []" using assms(1,2) by auto
  have l: "length ?cum = length population" using assms(1) by (simp add: accumulate_from_length)
  have c: "?cum \<noteq> []" using l assms(2) by auto
  have t: "\<not> last ?cum \<le> 0" using accumulate_from_last [OF ne, of 0] assms(3) by simp
  have "bisect_right ?cum (u * last ?cum) 0 (length population - 1) \<le> length population - 1"
    using bisect_right_bounds [of 0 "length population - 1"] by simp
  then have "bisect_right ?cum (u * last ?cum) 0 (length population - 1) < length population"
    using assms(2) by (cases population) simp_all
  then have "population ! bisect_right ?cum (u * last ?cum) 0 (length population - 1)
               \<in> set population" by (rule nth_mem)
  then show ?thesis using l c t by (simp add: choices_def Let_def)
qed

lemma discrete_value_bounds:
  assumes "np_min p = Some (PyInt lo)" and "np_max p = Some (PyInt hi)" and "lo \<le> hi"
    and "length ws = nat (hi - lo + 1)" and "0 < sum_list ws"
  shows "\<exists>v. discrete_value p ws d = Inr v \<and> real_of_int lo \<le> v \<and> v \<le> real_of_int hi"
proof -
  have "length ws = length [lo..hi]" using assms(3,4) by simp
  moreover have "[lo..hi] \<noteq> []" using assms(3) by simp
  ultimately obtain v where v: "choices [lo..hi] ws (choices_draw d) = Inr v" "v \<in> set [lo..hi]"
    using choices_member [OF _ _ assms(5)] by blast
  then show ?thesis using assms(1,2) by (simp add: discrete_value_def opt_get_def)
qed

lemma round_to_bounds:
  assumes u: "0 < unit" and lo: "multiple_of (real_of_int unit) lo"
    and hi: "multiple_of (real_of_int unit) hi" and v: "lo \<le> v" "v \<le> hi"
  shows "lo \<le> round_to unit v \<and> round_to unit v \<le> hi"
proof -
  let ?u = "real_of_int unit"
  have up: "0 < ?u" using u by simp
  obtain a where a: "lo / ?u = real_of_int a" using lo unfolding multiple_of_def by blast
  obtain b where b: "hi / ?u = real_of_int b" using hi unfolding multiple_of_def by blast
  have "real_of_int a \<le> v / ?u" using v(1) up a [symmetric] by (simp add: divide_right_mono)
  moreover have "v / ?u \<le> real_of_int b" using v(2) up b [symmetric] by (simp add: divide_right_mono)
  ultimately have r: "a \<le> py_round (v / ?u) \<and> py_round (v / ?u) \<le> b" by (rule py_round_bounds)
  have la: "lo = ?u * real_of_int a" using a up by (simp add: field_simps)
  have hb: "hi = ?u * real_of_int b" using b up by (simp add: field_simps)
  have "?u * real_of_int a \<le> ?u * real_of_int (py_round (v / ?u))"
    using r up by (intro mult_left_mono) simp_all
  moreover have "?u * real_of_int (py_round (v / ?u)) \<le> ?u * real_of_int b"
    using r up by (intro mult_left_mono) simp_all
  ultimately show ?thesis unfolding la hb round_to_def by simp
qed

lemma round_tenths_bounds:
  assumes lo: "multiple_of (1 / 10) lo" and hi: "multiple_of (1 / 10) hi" and v: "lo \<le> v" "v \<le> hi"
  shows "lo \<le> round_tenths v \<and> round_tenths v \<le> hi"
proof -
  obtain a where a: "lo * 10 = real_of_int a" using lo unfolding multiple_of_def by auto
  obtain b where b: "hi * 10 = real_of_int b" using hi unfolding multiple_of_def by auto
  have "real_of_int a \<le> v * 10" using v(1) a [symmetric] by simp
  moreover have "v * 10 \<le> real_of_int b" using v(2) b [symmetric] by simp
  ultimately have r: "a \<le> py_round (v * 10) \<and> py_round (v * 10) \<le> b" by (rule py_round_bounds)
  have "real_of_int a \<le> real_of_int (py_round (v * 10))" using r by simp
  moreover have "real_of_int (py_round (v * 10)) \<le> real_of_int b" using r by simp
  ultimately show ?thesis using a b unfolding round_tenths_def by linarith
qed

lemma round_for_bounds:
  assumes "multiple_of (rounding_unit hi) lo" and "multiple_of (rounding_unit hi) hi"
    and "lo \<le> v" and "v \<le> hi"
  shows "lo \<le> round_for hi v \<and> round_for hi v \<le> hi"
proof (cases "hi > 1000")
  case True
  then show ?thesis using assms round_to_bounds [of 100 lo hi v]
    by (simp add: round_for_def rounding_unit_def)
next
  case False
  show ?thesis
  proof (cases "hi > 100")
    case True
    then show ?thesis using False assms round_to_bounds [of 10 lo hi v]
      by (simp add: round_for_def rounding_unit_def)
  next
    case f: False
    then show ?thesis using False assms round_tenths_bounds [of lo hi v]
      by (simp add: round_for_def rounding_unit_def)
  qed
qed

lemma clamp_bounds: "lo \<le> hi \<Longrightarrow> lo \<le> clamp lo hi v \<and> clamp lo hi v \<le> hi"
  by (simp add: clamp_def)

lemma normal_value_eq:
  assumes "np_min p = Some lo" and "np_max p = Some hi" and "0 \<le> opt_get (np_std p) 15"
  shows "normal_value p d
           = Inr (round_for (num_val hi) (clamp (num_val lo) (num_val hi) (normal_draw d)))"
  using assms by (simp add: normal_value_def opt_get_def Let_def round_for_def clamp_def)

lemma lognormal_value_eq:
  assumes "np_min p = Some lo" and "np_max p = Some hi" and "0 \<le> opt_get (np_std p) 1"
  shows "lognormal_value p d
           = Inr (real_of_int (py_round (clamp (num_val lo) (num_val hi) (lognormal_draw d))))"
  using assms by (simp add: lognormal_value_def opt_get_def Let_def clamp_def)

lemma nonempty_pattern: "np_min p = Some lo \<Longrightarrow> p \<noteq> empty_pattern"
  by (auto simp: empty_pattern_def)

lemma offset_attempts_exhausted:
  "(\<forall>j < n. \<not> (tc_min timing \<le> draws (i + j) \<and> draws (i + j) \<le> tc_max timing))
     \<Longrightarrow> offset_attempts timing draws i n = tc_mean timing"
proof (induction n arbitrary: i)
  case 0
  then show ?case by simp
next
  case (Suc n)
  have first: "\<not> (tc_min timing \<le> draws i \<and> draws i \<le> tc_max timing)"
    using Suc.prems [rule_format, of 0] by simp
  have "\<forall>j < n. \<not> (tc_min timing \<le> draws (Suc i + j) \<and> draws (Suc i + j) \<le> tc_max timing)"
    using Suc.prems by (auto dest: spec [of _ "Suc _"])
  then have "offset_attempts timing draws (Suc i) n = tc_mean timing" by (rule Suc.IH)
  then show ?case using first by (auto simp: Let_def)
qed

lemma offset_attempts_accepted:
  "k < n \<Longrightarrow> tc_min timing \<le> draws (i + k) \<and> draws (i + k) \<le> tc_max timing
     \<Longrightarrow> (\<forall>j < k. \<not> (tc_min timing \<le> draws (i + j) \<and> draws (i + j) \<le> tc_max timing))
     \<Longrightarrow> offset_attempts timing draws i n = draws (i + k)"
proof (induction n arbitrary: i k)
  case 0
  then show ?case by simp
next
  case (Suc n)
  show ?case
  proof (cases k)
    case 0
    then show ?thesis using Suc.prems(2) by (simp add: Let_def)
  next
    case (Suc k')
    have first: "\<not> (tc_min timing \<le> draws i \<and> draws i \<le> tc_max timing)"
      using Suc.prems(3) [rule_format, of 0] Suc by simp
    have "offset_attempts timing draws (Suc i) n = draws (Suc i + k')"
    proof (rule Suc.IH)
      show "k' < n" using Suc.prems(1) Suc by simp
      show "tc_min timing \<le> draws (Suc i + k') \<and> draws (Suc i + k') \<le> tc_max timing"
        using Suc.prems(2) Suc by simp
      show "\<forall>j < k'. \<not> (tc_min timing \<le> draws (Suc i + j) \<and> draws (Suc i + j) \<le> tc_max timing)"
        using Suc.prems(3) Suc by (auto dest: spec [of _ "Suc _"])
    qed
    then show ?thesis using first Suc by (auto simp: Let_def)
  qed
qed

text \<open>
  Where the bounds hold. For a pattern with \<open>min \<le> max\<close>, the value lies within
  \<open>[min, max]\<close> when the kind is \<open>uniform\<close> or unspecified (then it is the uniform draw over
  \<open>[min, max]\<close>), \<open>lognormal\<close> with integer bounds, a list of as many weights as there are
  integers from \<open>min\<close> to \<open>max\<close>, or \<open>normal\<close> with bounds on the grid of its rounding.
  For a kind name that the generator does not know the value is the result of
  \<open>random.randint(1, 100)\<close>, within \<open>[1, 100]\<close> whatever \<open>min\<close> and \<open>max\<close> are.
\<close>

lemma number_value_bounds:
  "np_min p = Some lo \<Longrightarrow> np_max p = Some hi \<Longrightarrow> num_val lo \<le> num_val hi \<Longrightarrow>
     ((np_distribution p = None \<or> np_distribution p = Some (KindName ''uniform''))
        \<and> 0 \<le> uniform_draw d \<and> uniform_draw d < 1
      \<longrightarrow> generate_number_value p d = Inr (Some (uniform_value p d))
          \<and> num_val lo \<le> uniform_value p d \<and> uniform_value p d \<le> num_val hi)
   \<and> (np_distribution p = Some (KindName ''lognormal'') \<and> 0 \<le> opt_get (np_std p) 1
        \<and> lo = PyInt l \<and> hi = PyInt h
      \<longrightarrow> (\<exists>v. generate_number_value p d = Inr (Some v) \<and> num_val lo \<le> v \<and> v \<le> num_val hi))
   \<and> (np_distribution p = Some (KindWeights ws) \<and> lo = PyInt l \<and> hi = PyInt h
        \<and> length ws = nat (h - l + 1) \<and> 0 < sum_list ws
      \<longrightarrow> (\<exists>v. generate_number_value p d = Inr (Some v) \<and> num_val lo \<le> v \<and> v \<le> num_val hi))
   \<and> (np_distribution p = Some (KindName ''normal'') \<and> 0 \<le> opt_get (np_std p) 15
        \<and> multiple_of (rounding_unit (num_val hi)) (num_val lo)
        \<and> multiple_of (rounding_unit (num_val hi)) (num_val hi)
      \<longrightarrow> (\<exists>v. generate_number_value p d = Inr (Some v) \<and> num_val lo \<le> v \<and> v \<le> num_val hi))
   \<and> (np_distribution p = Some (KindName k) \<and> k \<notin> set [''uniform'', ''normal'', ''lognormal'']
        \<and> 1 \<le> randint_draw d \<and> randint_draw d \<le> 100
      \<longrightarrow> generate_number_value p d = Inr (Some (real_of_int (randint_draw d)))
          \<and> 1 \<le> real_of_int (randint_draw d) \<and> real_of_int (randint_draw d) \<le> 100)"
proof -
  assume lo: "np_min p = Some lo" and hi: "np_max p = Some hi" and le: "num_val lo \<le> num_val hi"
  have ne: "p \<noteq> empty_pattern" using lo by (rule nonempty_pattern)
  have A: "generate_number_value p d = Inr (Some (uniform_value p d))
          \<and> num_val lo \<le> uniform_value p d \<and> uniform_value p d \<le> num_val hi"
    if asm: "(np_distribution p = None \<or> np_distribution p = Some (KindName ''uniform''))
        \<and> 0 \<le> uniform_draw d \<and> uniform_draw d < 1"
  proof -
    have "generate_number_value p d = Inr (Some (uniform_value p d))"
      using asm ne by (auto simp: generate_number_value_def opt_get_def)
    then show ?thesis using uniform_value_bounds [OF lo hi le] asm by simp
  qed
  have B: "\<exists>v. generate_number_value p d = Inr (Some v) \<and> num_val lo \<le> v \<and> v \<le> num_val hi"
    if asm: "np_distribution p = Some (KindName ''lognormal'') \<and> 0 \<le> opt_get (np_std p) 1
        \<and> lo = PyInt l \<and> hi = PyInt h"
  proof -
    have "l \<le> h" using le asm by simp
    then obtain v where "lognormal_value p d = Inr v" "real_of_int l \<le> v" "v \<le> real_of_int h"
      using lognormal_value_bounds [of p l h d] lo hi asm by auto
    then show ?thesis using asm ne by (simp add: generate_number_value_def opt_get_def)
  qed
  have C: "\<exists>v. generate_number_value p d = Inr (Some v) \<and> num_val lo \<le> v \<and> v \<le> num_val hi"
    if asm: "np_distribution p = Some (KindWeights ws) \<and> lo = PyInt l \<and> hi = PyInt h
        \<and> length ws = nat (h - l + 1) \<and> 0 < sum_list ws"
  proof -
    have "l \<le> h" using le asm by simp
    then obtain v where "discrete_value p ws d = Inr v" "real_of_int l \<le> v" "v \<le> real_of_int h"
      using discrete_value_bounds [of p l h ws d] lo hi asm by auto
    then show ?thesis using asm ne by (simp add: generate_number_value_def opt_get_def)
  qed
  have D: "\<exists>v. generate_number_value p d = Inr (Some v) \<and> num_val lo \<le> v \<and> v \<le> num_val hi"
    if asm: "np_distribution p = Some (KindName ''normal'') \<and> 0 \<le> opt_get (np_std p) 15
        \<and> multiple_of (rounding_unit (num_val hi)) (num_val lo)
        \<and> multiple_of (rounding_unit (num_val hi)) (num_val hi)"
  proof -
    let ?v = "round_for (num_val hi) (clamp (num_val lo) (num_val hi) (normal_draw d))"
    have "normal_value p d = Inr ?v" using normal_value_eq [OF lo hi] asm by simp
    then have "generate_number_value p d = Inr (Some ?v)"
      using asm ne by (simp add: generate_number_value_def opt_get_def)
    moreover have "num_val lo \<le> ?v \<and> ?v \<le> num_val hi"
      using round_for_bounds [of "num_val hi" "num_val lo"] clamp_bounds [OF le] asm by simp
    ultimately show ?thesis by blast
  qed
  have E: "generate_number_value p d = Inr (Some (real_of_int (randint_draw d)))
          \<and> 1 \<le> real_of_int (randint_draw d) \<and> real_of_int (randint_draw d) \<le> 100"
    if asm: "np_distribution p = Some (KindName k) \<and> k \<notin> set [''uniform'', ''normal'', ''lognormal'']
        \<and> 1 \<le> randint_draw d \<and> randint_draw d \<le> 100"
    using asm ne by (simp add: generate_number_value_def opt_get_def)
  show ?thesis using A B C D E by blast
qed

text \<open>
  A kind name that the generator does not know (no pattern of the table has one): with the
  bounds \<open>[200, 300]\<close> and the kind \<open>exponential\<close> the value is the integer drawn from
  \<open>[1, 100]\<close>, here 50, below the minimum.
\<close>

lemma unknown_kind_ignores_bounds:
  "generate_number_value
     \<lparr>np_min = Some (PyInt 200), np_max = Some (PyInt 300),
      np_distribution = Some (KindName ''exponential''), np_mean = None, np_std = None\<rparr>
     \<lparr>uniform_draw = 0, normal_draw = 0, lognormal_draw = 1, choices_draw = 0,
      randint_draw = 50\<rparr> = Inr (Some 50)
   \<and> \<not> (num_val (PyInt 200) \<le> 50)"
  by (simp add: generate_number_value_def opt_get_def empty_pattern_def)

text \<open>
  Patterns of the table at which the value is not within the bounds. The kind \<open>normal\<close>
  clamps the draw into \<open>[min, max]\<close> and rounds afterwards: \<open>resource_hours\<close> (operations)
  has the bounds \<open>[1, 160]\<close> and rounds to tens, so the draw 3 gives 0. A list of weights
  whose length differs from the number of integers in \<open>[min, max]\<close> makes \<open>random.choices\<close>
  raise \<open>ValueError\<close>: \<open>story_points\<close> (engineering) has 7 weights for 13 values,
  \<open>creative_assets\<close> (marketing) 10 for 20 and \<open>probability\<close> (sales) 10 for 100.
\<close>

lemma resource_hours_pattern:
  "get_field_value_distribution field_value_patterns_init ''number'' ''resource_hours''
     ''operations'' ''process_improvement''
   = Some (NumberPattern \<lparr>np_min = Some (PyInt 1), np_max = Some (PyInt 160),
             np_distribution = Some (KindName ''normal''), np_mean = Some 40, np_std = Some 30\<rparr>)"
  by (simp add: get_field_value_distribution_def field_value_patterns_init_def
      number_patterns_init_def dept_patterns_of_def dict_get_def resolve_def lower_def
      lower_char_def)

lemma py_round_three_tenths: "py_round (3 / 10) = 0"
  by (simp add: py_round_def Let_def)

lemma resource_hours_below_minimum:
  "generate_number_field field_value_patterns_init ''resource_hours'' ''operations''
     ''process_improvement''
     \<lparr>uniform_draw = 0, normal_draw = 3, lognormal_draw = 1, choices_draw = 0, randint_draw = 1\<rparr>
   = Inr (Some 0)"
  unfolding generate_number_field_def resource_hours_pattern
  by (simp add: generate_number_value_def normal_value_def opt_get_def empty_pattern_def
      round_to_def py_round_three_tenths)

lemma story_points_raises:
  "generate_number_field field_value_patterns_init ''story_points'' ''engineering'' ''sprint'' d
   = Inl ValueError"
proof -
  have "get_field_value_distribution field_value_patterns_init ''number'' ''story_points''
     ''engineering'' ''sprint''
   = Some (NumberPattern \<lparr>np_min = Some (PyInt 1), np_max = Some (PyInt 13),
             np_distribution = Some (KindWeights
               [1 / 10, 2 / 10, 3 / 10, 2 / 10, 1 / 10, 5 / 100, 5 / 100]),
             np_mean = None, np_std = None\<rparr>)"
    by (simp add: get_field_value_distribution_def field_value_patterns_init_def
      number_patterns_init_def dept_patterns_of_def dict_get_def resolve_def lower_def
      lower_char_def)
  then show ?thesis
    by (simp add: generate_number_field_def generate_number_value_def discrete_value_def
        opt_get_def empty_pattern_def choices_def accumulate_from_length Let_def)
qed

lemma creative_assets_raises:
  "generate_number_field field_value_patterns_init ''creative_assets'' ''marketing'' ''campaign'' d
   = Inl ValueError"
proof -
  have "get_field_value_distribution field_value_patterns_init ''number'' ''creative_assets''
     ''marketing'' ''campaign''
   = Some (NumberPattern \<lparr>np_min = Some (PyInt 1), np_max = Some (PyInt 20),
             np_distribution = Some (KindWeights
               [1 / 10, 2 / 10, 3 / 10, 2 / 10, 1 / 10, 5 / 100, 3 / 100, 1 / 100, 5 / 1000,
                5 / 1000]),
             np_mean = None, np_std = None\<rparr>)"
    by (simp add: get_field_value_distribution_def field_value_patterns_init_def
      number_patterns_init_def dept_patterns_of_def dict_get_def resolve_def lower_def
      lower_char_def)
  then show ?thesis
    by (simp add: generate_number_field_def generate_number_value_def discrete_value_def
        opt_get_def empty_pattern_def choices_def accumulate_from_length Let_def)
qed

lemma probability_raises:
  "generate_number_field field_value_patterns_init ''probability'' ''sales'' ''sales_pipeline'' d
   = Inl ValueError"
proof -
  have "get_field_value_distribution field_value_patterns_init ''number'' ''probability''
     ''sales'' ''sales_pipeline''
   = Some (NumberPattern \<lparr>np_min = Some (PyInt 1), np_max = Some (PyInt 100),
             np_distribution = Some (KindWeights
               [5 / 100, 5 / 100, 1 / 10, 15 / 100, 2 / 10, 2 / 10, 15 / 100, 5 / 100, 3 / 100,
                2 / 100]),
             np_mean = None, np_std = None\<rparr>)"
    by (simp add: get_field_value_distribution_def field_value_patterns_init_def
      number_patterns_init_def dept_patterns_of_def dict_get_def resolve_def lower_def
      lower_char_def)
  then show ?thesis
    by (simp add: generate_number_field_def generate_number_value_def discrete_value_def
        opt_get_def empty_pattern_def choices_def accumulate_from_length Let_def)
qed

text \<open>
  Claim C3 on the patterns of the table. For \<open>resource_hours\<close> of the operations
  department the resolved pattern has the minimum 1, and with the normal draw 3 the value
  produced is 0, below the minimum: the draw is clamped into the bounds and then rounded to
  tens. For \<open>story_points\<close>, \<open>creative_assets\<close> and \<open>probability\<close> no value is produced,
  whatever the draws: the call raises \<open>ValueError\<close>.
\<close>

theorem number_value_outside_bounds:
  "get_field_value_distribution field_value_patterns_init ''number'' ''resource_hours''
     ''operations'' ''process_improvement''
   = Some (NumberPattern \<lparr>np_min = Some (PyInt 1), np_max = Some (PyInt 160),
             np_distribution = Some (KindName ''normal''), np_mean = Some 40, np_std = Some 30\<rparr>)
   \<and> generate_number_field field_value_patterns_init ''resource_hours'' ''operations''
        ''process_improvement''
        \<lparr>uniform_draw = 0, normal_draw = 3, lognormal_draw = 1, choices_draw = 0,
         randint_draw = 1\<rparr>
      = Inr (Some 0)
   \<and> (0 :: real) < num_val (PyInt 1)
   \<and> generate_number_field field_value_patterns_init ''story_points'' ''engineering'' ''sprint'' d
      = Inl ValueError
   \<and> generate_number_field field_value_patterns_init ''creative_assets'' ''marketing''
        ''campaign'' d
      = Inl ValueError
   \<and> generate_number_field field_value_patterns_init ''probability'' ''sales''
        ''sales_pipeline'' d
      = Inl ValueError"
proof -
  have "(0 :: real) < num_val (PyInt 1)" by simp
  then show ?thesis
    using resource_hours_pattern resource_hours_below_minimum story_points_raises [of d]
      creative_assets_raises [of d] probability_raises [of d]
    by (intro conjI) (simp_all only: simp_thms)
qed

text \<open>
  Claim C2, as amended. In the custom-field generator the kinds \<open>normal\<close> and \<open>lognormal\<close>
  draw once: the value is the draw clamped into \<open>[min, max]\<close> and rounded; there is no retry
  and the mean plays no part. The policy of up to 10 attempts with the mean as the
  fallback is that of the comment generator's offset: when none of the 10 draws lies within
  the bounds the offset is exactly the mean, and otherwise it is the first draw within
  the bounds.
\<close>

theorem bounded_sampling_policy:
  "(np_min p = Some lo \<and> np_max p = Some hi \<and> np_distribution p = Some (KindName ''normal'')
      \<and> 0 \<le> opt_get (np_std p) 15
    \<longrightarrow> generate_number_value p d
          = Inr (Some (round_for (num_val hi) (clamp (num_val lo) (num_val hi) (normal_draw d)))))
   \<and> (np_min p = Some lo \<and> np_max p = Some hi \<and> np_distribution p = Some (KindName ''lognormal'')
      \<and> 0 \<le> opt_get (np_std p) 1
    \<longrightarrow> generate_number_value p d
          = Inr (Some (real_of_int (py_round (clamp (num_val lo) (num_val hi) (lognormal_draw d))))))
   \<and> ((\<forall>j < 10. \<not> (tc_min timing \<le> draws j \<and> draws j \<le> tc_max timing))
    \<longrightarrow> draw_offset_hours timing draws = tc_mean timing)
   \<and> (k < 10 \<and> tc_min timing \<le> draws k \<and> draws k \<le> tc_max timing
      \<and> (\<forall>j < k. \<not> (tc_min timing \<le> draws j \<and> draws j \<le> tc_max timing))
    \<longrightarrow> draw_offset_hours timing draws = draws k)"
proof (intro conjI impI)
  assume a: "np_min p = Some lo \<and> np_max p = Some hi
      \<and> np_distribution p = Some (KindName ''normal'') \<and> 0 \<le> opt_get (np_std p) 15"
  then have "p \<noteq> empty_pattern" by (simp add: nonempty_pattern)
  then show "generate_number_value p d
          = Inr (Some (round_for (num_val hi) (clamp (num_val lo) (num_val hi) (normal_draw d))))"
    using a normal_value_eq [of p lo hi d]
    by (simp add: generate_number_value_def opt_get_def)
next
  assume a: "np_min p = Some lo \<and> np_max p = Some hi
      \<and> np_distribution p = Some (KindName ''lognormal'') \<and> 0 \<le> opt_get (np_std p) 1"
  then have "p \<noteq> empty_pattern" by (simp add: nonempty_pattern)
  then show "generate_number_value p d
          = Inr (Some (real_of_int (py_round (clamp (num_val lo) (num_val hi) (lognormal_draw d)))))"
    using a lognormal_value_eq [of p lo hi d]
    by (simp add: generate_number_value_def opt_get_def)
next
  assume "\<forall>j < 10. \<not> (tc_min timing \<le> draws j \<and> draws j \<le> tc_max timing)"
  then show "draw_offset_hours timing draws = tc_mean timing"
    using offset_attempts_exhausted [of 10 timing draws 0] by (simp add: draw_offset_hours_def)
next
  assume "k < 10 \<and> tc_min timing \<le> draws k \<and> draws k \<le> tc_max timing
      \<and> (\<forall>j < k. \<not> (tc_min timing \<le> draws j \<and> draws j \<le> tc_max timing))"
  then show "draw_offset_hours timing draws = draws k"
    using offset_attempts_accepted [of k 10 timing draws 0] by (simp add: draw_offset_hours_def)
qed

text \<open>
  The claim as stated, on the custom-field generator: with the window \<open>[60, 70]\<close>, the mean
  50 and the standard deviation 1, a draw of 50 returns the boundary 60, not the mean.
\<close>

theorem bounded_sampling_counterexample:
  "generate_number_value
     \<lparr>np_min = Some (PyInt 60), np_max = Some (PyInt 70),
      np_distribution = Some (KindName ''normal''), np_mean = Some 50, np_std = Some 1\<rparr>
     \<lparr>uniform_draw = 0, normal_draw = 50, lognormal_draw = 1, choices_draw = 0,
      randint_draw = 1\<rparr> = Inr (Some 60)
   \<and> (60 :: real) \<noteq> 50"
  by (simp add: generate_number_value_def normal_value_def opt_get_def empty_pattern_def
      round_tenths_def py_round_def Let_def)

lemma deal_size_entry:
  "number_pattern_of ''sales'' ''deal_size'' =
     \<lparr>np_min = Some (PyInt 1000), np_max = Some (PyInt 1000000),
      np_distribution = Some (KindName ''lognormal''), np_mean = Some 50000, np_std = Some 2\<rparr>"
  by (simp add: number_pattern_of_def number_patterns_init_def dept_patterns_of_def dict_get_def
      resolve_def)

lemma priority_entry:
  "number_pattern_of ''engineering'' ''priority'' =
     \<lparr>np_min = Some (PyInt 1), np_max = Some (PyInt 5),
      np_distribution = Some (KindWeights [5 / 100, 15 / 100, 4 / 10, 3 / 10, 1 / 10]),
      np_mean = None, np_std = None\<rparr>"
  by (simp add: number_pattern_of_def number_patterns_init_def dept_patterns_of_def dict_get_def
      resolve_def)

lemma timeline_weeks_entry:
  "number_pattern_of ''sales'' ''timeline_weeks'' =
     \<lparr>np_min = Some (PyInt 1), np_max = Some (PyInt 26),
      np_distribution = Some (KindName ''normal''), np_mean = Some 8, np_std = Some 4\<rparr>"
  by (simp add: number_pattern_of_def number_patterns_init_def dept_patterns_of_def dict_get_def
      resolve_def)

lemma ice_score_entry:
  "number_pattern_of ''product'' ''ice_score'' =
     \<lparr>np_min = Some (PyInt 1), np_max = Some (PyInt 100),
      np_distribution = Some (KindName ''normal''), np_mean = Some 50, np_std = Some 20\<rparr>"
  by (simp add: number_pattern_of_def number_patterns_init_def dept_patterns_of_def dict_get_def
      resolve_def)

lemma unknown_entry: "number_pattern_of ''legal'' ''zzz'' = generic_number_pattern"
  by (simp add: number_pattern_of_def number_patterns_init_def dept_patterns_of_def dict_get_def
      resolve_def)

lemma number_value_bounds_examples:
  "(0 \<le> uniform_draw example_draws \<and> uniform_draw example_draws < 1
      \<and> np_distribution (number_pattern_of ''legal'' ''zzz'') = Some (KindName ''uniform'')
      \<and> generate_number_value (number_pattern_of ''legal'' ''zzz'') example_draws
           = Inr (Some (uniform_value (number_pattern_of ''legal'' ''zzz'') example_draws))
      \<and> 1 \<le> uniform_value (number_pattern_of ''legal'' ''zzz'') example_draws
      \<and> uniform_value (number_pattern_of ''legal'' ''zzz'') example_draws \<le> 100)
   \<and> (np_distribution (number_pattern_of ''sales'' ''deal_size'') = Some (KindName ''lognormal'')
      \<and> (\<exists>v. generate_number_value (number_pattern_of ''sales'' ''deal_size'') example_draws
                = Inr (Some v) \<and> 1000 \<le> v \<and> v \<le> 1000000))
   \<and> (length [5 / 100, 15 / 100, 4 / 10, 3 / 10, 1 / 10 :: real] = nat (5 - 1 + 1)
      \<and> (\<exists>v. generate_number_value (number_pattern_of ''engineering'' ''priority'') example_draws
                = Inr (Some v) \<and> 1 \<le> v \<and> v \<le> 5))
   \<and> (multiple_of (rounding_unit 26) 1 \<and> multiple_of (rounding_unit 26) 26
      \<and> (\<exists>v. generate_number_value (number_pattern_of ''sales'' ''timeline_weeks'') example_draws
                = Inr (Some v) \<and> 1 \<le> v \<and> v \<le> 26))
   \<and> (''exponential'' \<notin> set [''uniform'', ''normal'', ''lognormal'']
      \<and> 1 \<le> randint_draw example_draws \<and> randint_draw example_draws \<le> 100
      \<and> generate_number_value exotic_pattern example_draws = Inr (Some 50))"
proof -
  have u: "0 \<le> uniform_draw example_draws \<and> uniform_draw example_draws < 1"
    by (simp add: example_draws_def)
  have r: "1 \<le> randint_draw example_draws \<and> randint_draw example_draws \<le> 100"
    "real_of_int (randint_draw example_draws) = 50"
    by (simp_all add: example_draws_def)
  have m: "multiple_of (rounding_unit 26) 1 \<and> multiple_of (rounding_unit 26) 26"
    by (simp add: multiple_of_def rounding_unit_def)
  have w: "length [5 / 100, 15 / 100, 4 / 10, 3 / 10, 1 / 10 :: real] = nat (5 - 1 + 1)"
    "0 < sum_list [5 / 100, 15 / 100, 4 / 10, 3 / 10, 1 / 10 :: real]"
    by simp_all
  have x: "''exponential'' \<notin> set [''uniform'', ''normal'', ''lognormal'']" by simp
  have A: "generate_number_value (number_pattern_of ''legal'' ''zzz'') example_draws
           = Inr (Some (uniform_value (number_pattern_of ''legal'' ''zzz'') example_draws))
      \<and> 1 \<le> uniform_value (number_pattern_of ''legal'' ''zzz'') example_draws
      \<and> uniform_value (number_pattern_of ''legal'' ''zzz'') example_draws \<le> 100"
    using number_value_bounds
            [where p = "number_pattern_of ''legal'' ''zzz''" and lo = "PyInt 1" and hi = "PyInt 100"
               and d = example_draws and l = 1 and h = 100 and ws = "[]" and k = "''uniform''",
             THEN conjunct1] u
    by (simp add: unknown_entry generic_number_pattern_def)
  have B: "\<exists>v. generate_number_value (number_pattern_of ''sales'' ''deal_size'') example_draws
                = Inr (Some v) \<and> 1000 \<le> v \<and> v \<le> 1000000"
    using number_value_bounds
            [where p = "number_pattern_of ''sales'' ''deal_size''" and lo = "PyInt 1000"
               and hi = "PyInt 1000000" and d = example_draws and l = 1000 and h = 1000000
               and ws = "[]" and k = "''lognormal''",
             THEN conjunct2, THEN conjunct1]
    by (simp add: deal_size_entry opt_get_def)
  have C: "\<exists>v. generate_number_value (number_pattern_of ''engineering'' ''priority'') example_draws
                = Inr (Some v) \<and> 1 \<le> v \<and> v \<le> 5"
    using number_value_bounds
            [where p = "number_pattern_of ''engineering'' ''priority''" and lo = "PyInt 1"
               and hi = "PyInt 5" and d = example_draws and l = 1 and h = 5
               and ws = "[5 / 100, 15 / 100, 4 / 10, 3 / 10, 1 / 10]" and k = "''x''",
             THEN conjunct2, THEN conjunct2, THEN conjunct1] w
    by (simp add: priority_entry)
  have D: "\<exists>v. generate_number_value (number_pattern_of ''sales'' ''timeline_weeks'') example_draws
                = Inr (Some v) \<and> 1 \<le> v \<and> v \<le> 26"
    using number_value_bounds
            [where p = "number_pattern_of ''sales'' ''timeline_weeks''" and lo = "PyInt 1"
               and hi = "PyInt 26" and d = example_draws and l = 1 and h = 26
               and ws = "[]" and k = "''normal''",
             THEN conjunct2, THEN conjunct2, THEN conjunct2, THEN conjunct1] m
    by (simp add: timeline_weeks_entry opt_get_def)
  have E: "generate_number_value exotic_pattern example_draws = Inr (Some 50)"
    using number_value_bounds
            [where p = exotic_pattern and lo = "PyInt 200" and hi = "PyInt 300"
               and d = example_draws and l = 200 and h = 300
               and ws = "[]" and k = "''exponential''",
             THEN conjunct2, THEN conjunct2, THEN conjunct2, THEN conjunct2] r x
    by (simp add: exotic_pattern_def)
  have k1: "np_distribution (number_pattern_of ''legal'' ''zzz'') = Some (KindName ''uniform'')"
    by (simp add: unknown_entry generic_number_pattern_def)
  have k2: "np_distribution (number_pattern_of ''sales'' ''deal_size'') = Some (KindName ''lognormal'')"
    by (simp add: deal_size_entry)
  from u k1 A k2 B w(1) C m D x r(1) E
  show ?thesis by (intro conjI) (simp_all only: simp_thms)
qed

theorem bounded_sampling_policy_witness:
  "generate_number_value (number_pattern_of ''product'' ''ice_score'')
       (example_draws\<lparr>normal_draw := 150\<rparr>) = Inr (Some 100)
   \<and> generate_number_value (number_pattern_of ''sales'' ''deal_size'')
       (example_draws\<lparr>lognormal_draw := 5000000\<rparr>) = Inr (Some 1000000)
   \<and> \<not> (tc_min slow_timing \<le> 2 \<and> 2 \<le> tc_max slow_timing)
   \<and> draw_offset_hours slow_timing (\<lambda>i. 2) = 2
   \<and> (3 :: nat) < 10
   \<and> draw_offset_hours slow_timing (\<lambda>i. if i = 3 then 12 else 2) = 12"
proof -
  have A: "generate_number_value (number_pattern_of ''product'' ''ice_score'')
       (example_draws\<lparr>normal_draw := 150\<rparr>) = Inr (Some 100)"
    using bounded_sampling_policy
            [where p = "number_pattern_of ''product'' ''ice_score''" and lo = "PyInt 1"
               and hi = "PyInt 100" and d = "example_draws\<lparr>normal_draw := 150\<rparr>"
               and timing = slow_timing and draws = "\<lambda>i. 2" and k = 3,
             THEN conjunct1]
    by (simp add: ice_score_entry opt_get_def round_for_def clamp_def round_tenths_def
        py_round_def Let_def)
  have B: "generate_number_value (number_pattern_of ''sales'' ''deal_size'')
       (example_draws\<lparr>lognormal_draw := 5000000\<rparr>) = Inr (Some 1000000)"
    using bounded_sampling_policy
            [where p = "number_pattern_of ''sales'' ''deal_size''" and lo = "PyInt 1000"
               and hi = "PyInt 1000000" and d = "example_draws\<lparr>lognormal_draw := 5000000\<rparr>"
               and timing = slow_timing and draws = "\<lambda>i. 2" and k = 3,
             THEN conjunct2, THEN conjunct1]
    by (simp add: deal_size_entry opt_get_def clamp_def py_round_def Let_def)
  have h: "\<forall>j < 10. \<not> (tc_min slow_timing \<le> (\<lambda>i. 2) j \<and> (\<lambda>i. 2) j \<le> tc_max slow_timing)"
    by (simp add: slow_timing_def)
  have C: "draw_offset_hours slow_timing (\<lambda>i. 2) = 2"
    using bounded_sampling_policy
            [where p = "number_pattern_of ''product'' ''ice_score''" and lo = "PyInt 1"
               and hi = "PyInt 100" and d = example_draws
               and timing = slow_timing and draws = "\<lambda>i. 2" and k = 3,
             THEN conjunct2, THEN conjunct2, THEN conjunct1] h
    by (simp add: slow_timing_def)
  have D: "draw_offset_hours slow_timing (\<lambda>i. if i = 3 then 12 else 2) = 12"
    using bounded_sampling_policy
            [where p = "number_pattern_of ''product'' ''ice_score''" and lo = "PyInt 1"
               and hi = "PyInt 100" and d = example_draws
               and timing = slow_timing and draws = "\<lambda>i. if i = 3 then 12 else 2" and k = 3,
             THEN conjunct2, THEN conjunct2, THEN conjunct2]
    by (simp add: slow_timing_def)
  have l: "(3 :: nat) < 10" by simp
  have o: "\<not> (tc_min slow_timing \<le> 2 \<and> 2 \<le> tc_max slow_timing)"
    by (simp add: slow_timing_def)
  from A B o C l D show ?thesis by (intro conjI) (simp_all only: simp_thms)
qed

subsection \<open>Task lifecycle\<close>

lemma completion_hour_choice:
  "choices [0..23]
     (map (\<lambda>w. w / (75 / 100))
        (replicate 9 (1 / 100) @ replicate 4 (3 / 100) @ replicate 2 (12 / 100)
          @ replicate 3 (6 / 100) @ replicate 6 (2 / 100))) (99 / 100) = Inr 23"
  by code_simp

lemma minute_range_first: "choices [0 ..< length minute_weights] minute_weights 0 = Inr 0"
  by code_simp

lemma minute_range_sixth: "choices [0 ..< length minute_weights] minute_weights (85 / 100) = Inr 5"
  by code_simp

lemma completion_weights:
  "dict_get hour_weights ''task_completion'' (the (hour_weights ''task_creation''))
     = replicate 9 (1 / 100) @ replicate 4 (3 / 100) @ replicate 2 (12 / 100)
          @ replicate 3 (6 / 100) @ replicate 6 (2 / 100)"
  by (simp add: hour_weights_def dict_get_def)

lemma completion_weights_total:
  "sum_list (replicate 9 (1 / 100) @ replicate 4 (3 / 100) @ replicate 2 (12 / 100)
          @ replicate 3 (6 / 100) @ replicate 6 (2 / 100) :: real list) = 75 / 100"
  by (simp add: sum_list_replicate)

lemma total_positive: "((75 / 100 :: real) > 0) = True"
  by simp

lemma monday_draws:
  "hour_u monday_evening_draws = 99 / 100" "minute_range_u monday_evening_draws = 0"
  "completion_minute monday_evening_draws = 0" "completion_second monday_evening_draws = 0"
  "completion_u monday_evening_draws = 0" "base_hours_draw monday_evening_draws = 1"
  "hours_until_start_draw monday_evening_draws = 1"
  "start_minute monday_evening_draws = 0" "start_second monday_evening_draws = 0"
  by (simp_all add: monday_evening_draws_def)

lemma work_hours_monday:
  "get_random_time_in_work_hours 63903321720000000 ''task_completion'' monday_evening_draws
     = Inr 63903337200000000"
  unfolding get_random_time_in_work_hours_def Let_def completion_weights completion_weights_total
    total_positive if_True monday_draws completion_hour_choice minute_range_first then_do_def
    sum.case
  by (simp add: minute_ranges_def toordinal_def DAY_US_def HOUR_US_def)

lemma work_hours_index_error:
  "get_random_time_in_work_hours 63903321720000000 ''task_completion''
     (monday_evening_draws\<lparr>minute_range_u := 85 / 100\<rparr>) = Inl IndexError"
proof -
  have d: "hour_u (monday_evening_draws\<lparr>minute_range_u := 85 / 100\<rparr>) = 99 / 100"
    "minute_range_u (monday_evening_draws\<lparr>minute_range_u := 85 / 100\<rparr>) = 85 / 100"
    by (simp_all add: monday_evening_draws_def)
  show ?thesis
    unfolding get_random_time_in_work_hours_def Let_def completion_weights
      completion_weights_total total_positive if_True d completion_hour_choice
      minute_range_sixth then_do_def sum.case
    by (simp add: minute_ranges_def)
qed

lemma td_hours_monday: "td_hours (12 / 10) = 4320000000" "td_hours (6 / 10) = 2160000000"
  by (simp_all add: td_hours_def py_round_def Let_def)

lemma monday_is_business_day:
  "is_business_day holidays_january_2026 (toordinal 63903321720000000)"
  "is_business_day holidays_january_2026 (toordinal 63903319560000000)"
  by (simp_all add: is_business_day_def holidays_january_2026_ordinals toordinal_def DAY_US_def)

lemma completion_monday:
  "generate_completion_timestamp holidays_january_2026 63903317400000000 None
     ''engineering'' ''sprint'' d = 
   then_do (dt_add 63903317400000000 (td_hours (max 1 (min (base_hours_draw d) 336) * (12 / 10))))
     (\<lambda>t. if is_business_day holidays_january_2026 (toordinal t)
           then get_random_time_in_work_hours t ''task_completion'' d
           else Inr (replace_hms t (min (max (hour_of t) 9) 20) (completion_minute d)
                       (completion_second d)))"
  by (simp add: generate_completion_timestamp_def dict_get_def dept_multipliers_def
      completion_acceleration_def then_do_def split: sum.splits)

lemma completion_monday_value:
  "generate_completion_timestamp holidays_january_2026 63903317400000000 None
     ''engineering'' ''sprint'' monday_evening_draws = Inr 63903337200000000"
proof -
  have a: "dt_add 63903317400000000 4320000000 = Inr 63903321720000000"
    by (simp add: dt_add_def valid_datetime_def toordinal_def DAY_US_def MAXORDINAL_def)
  have m: "max 1 (min (1 :: real) 336) * (12 / 10) = 12 / 10" by simp
  show ?thesis
    unfolding completion_monday monday_draws m td_hours_monday a then_do_def sum.case
    using monday_is_business_day(1) work_hours_monday by simp
qed

lemma started_monday_value:
  "generate_started_timestamp holidays_january_2026 63903317400000000 63903337200000000
     ''engineering'' ''sprint'' monday_evening_draws = Inr 63903315600000000"
proof -
  have h: "max (5 / 10) (min (1 :: real) 168)
             * (dict_get start_dept_adjustments ''engineering'' 1
                  * dict_get start_project_adjustments ''sprint'' 1) = 6 / 10"
    by (simp add: dict_get_def start_dept_adjustments_def start_project_adjustments_def)
  have a: "dt_add 63903317400000000 2160000000 = Inr 63903319560000000"
    "dt_add 63903337200000000 (- (30 * MINUTE_US)) = Inr 63903335400000000"
    "dt_add 63903317400000000 (5 * MINUTE_US) = Inr 63903317700000000"
    by (simp_all add: dt_add_def valid_datetime_def toordinal_def DAY_US_def MAXORDINAL_def
        MINUTE_US_def)
  show ?thesis
    unfolding generate_started_timestamp_def Let_def monday_draws h td_hours_monday a
      then_do_def sum.case
    using monday_is_business_day(2)
    by (simp add: replace_hms_def hour_of_def microsecond_of_def toordinal_def DAY_US_def
        HOUR_US_def MINUTE_US_def SECOND_US_def)
qed

lemma dt_2026_01_05_1730: "mk_datetime 2026 1 5 17 30 0 = 63903317400000000"
  by (simp add: dt_defs)

lemma dt_2026_01_05_1700: "mk_datetime 2026 1 5 17 0 0 = 63903315600000000"
  by (simp add: dt_defs)

lemma dt_2026_01_05_2300: "mk_datetime 2026 1 5 23 0 0 = 63903337200000000"
  by (simp add: dt_defs)

lemma monday_probability:
  "get_completion_probability ''engineering'' ''sprint'' 63903317400000000 None = 8 / 10"
  by (simp add: get_completion_probability_def dict_get_def base_rates_def
        completion_project_adjustments_def weekday_def toordinal_def DAY_US_def)

lemma monday_evening_lifecycle:
  "generate_task_lifecycle holidays_january_2026 (mk_datetime 2026 1 5 17 30 0) None
     ''engineering'' ''sprint'' monday_evening_draws
   = Inr \<lparr>lc_created_at = mk_datetime 2026 1 5 17 30 0,
          lc_started_at = Some (mk_datetime 2026 1 5 17 0 0),
          lc_completed_at = Some (mk_datetime 2026 1 5 23 0 0),
          lc_cycle_time_days = Some (1 / 4), lc_lead_time_days = Some (11 / 48)\<rparr>"
  unfolding dt_2026_01_05_1730 dt_2026_01_05_1700 dt_2026_01_05_2300
    generate_task_lifecycle_def Let_def monday_probability monday_draws
    completion_monday_value started_monday_value then_do_def sum.case
  by (simp add: td_total_seconds_def)

text \<open>
  With the sixth or seventh range of minutes drawn (probability 0.2), the list of five
  ranges is read out of range and the call raises \<open>IndexError\<close>.
\<close>

lemma monday_evening_index_error:
  "generate_task_lifecycle holidays_january_2026 (mk_datetime 2026 1 5 17 30 0) None
     ''engineering'' ''sprint'' (monday_evening_draws\<lparr>minute_range_u := 85 / 100\<rparr>)
   = Inl IndexError"
proof -
  let ?d = "monday_evening_draws\<lparr>minute_range_u := 85 / 100\<rparr>"
  have d: "completion_u ?d = 0" "base_hours_draw ?d = 1"
    by (simp_all add: monday_evening_draws_def)
  have a: "dt_add 63903317400000000 4320000000 = Inr 63903321720000000"
    by (simp add: dt_add_def valid_datetime_def toordinal_def DAY_US_def MAXORDINAL_def)
  have m: "max 1 (min (1 :: real) 336) * (12 / 10) = 12 / 10" by simp
  have c: "generate_completion_timestamp holidays_january_2026 63903317400000000 None
     ''engineering'' ''sprint'' ?d = Inl IndexError"
    unfolding completion_monday d m td_hours_monday a then_do_def sum.case
    using monday_is_business_day(1) work_hours_index_error by simp
  show ?thesis
    unfolding dt_2026_01_05_1730 generate_task_lifecycle_def Let_def monday_probability d c
      then_do_def sum.case
    by simp
qed

text \<open>
  The metrics of a completed task: whenever the call returns a record with \<open>completed_at\<close>
  set, \<open>created_at\<close> is the argument, \<open>started_at\<close> is set, \<open>cycle_time_days\<close> is
  \<open>completed_at - started_at\<close> in days and \<open>lead_time_days\<close> is
  \<open>completed_at - created_at\<close> in days.
\<close>

lemma lifecycle_completed:
  assumes "generate_task_lifecycle cal created_at due_date department project_type draws = Inr lc"
    and "lc_completed_at lc = Some completed_at"
  shows "lc_created_at lc = created_at
     \<and> (\<exists>started_at. lc_started_at lc = Some started_at
            \<and> lc_cycle_time_days lc = Some (td_total_seconds (completed_at - started_at) / 86400))
     \<and> lc_lead_time_days lc = Some (td_total_seconds (completed_at - created_at) / 86400)"
proof (cases "completion_u draws
                < get_completion_probability department project_type created_at due_date")
  case False
  then have "lc_completed_at lc = None"
    using assms(1) by (auto simp: generate_task_lifecycle_def)
  then show ?thesis using assms(2) by simp
next
  case True
  then obtain c s where
    lc: "lc = \<lparr>lc_created_at = created_at, lc_started_at = Some s, lc_completed_at = Some c,
                lc_cycle_time_days = Some (td_total_seconds (c - s) / 86400),
                lc_lead_time_days = Some (td_total_seconds (c - created_at) / 86400)\<rparr>"
    using assms(1)
    by (auto simp: generate_task_lifecycle_def then_do_def split: sum.splits)
  then have "c = completed_at" using assms(2) by simp
  then show ?thesis using lc by simp
qed

lemma lifecycle_not_completed:
  assumes "\<not> completion_u draws
             < get_completion_probability department project_type created_at due_date"
  shows "generate_task_lifecycle cal created_at due_date department project_type draws
           = Inr \<lparr>lc_created_at = created_at, lc_started_at = None, lc_completed_at = None,
                   lc_cycle_time_days = None, lc_lead_time_days = None\<rparr>"
  using assms by (simp add: generate_task_lifecycle_def)

lemma dt_2026_01_03_1058: "mk_datetime 2026 1 3 10 58 0 = 63903121080000000"
  by (simp add: dt_defs)

lemma dt_2026_01_03_1100: "mk_datetime 2026 1 3 11 0 0 = 63903121200000000"
  by (simp add: dt_defs)

lemma dt_2026_01_03_1103: "mk_datetime 2026 1 3 11 3 0 = 63903121380000000"
  by (simp add: dt_defs)

lemma saturday_draws:
  "completion_minute saturday_morning_draws = 0" "completion_second saturday_morning_draws = 0"
  "completion_u saturday_morning_draws = 0" "base_hours_draw saturday_morning_draws = 1"
  "hours_until_start_draw saturday_morning_draws = 1"
  by (simp_all add: saturday_morning_draws_def)

lemma saturday_probability:
  "get_completion_probability ''sales'' ''sprint'' 63903121080000000 None = 21 / 40"
  by (simp add: get_completion_probability_def dict_get_def base_rates_def
        completion_project_adjustments_def weekday_def toordinal_def DAY_US_def)

lemma td_hours_saturday: "td_hours (6 / 10) = 2160000000" "td_hours (42 / 100) = 1512000000"
  by (simp_all add: td_hours_def py_round_def Let_def)

lemma saturday_is_no_business_day:
  "\<not> is_business_day holidays_january_2026 (toordinal 63903123240000000)"
  "\<not> is_business_day holidays_january_2026 (toordinal 63903121380000000)"
  by (simp_all add: is_business_day_def holidays_january_2026_ordinals toordinal_def DAY_US_def)

lemma completion_saturday_value:
  "generate_completion_timestamp holidays_january_2026 63903121080000000 None
     ''sales'' ''sprint'' saturday_morning_draws = Inr 63903121200000000"
proof -
  have a: "dt_add 63903121080000000 2160000000 = Inr 63903123240000000"
    by (simp add: dt_add_def valid_datetime_def toordinal_def DAY_US_def MAXORDINAL_def)
  have m: "max 1 (min (1 :: real) 336) * dict_get dept_multipliers ''sales'' 1 = 6 / 10"
    by (simp add: dict_get_def dept_multipliers_def)
  show ?thesis
    unfolding generate_completion_timestamp_def Let_def saturday_draws m option.case
      td_hours_saturday a then_do_def sum.case
    using saturday_is_no_business_day(1)
    by (simp add: replace_hms_def hour_of_def microsecond_of_def toordinal_def DAY_US_def
        HOUR_US_def MINUTE_US_def SECOND_US_def)
qed

lemma started_saturday_value:
  "generate_started_timestamp holidays_january_2026 63903121080000000 63903121200000000
     ''sales'' ''sprint'' saturday_morning_draws = Inr 63903121380000000"
proof -
  have h: "max (5 / 10) (min (1 :: real) 168)
             * (dict_get start_dept_adjustments ''sales'' 1
                  * dict_get start_project_adjustments ''sprint'' 1) = 42 / 100"
    by (simp add: dict_get_def start_dept_adjustments_def start_project_adjustments_def)
  have a: "dt_add 63903121080000000 1512000000 = Inr 63903122592000000"
    "dt_add 63903121200000000 (- (30 * MINUTE_US)) = Inr 63903119400000000"
    "dt_add 63903121080000000 (5 * MINUTE_US) = Inr 63903121380000000"
    by (simp_all add: dt_add_def valid_datetime_def toordinal_def DAY_US_def MAXORDINAL_def
        MINUTE_US_def)
  show ?thesis
    unfolding generate_started_timestamp_def Let_def saturday_draws h td_hours_saturday a
      then_do_def sum.case
    using saturday_is_no_business_day(2)
    by simp
qed

lemma saturday_morning_lifecycle:
  "generate_task_lifecycle holidays_january_2026 (mk_datetime 2026 1 3 10 58 0) None
     ''sales'' ''sprint'' saturday_morning_draws
   = Inr \<lparr>lc_created_at = mk_datetime 2026 1 3 10 58 0,
          lc_started_at = Some (mk_datetime 2026 1 3 11 3 0),
          lc_completed_at = Some (mk_datetime 2026 1 3 11 0 0),
          lc_cycle_time_days = Some (- (1 / 480)), lc_lead_time_days = Some (1 / 720)\<rparr>"
  unfolding dt_2026_01_03_1058 dt_2026_01_03_1100 dt_2026_01_03_1103
    generate_task_lifecycle_def Let_def saturday_probability saturday_draws
    completion_saturday_value started_saturday_value then_do_def sum.case
  by (simp add: td_total_seconds_def)

lemma dt_2026_01_05_0900: "mk_datetime 2026 1 5 9 0 0 = 63903286800000000"
  by (simp add: dt_defs)

lemma dt_2026_01_05_0936: "mk_datetime 2026 1 5 9 36 0 = 63903288960000000"
  by (simp add: dt_defs)

lemma dt_2026_01_06_1200: "mk_datetime 2026 1 6 12 0 0 = 63903384000000000"
  by (simp add: dt_defs)

lemma dt_2026_01_06_2300: "mk_datetime 2026 1 6 23 0 0 = 63903423600000000"
  by (simp add: dt_defs)

lemma tuesday_draws:
  "hour_u due_tuesday_draws = 99 / 100" "minute_range_u due_tuesday_draws = 0"
  "completion_minute due_tuesday_draws = 0" "completion_second due_tuesday_draws = 0"
  "completion_u due_tuesday_draws = 0" "base_hours_draw due_tuesday_draws = 1935 / 100"
  "hours_until_start_draw due_tuesday_draws = 1"
  "start_minute due_tuesday_draws = 36" "start_second due_tuesday_draws = 0"
  by (simp_all add: due_tuesday_draws_def)

lemma due_in_one_day: "td_days (63903384000000000 - 63903286800000000) = 1"
  by (simp add: td_days_def DAY_US_def)

lemma tuesday_probability:
  "get_completion_probability ''engineering'' ''sprint'' 63903286800000000
     (Some 63903384000000000) = 95 / 100"
  unfolding get_completion_probability_def Let_def option.case due_in_one_day
  by (simp add: dict_get_def base_rates_def
        completion_project_adjustments_def weekday_def toordinal_def DAY_US_def)

lemma td_hours_tuesday: "td_hours 18 = 64800000000"
  by (simp add: td_hours_def py_round_def Let_def)

lemma tuesday_is_business_day:
  "is_business_day holidays_january_2026 (toordinal 63903351600000000)"
  "is_business_day holidays_january_2026 (toordinal 63903288960000000)"
  by (simp_all add: is_business_day_def holidays_january_2026_ordinals toordinal_def DAY_US_def)

lemma work_hours_tuesday:
  "get_random_time_in_work_hours 63903351600000000 ''task_completion'' due_tuesday_draws
     = Inr 63903423600000000"
  unfolding get_random_time_in_work_hours_def Let_def completion_weights completion_weights_total
    total_positive if_True tuesday_draws completion_hour_choice minute_range_first then_do_def
    sum.case
  by (simp add: minute_ranges_def toordinal_def DAY_US_def HOUR_US_def)

lemma completion_tuesday_value:
  "generate_completion_timestamp holidays_january_2026 63903286800000000
     (Some 63903384000000000) ''engineering'' ''sprint'' due_tuesday_draws
   = Inr 63903423600000000"
proof -
  have a: "dt_add 63903286800000000 64800000000 = Inr 63903351600000000"
    by (simp add: dt_add_def valid_datetime_def toordinal_def DAY_US_def MAXORDINAL_def)
  have m: "max 1 (min (1935 / 100 :: real) 336) * dict_get dept_multipliers ''engineering'' 1
             / (1 + (dict_get completion_acceleration ''sprint'' (13 / 10) - 1)
                      * (1 - min 1 (real_of_int 1 / 30))) = 18"
    by (simp add: dict_get_def dept_multipliers_def completion_acceleration_def)
  have p: "((1 :: int) > 0) = True" by simp
  have le: "(63903351600000000 > (63903384000000000 :: int)) = False" by simp
  show ?thesis
    unfolding generate_completion_timestamp_def Let_def tuesday_draws option.case due_in_one_day
      p if_True m td_hours_tuesday a then_do_def sum.case le if_False
    using tuesday_is_business_day(1) work_hours_tuesday by simp
qed

lemma started_tuesday_value:
  "generate_started_timestamp holidays_january_2026 63903286800000000 63903423600000000
     ''engineering'' ''sprint'' due_tuesday_draws = Inr 63903288960000000"
proof -
  have h: "max (5 / 10) (min (1 :: real) 168)
             * (dict_get start_dept_adjustments ''engineering'' 1
                  * dict_get start_project_adjustments ''sprint'' 1) = 6 / 10"
    by (simp add: dict_get_def start_dept_adjustments_def start_project_adjustments_def)
  have a: "dt_add 63903286800000000 2160000000 = Inr 63903288960000000"
    "dt_add 63903423600000000 (- (30 * MINUTE_US)) = Inr 63903421800000000"
    "dt_add 63903286800000000 (5 * MINUTE_US) = Inr 63903287100000000"
    by (simp_all add: dt_add_def valid_datetime_def toordinal_def DAY_US_def MAXORDINAL_def
        MINUTE_US_def)
  show ?thesis
    unfolding generate_started_timestamp_def Let_def tuesday_draws h td_hours_monday a
      then_do_def sum.case
    using tuesday_is_business_day(2)
    by (simp add: replace_hms_def hour_of_def microsecond_of_def toordinal_def DAY_US_def
        HOUR_US_def MINUTE_US_def SECOND_US_def)
qed

lemma due_tuesday_lifecycle:
  "generate_task_lifecycle holidays_january_2026 (mk_datetime 2026 1 5 9 0 0)
     (Some (mk_datetime 2026 1 6 12 0 0)) ''engineering'' ''sprint'' due_tuesday_draws
   = Inr \<lparr>lc_created_at = mk_datetime 2026 1 5 9 0 0,
          lc_started_at = Some (mk_datetime 2026 1 5 9 36 0),
          lc_completed_at = Some (mk_datetime 2026 1 6 23 0 0),
          lc_cycle_time_days = Some (187 / 120), lc_lead_time_days = Some (19 / 12)\<rparr>"
  unfolding dt_2026_01_05_0900 dt_2026_01_05_0936 dt_2026_01_06_1200 dt_2026_01_06_2300
    generate_task_lifecycle_def Let_def tuesday_probability tuesday_draws
    completion_tuesday_value started_tuesday_value then_do_def sum.case
  by (simp add: td_total_seconds_def)

text \<open>
  Claim C1 at three calls that return a record with \<open>completed_at\<close> set; the ordering
  \<open>created_at \<le> started_at \<le> completed_at\<close> and the bound \<open>completed_at \<le> due_date\<close> of
  the claim fail, each broken by a later step of the code after the step that establishes it.

  \<^item> Created on Monday 2026-01-05 at 17:30, engineering, sprint, no due date: the start,
    36 minutes after the creation, is first bounded below by \<open>created_at\<close> plus 5 minutes
    and then moved into the business hours, to 17:00, before \<open>created_at\<close>.
  \<^item> Created on Saturday 2026-01-03 at 10:58, sales, sprint, no due date: the completion
    after 36 minutes is moved to 11:00; the start is first bounded above by the completion
    minus 30 minutes and then below by \<open>created_at\<close> plus 5 minutes, 11:03, after
    \<open>completed_at\<close>; the cycle time is negative.
  \<^item> Created on Monday 2026-01-05 at 9:00, due on Tuesday 2026-01-06 at 12:00 (not overdue
    at creation), engineering, sprint: the completion after 18 hours, Tuesday 3:00, is
    before the due date and is then moved to the drawn hour 23 of that day, after the due
    date.
\<close>

theorem lifecycle_ordering_violated:
  "generate_task_lifecycle holidays_january_2026 (mk_datetime 2026 1 5 17 30 0) None
     ''engineering'' ''sprint'' monday_evening_draws
   = Inr \<lparr>lc_created_at = mk_datetime 2026 1 5 17 30 0,
          lc_started_at = Some (mk_datetime 2026 1 5 17 0 0),
          lc_completed_at = Some (mk_datetime 2026 1 5 23 0 0),
          lc_cycle_time_days = Some (1 / 4), lc_lead_time_days = Some (11 / 48)\<rparr>
   \<and> mk_datetime 2026 1 5 17 0 0 < mk_datetime 2026 1 5 17 30 0
   \<and> generate_task_lifecycle holidays_january_2026 (mk_datetime 2026 1 3 10 58 0) None
        ''sales'' ''sprint'' saturday_morning_draws
      = Inr \<lparr>lc_created_at = mk_datetime 2026 1 3 10 58 0,
             lc_started_at = Some (mk_datetime 2026 1 3 11 3 0),
             lc_completed_at = Some (mk_datetime 2026 1 3 11 0 0),
             lc_cycle_time_days = Some (- (1 / 480)), lc_lead_time_days = Some (1 / 720)\<rparr>
   \<and> mk_datetime 2026 1 3 11 0 0 < mk_datetime 2026 1 3 11 3 0
   \<and> generate_task_lifecycle holidays_january_2026 (mk_datetime 2026 1 5 9 0 0)
        (Some (mk_datetime 2026 1 6 12 0 0)) ''engineering'' ''sprint'' due_tuesday_draws
      = Inr \<lparr>lc_created_at = mk_datetime 2026 1 5 9 0 0,
             lc_started_at = Some (mk_datetime 2026 1 5 9 36 0),
             lc_completed_at = Some (mk_datetime 2026 1 6 23 0 0),
             lc_cycle_time_days = Some (187 / 120), lc_lead_time_days = Some (19 / 12)\<rparr>
   \<and> mk_datetime 2026 1 5 9 0 0 < mk_datetime 2026 1 6 12 0 0
   \<and> mk_datetime 2026 1 6 12 0 0 < mk_datetime 2026 1 6 23 0 0"
proof -
  have "mk_datetime 2026 1 5 17 0 0 < mk_datetime 2026 1 5 17 30 0"
    unfolding dt_2026_01_05_1730 dt_2026_01_05_1700 by simp
  moreover have "mk_datetime 2026 1 3 11 0 0 < mk_datetime 2026 1 3 11 3 0"
    unfolding dt_2026_01_03_1100 dt_2026_01_03_1103 by simp
  moreover have "mk_datetime 2026 1 5 9 0 0 < mk_datetime 2026 1 6 12 0 0"
    unfolding dt_2026_01_05_0900 dt_2026_01_06_1200 by simp
  moreover have "mk_datetime 2026 1 6 12 0 0 < mk_datetime 2026 1 6 23 0 0"
    unfolding dt_2026_01_06_1200 dt_2026_01_06_2300 by simp
  ultimately show ?thesis
    using monday_evening_lifecycle saturday_morning_lifecycle due_tuesday_lifecycle
    by (intro conjI) (simp_all only: simp_thms)
qed

subsection \<open>Overall verdict\<close>

lemma validate_distributions_raises:
  "\<exists>e. validate_distributions thr (Some tasks) = Inl e"
  by (cases "validate_due_date_distributions thr (due_date_distributions_query tasks)")
     (simp_all add: validate_distributions_def then_do_def)

lemma validate_distributions_query_error: "validate_distributions thr None = Inr (Some Error)"
  by (simp add: validate_distributions_def)

lemma integrity_raises_when_queries_succeed:
  "\<exists>e. validate_database_integrity thr schema temporal referential (Some tasks) business quality
         = Inl e"
  using validate_distributions_raises [of thr tasks]
  by (auto simp: validate_database_integrity_def then_do_def)

lemma filter_failed:
  "(filter (\<lambda>(category, st). st = Some Failure) (zip ns ss) \<noteq> []) \<longleftrightarrow>
     Some Failure \<in> set (take (length ns) ss)"
proof (induction ns arbitrary: ss)
  case Nil
  then show ?case by simp
next
  case (Cons n ns)
  then show ?case by (cases ss) auto
qed

lemma integrity_verdict_on_query_error:
  "\<exists>r. validate_database_integrity thr schema temporal referential None business quality = Inr r
       \<and> overall_status r
           = (if Some Failure \<in> set [schema, temporal, referential, business, quality]
              then Failure else Success)"
proof -
  have len: "length categories = 6" by (simp add: categories_def)
  let ?ss = "[schema, temporal, referential, Some Error, business, quality]"
  have f: "(filter (\<lambda>(category, st). st = Some Failure) (zip categories ?ss) \<noteq> [])
             \<longleftrightarrow> Some Failure \<in> set [schema, temporal, referential, business, quality]"
    unfolding filter_failed len by auto
  show ?thesis
  proof (cases "filter (\<lambda>(category, st). st = Some Failure) (zip categories ?ss) = []")
    case True
    then show ?thesis using f
      by (simp add: validate_database_integrity_def validate_distributions_query_error
          then_do_def Let_def)
  next
    case False
    then show ?thesis using f
      by (simp add: validate_database_integrity_def validate_distributions_query_error
          then_do_def Let_def)
  qed
qed

lemma test_database_queries:
  "due_date_distributions_query test_database_rows
     = [(''engineering'', ''sprint'', ''4-7_days'', 1), (''engineering'', ''sprint'', ''8-14_days'', 1),
        (''engineering'', ''sprint'', ''2-3_days'', 1), (''marketing'', ''campaign'', ''4-7_days'', 1)]"
  "completion_rates_query test_database_rows = []"
  by (simp_all add: due_date_distributions_query_def completion_rates_query_def
      test_database_rows_def due_date_bucket_def Let_def)

lemma test_database_groups:
  "group_due_date_data
     [(''engineering'', ''sprint'', ''4-7_days'', 1), (''engineering'', ''sprint'', ''8-14_days'', 1),
      (''engineering'', ''sprint'', ''2-3_days'', 1), (''marketing'', ''campaign'', ''4-7_days'', 1)]
   = [((''engineering'', ''sprint''), [(''4-7_days'', 1), (''8-14_days'', 1), (''2-3_days'', 1)]),
      ((''marketing'', ''campaign''), [(''4-7_days'', 1)])]"
  by (simp add: group_due_date_data_def)

lemma kl_returns:
  assumes "list_all (\<lambda>(b, v). 0 \<le> v) d1" and "list_all (\<lambda>(b, v). 0 \<le> v) d2"
  shows "\<exists>kl. calculate_kl_divergence d1 d2 = Inr kl"
proof -
  let ?bs = "all_buckets d1 d2"
  have p1: "0 < smoothed d1 b" for b using smoothed_pos [OF assms(1)] .
  have p2: "0 < smoothed d2 b" for b using smoothed_pos [OF assms(2)] .
  have s1: "?bs \<noteq> [] \<Longrightarrow> 0 < sum_list (map (smoothed d1) ?bs)"
    using sum_list_map_pos [of ?bs "smoothed d1"] p1 by simp
  have s2: "?bs \<noteq> [] \<Longrightarrow> 0 < sum_list (map (smoothed d2) ?bs)"
    using sum_list_map_pos [of ?bs "smoothed d2"] p2 by simp
  have q: "b \<in> set ?bs \<Longrightarrow> smoothed d2 b / sum_list (map (smoothed d2) ?bs) \<noteq> 0" for b
  proof -
    assume "b \<in> set ?bs"
    then have "?bs \<noteq> []" by auto
    then show ?thesis using s2 p2 [of b] by simp
  qed
  show ?thesis
  proof (cases "?bs = []")
    case True
    then show ?thesis by (simp add: calculate_kl_divergence_def Let_def)
  next
    case False
    then show ?thesis using s1 s2 q by (auto simp: calculate_kl_divergence_def Let_def)
  qed
qed

lemma validate_segment_returns:
  assumes "list_all (\<lambda>(b, c). 0 < c) bucket_counts" and "bucket_counts \<noteq> []"
  shows "\<exists>r. validate_segment thr ((dept, proj_type), bucket_counts) = Inr (Some r)"
proof -
  have nn: "0 \<le> sum_list (map snd bucket_counts)"
    using assms(1) by (intro sum_list_nonneg) (auto simp: list_all_iff)
  obtain b c rest where bc: "bucket_counts = (b, c) # rest" using assms(2)
    by (cases bucket_counts) auto
  have "0 < c" using assms(1) bc by simp
  moreover have "0 \<le> sum_list (map snd rest)"
    using assms(1) bc by (intro sum_list_nonneg) (auto simp: list_all_iff)
  ultimately have tot: "0 < sum_list (map snd bucket_counts)" using bc by simp
  have o: "list_all (\<lambda>(b, v). 0 \<le> v) (observed_of bucket_counts)"
    using assms(1) tot by (auto simp: observed_of_def list_all_iff intro!: divide_nonneg_pos)
  obtain kl where "calculate_kl_divergence (observed_of bucket_counts) (benchmark_for proj_type)
                     = Inr kl"
    using kl_returns [OF o benchmark_nonneg] by blast
  then show ?thesis using tot benchmark_nonempty [of proj_type]
    by (simp add: validate_segment_def Let_def)
qed

lemma test_database_due_dates_scored:
  "\<exists>v. validate_due_date_distributions thr
          (due_date_distributions_query test_database_rows) = Inr v"
proof -
  have "\<exists>r. validate_segment thr ((''engineering'', ''sprint''),
      [(''4-7_days'', 1), (''8-14_days'', 1), (''2-3_days'', 1)]) = Inr (Some r)"
    by (rule validate_segment_returns) simp_all
  then obtain r1 where r1: "validate_segment thr ((''engineering'', ''sprint''),
      [(''4-7_days'', 1), (''8-14_days'', 1), (''2-3_days'', 1)]) = Inr (Some r1)"
    by blast
  have "\<exists>r. validate_segment thr ((''marketing'', ''campaign''),
      [(''4-7_days'', 1)]) = Inr (Some r)"
    by (rule validate_segment_returns) simp_all
  then obtain r2 where r2: "validate_segment thr ((''marketing'', ''campaign''),
      [(''4-7_days'', 1)]) = Inr (Some r2)"
    by blast
  show ?thesis
    unfolding test_database_queries validate_due_date_distributions_def test_database_groups
      validate_segments.simps r1 r2
    by simp
qed

text \<open>
  Claim C9 on the test database of the module (schema validation \<open>failure\<close>, the
  distribution queries succeed): the call reaches the undefined
  \<open>_validate_assignment_patterns\<close> and raises \<open>AttributeError\<close>; no verdict is returned,
  although a category reports \<open>failure\<close>; the validators of the business rules and of the
  data quality are not reached. The same holds whenever the distribution queries
  succeed (lemma \<open>integrity_raises_when_queries_succeed\<close>); a verdict, \<open>failure\<close> exactly when
  another category reports \<open>failure\<close>, is only returned when those queries raise
  \<open>sqlite3.Error\<close> (lemma \<open>integrity_verdict_on_query_error\<close>).
\<close>

theorem integrity_check_raises_on_test_database:
  "validate_database_integrity (5 / 100) (Some Failure) (Some Error) (Some Error)
     (Some test_database_rows) business quality = Inl AttributeError"
proof -
  obtain v where "validate_due_date_distributions (5 / 100)
          (due_date_distributions_query test_database_rows) = Inr v"
    using test_database_due_dates_scored by blast
  then show ?thesis
    by (simp add: validate_database_integrity_def validate_distributions_def then_do_def Let_def)
qed

end
